theory Spec2Isabelle
  imports Complex_Main "HOL-Library.Sublist" "HOL-Library.AList"
begin

section \<open>JavaScript strings and error values\<close>

text \<open>
  A JavaScript string is a sequence of UTF-16 code units, and \<open>length\<close>, \<open>includes\<close>
  and \<open>trim\<close> work on code units. A string is therefore a list of code units (natural
  numbers); \<open>lit\<close> turns an ASCII literal of the source into such a list.
\<close>

type_synonym jsstring = "nat list"

definition lit :: "string \<Rightarrow> jsstring" where
  "lit s = map (\<lambda>c. of_char c) s"

text \<open>\<open>String.prototype.includes\<close>: the pattern occurs as a contiguous run.\<close>

definition js_includes :: "jsstring \<Rightarrow> jsstring \<Rightarrow> bool" where
  "js_includes s p = sublist p s"

text \<open>
  \<open>String.prototype.toLowerCase\<close> is the default case conversion of Unicode, on the code
  points of the string: the lowercase mappings of the character database, the one
  unconditional special casing (U+0130 becomes U+0069 U+0307) and the one condition that
  does not depend on a language, the final sigma. The tables below are those of
  Unicode 14.0; a run \<open>(lo, hi, step, lo')\<close> maps \<open>lo\<close>, \<open>lo + step\<close>, ... up to \<open>hi\<close> to
  \<open>lo'\<close>, \<open>lo' + step\<close>, ... A surrogate pair is one code point, a lone surrogate is left
  as it is. On the ASCII letters this is \<open>lowerUnit\<close>.
\<close>

definition lowerUnit :: "nat \<Rightarrow> nat" where
  "lowerUnit c = (if 65 \<le> c \<and> c \<le> 90 then c + 32 else c)"

definition lowerTable :: "(nat \<times> nat \<times> nat \<times> nat) list" where
  "lowerTable =
     [
      (192, 214, 1, 224), (216, 222, 1, 248), (256, 302, 2, 257), (306, 310, 2, 307), (313, 327,
      2, 314), (330, 374, 2, 331), (376, 376, 1, 255), (377, 381, 2, 378), (385, 385, 1, 595),
      (386, 388, 2, 387), (390, 390, 1, 596), (391, 391, 1, 392), (393, 394, 1, 598), (395, 395,
      1, 396), (398, 398, 1, 477), (399, 399, 1, 601), (400, 400, 1, 603), (401, 401, 1, 402),
      (403, 403, 1, 608), (404, 404, 1, 611), (406, 406, 1, 617), (407, 407, 1, 616), (408, 408,
      1, 409), (412, 412, 1, 623), (413, 413, 1, 626), (415, 415, 1, 629), (416, 420, 2, 417),
      (422, 422, 1, 640), (423, 423, 1, 424), (425, 425, 1, 643), (428, 428, 1, 429), (430, 430,
      1, 648), (431, 431, 1, 432), (433, 434, 1, 650), (435, 437, 2, 436), (439, 439, 1, 658),
      (440, 440, 1, 441), (444, 444, 1, 445), (452, 452, 1, 454), (453, 453, 1, 454), (455, 455,
      1, 457), (456, 456, 1, 457), (458, 458, 1, 460), (459, 475, 2, 460), (478, 494, 2, 479),
      (497, 497, 1, 499), (498, 500, 2, 499), (502, 502, 1, 405), (503, 503, 1, 447), (504, 542,
      2, 505), (544, 544, 1, 414), (546, 562, 2, 547), (570, 570, 1, 11365), (571, 571, 1, 572),
      (573, 573, 1, 410), (574, 574, 1, 11366), (577, 577, 1, 578), (579, 579, 1, 384), (580, 580,
      1, 649), (581, 581, 1, 652), (582, 590, 2, 583), (880, 882, 2, 881), (886, 886, 1, 887),
      (895, 895, 1, 1011), (902, 902, 1, 940), (904, 906, 1, 941), (908, 908, 1, 972), (910, 911,
      1, 973), (913, 929, 1, 945), (932, 939, 1, 964), (975, 975, 1, 983), (984, 1006, 2, 985),
      (1012, 1012, 1, 952), (1015, 1015, 1, 1016), (1017, 1017, 1, 1010), (1018, 1018, 1, 1019),
      (1021, 1023, 1, 891), (1024, 1039, 1, 1104), (1040, 1071, 1, 1072), (1120, 1152, 2, 1121),
      (1162, 1214, 2, 1163), (1216, 1216, 1, 1231), (1217, 1229, 2, 1218), (1232, 1326, 2, 1233),
      (1329, 1366, 1, 1377), (4256, 4293, 1, 11520), (4295, 4295, 1, 11559), (4301, 4301, 1,
      11565), (5024, 5103, 1, 43888), (5104, 5109, 1, 5112), (7312, 7354, 1, 4304), (7357, 7359,
      1, 4349), (7680, 7828, 2, 7681), (7838, 7838, 1, 223), (7840, 7934, 2, 7841), (7944, 7951,
      1, 7936), (7960, 7965, 1, 7952), (7976, 7983, 1, 7968), (7992, 7999, 1, 7984), (8008, 8013,
      1, 8000), (8025, 8031, 2, 8017), (8040, 8047, 1, 8032), (8072, 8079, 1, 8064), (8088, 8095,
      1, 8080), (8104, 8111, 1, 8096), (8120, 8121, 1, 8112), (8122, 8123, 1, 8048), (8124, 8124,
      1, 8115), (8136, 8139, 1, 8050), (8140, 8140, 1, 8131), (8152, 8153, 1, 8144), (8154, 8155,
      1, 8054), (8168, 8169, 1, 8160), (8170, 8171, 1, 8058), (8172, 8172, 1, 8165), (8184, 8185,
      1, 8056), (8186, 8187, 1, 8060), (8188, 8188, 1, 8179), (8486, 8486, 1, 969), (8490, 8490,
      1, 107), (8491, 8491, 1, 229), (8498, 8498, 1, 8526), (8544, 8559, 1, 8560), (8579, 8579, 1,
      8580), (9398, 9423, 1, 9424), (11264, 11311, 1, 11312), (11360, 11360, 1, 11361), (11362,
      11362, 1, 619), (11363, 11363, 1, 7549), (11364, 11364, 1, 637), (11367, 11371, 2, 11368),
      (11373, 11373, 1, 593), (11374, 11374, 1, 625), (11375, 11375, 1, 592), (11376, 11376, 1,
      594), (11378, 11378, 1, 11379), (11381, 11381, 1, 11382), (11390, 11391, 1, 575), (11392,
      11490, 2, 11393), (11499, 11501, 2, 11500), (11506, 11506, 1, 11507), (42560, 42604, 2,
      42561), (42624, 42650, 2, 42625), (42786, 42798, 2, 42787), (42802, 42862, 2, 42803),
      (42873, 42875, 2, 42874), (42877, 42877, 1, 7545), (42878, 42886, 2, 42879), (42891, 42891,
      1, 42892), (42893, 42893, 1, 613), (42896, 42898, 2, 42897), (42902, 42920, 2, 42903),
      (42922, 42922, 1, 614), (42923, 42923, 1, 604), (42924, 42924, 1, 609), (42925, 42925, 1,
      620), (42926, 42926, 1, 618), (42928, 42928, 1, 670), (42929, 42929, 1, 647), (42930, 42930,
      1, 669), (42931, 42931, 1, 43859), (42932, 42946, 2, 42933), (42948, 42948, 1, 42900),
      (42949, 42949, 1, 642), (42950, 42950, 1, 7566), (42951, 42953, 2, 42952), (42960, 42960, 1,
      42961), (42966, 42968, 2, 42967), (42997, 42997, 1, 42998), (65313, 65338, 1, 65345),
      (66560, 66599, 1, 66600), (66736, 66771, 1, 66776), (66928, 66938, 1, 66967), (66940, 66954,
      1, 66979), (66956, 66962, 1, 66995), (66964, 66965, 1, 67003), (68736, 68786, 1, 68800),
      (71840, 71871, 1, 71872), (93760, 93791, 1, 93792), (125184, 125217, 1, 125218)]"

text \<open>The code points with the property Case_Ignorable, as ranges.\<close>

definition caseIgnorableTable :: "(nat \<times> nat) list" where
  "caseIgnorableTable =
     [
      (39, 39), (46, 46), (58, 58), (94, 94), (96, 96), (168, 168), (173, 173), (175, 175), (180,
      180), (183, 184), (688, 879), (884, 885), (890, 890), (900, 901), (903, 903), (1155, 1161),
      (1369, 1369), (1375, 1375), (1425, 1469), (1471, 1471), (1473, 1474), (1476, 1477), (1479,
      1479), (1524, 1524), (1536, 1541), (1552, 1562), (1564, 1564), (1600, 1600), (1611, 1631),
      (1648, 1648), (1750, 1757), (1759, 1768), (1770, 1773), (1807, 1807), (1809, 1809), (1840,
      1866), (1958, 1968), (2027, 2037), (2042, 2042), (2045, 2045), (2070, 2093), (2137, 2139),
      (2184, 2184), (2192, 2193), (2200, 2207), (2249, 2306), (2362, 2362), (2364, 2364), (2369,
      2376), (2381, 2381), (2385, 2391), (2402, 2403), (2417, 2417), (2433, 2433), (2492, 2492),
      (2497, 2500), (2509, 2509), (2530, 2531), (2558, 2558), (2561, 2562), (2620, 2620), (2625,
      2626), (2631, 2632), (2635, 2637), (2641, 2641), (2672, 2673), (2677, 2677), (2689, 2690),
      (2748, 2748), (2753, 2757), (2759, 2760), (2765, 2765), (2786, 2787), (2810, 2815), (2817,
      2817), (2876, 2876), (2879, 2879), (2881, 2884), (2893, 2893), (2901, 2902), (2914, 2915),
      (2946, 2946), (3008, 3008), (3021, 3021), (3072, 3072), (3076, 3076), (3132, 3132), (3134,
      3136), (3142, 3144), (3146, 3149), (3157, 3158), (3170, 3171), (3201, 3201), (3260, 3260),
      (3263, 3263), (3270, 3270), (3276, 3277), (3298, 3299), (3328, 3329), (3387, 3388), (3393,
      3396), (3405, 3405), (3426, 3427), (3457, 3457), (3530, 3530), (3538, 3540), (3542, 3542),
      (3633, 3633), (3636, 3642), (3654, 3662), (3761, 3761), (3764, 3772), (3782, 3782), (3784,
      3789), (3864, 3865), (3893, 3893), (3895, 3895), (3897, 3897), (3953, 3966), (3968, 3972),
      (3974, 3975), (3981, 3991), (3993, 4028), (4038, 4038), (4141, 4144), (4146, 4151), (4153,
      4154), (4157, 4158), (4184, 4185), (4190, 4192), (4209, 4212), (4226, 4226), (4229, 4230),
      (4237, 4237), (4253, 4253), (4348, 4348), (4957, 4959), (5906, 5908), (5938, 5939), (5970,
      5971), (6002, 6003), (6068, 6069), (6071, 6077), (6086, 6086), (6089, 6099), (6103, 6103),
      (6109, 6109), (6155, 6159), (6211, 6211), (6277, 6278), (6313, 6313), (6432, 6434), (6439,
      6440), (6450, 6450), (6457, 6459), (6679, 6680), (6683, 6683), (6742, 6742), (6744, 6750),
      (6752, 6752), (6754, 6754), (6757, 6764), (6771, 6780), (6783, 6783), (6823, 6823), (6832,
      6862), (6912, 6915), (6964, 6964), (6966, 6970), (6972, 6972), (6978, 6978), (7019, 7027),
      (7040, 7041), (7074, 7077), (7080, 7081), (7083, 7085), (7142, 7142), (7144, 7145), (7149,
      7149), (7151, 7153), (7212, 7219), (7222, 7223), (7288, 7293), (7376, 7378), (7380, 7392),
      (7394, 7400), (7405, 7405), (7412, 7412), (7416, 7417), (7468, 7530), (7544, 7544), (7579,
      7679), (8125, 8125), (8127, 8129), (8141, 8143), (8157, 8159), (8173, 8175), (8189, 8190),
      (8203, 8207), (8216, 8217), (8228, 8228), (8231, 8231), (8234, 8238), (8288, 8292), (8294,
      8303), (8305, 8305), (8319, 8319), (8336, 8348), (8400, 8432), (11388, 11389), (11503,
      11505), (11631, 11631), (11647, 11647), (11744, 11775), (11823, 11823), (12293, 12293),
      (12330, 12333), (12337, 12341), (12347, 12347), (12441, 12446), (12540, 12542), (40981,
      40981), (42232, 42237), (42508, 42508), (42607, 42610), (42612, 42621), (42623, 42623),
      (42652, 42655), (42736, 42737), (42752, 42785), (42864, 42864), (42888, 42890), (42994,
      42996), (43000, 43001), (43010, 43010), (43014, 43014), (43019, 43019), (43045, 43046),
      (43052, 43052), (43204, 43205), (43232, 43249), (43263, 43263), (43302, 43309), (43335,
      43345), (43392, 43394), (43443, 43443), (43446, 43449), (43452, 43453), (43471, 43471),
      (43493, 43494), (43561, 43566), (43569, 43570), (43573, 43574), (43587, 43587), (43596,
      43596), (43632, 43632), (43644, 43644), (43696, 43696), (43698, 43700), (43703, 43704),
      (43710, 43711), (43713, 43713), (43741, 43741), (43756, 43757), (43763, 43764), (43766,
      43766), (43867, 43871), (43881, 43883), (44005, 44005), (44008, 44008), (44013, 44013),
      (64286, 64286), (64434, 64450), (65024, 65039), (65043, 65043), (65056, 65071), (65106,
      65106), (65109, 65109), (65279, 65279), (65287, 65287), (65294, 65294), (65306, 65306),
      (65342, 65342), (65344, 65344), (65392, 65392), (65438, 65439), (65507, 65507), (65529,
      65531), (66045, 66045), (66272, 66272), (66422, 66426), (67456, 67461), (67463, 67504),
      (67506, 67514), (68097, 68099), (68101, 68102), (68108, 68111), (68152, 68154), (68159,
      68159), (68325, 68326), (68900, 68903), (69291, 69292), (69446, 69456), (69506, 69509),
      (69633, 69633), (69688, 69702), (69744, 69744), (69747, 69748), (69759, 69761), (69811,
      69814), (69817, 69818), (69821, 69821), (69826, 69826), (69837, 69837), (69888, 69890),
      (69927, 69931), (69933, 69940), (70003, 70003), (70016, 70017), (70070, 70078), (70089,
      70092), (70095, 70095), (70191, 70193), (70196, 70196), (70198, 70199), (70206, 70206),
      (70367, 70367), (70371, 70378), (70400, 70401), (70459, 70460), (70464, 70464), (70502,
      70508), (70512, 70516), (70712, 70719), (70722, 70724), (70726, 70726), (70750, 70750),
      (70835, 70840), (70842, 70842), (70847, 70848), (70850, 70851), (71090, 71093), (71100,
      71101), (71103, 71104), (71132, 71133), (71219, 71226), (71229, 71229), (71231, 71232),
      (71339, 71339), (71341, 71341), (71344, 71349), (71351, 71351), (71453, 71455), (71458,
      71461), (71463, 71467), (71727, 71735), (71737, 71738), (71995, 71996), (71998, 71998),
      (72003, 72003), (72148, 72151), (72154, 72155), (72160, 72160), (72193, 72202), (72243,
      72248), (72251, 72254), (72263, 72263), (72273, 72278), (72281, 72283), (72330, 72342),
      (72344, 72345), (72752, 72758), (72760, 72765), (72767, 72767), (72850, 72871), (72874,
      72880), (72882, 72883), (72885, 72886), (73009, 73014), (73018, 73018), (73020, 73021),
      (73023, 73029), (73031, 73031), (73104, 73105), (73109, 73109), (73111, 73111), (73459,
      73460), (78896, 78904), (92912, 92916), (92976, 92982), (92992, 92995), (94031, 94031),
      (94095, 94111), (94176, 94177), (94179, 94180), (110576, 110579), (110581, 110587), (110589,
      110590), (113821, 113822), (113824, 113827), (118528, 118573), (118576, 118598), (119143,
      119145), (119155, 119170), (119173, 119179), (119210, 119213), (119362, 119364), (121344,
      121398), (121403, 121452), (121461, 121461), (121476, 121476), (121499, 121503), (121505,
      121519), (122880, 122886), (122888, 122904), (122907, 122913), (122915, 122916), (122918,
      122922), (123184, 123197), (123566, 123566), (123628, 123631), (125136, 125142), (125252,
      125259), (127995, 127999), (917505, 917505), (917536, 917631), (917760, 917999)]"

text \<open>The code points with the property Cased that are not Case_Ignorable, as ranges.\<close>

definition casedTable :: "(nat \<times> nat) list" where
  "casedTable =
     [
      (65, 90), (97, 122), (170, 170), (181, 181), (186, 186), (192, 214), (216, 246), (248, 442),
      (444, 447), (452, 659), (661, 687), (880, 883), (886, 887), (891, 893), (895, 895), (902,
      902), (904, 906), (908, 908), (910, 929), (931, 1013), (1015, 1153), (1162, 1327), (1329,
      1366), (1376, 1416), (4256, 4293), (4295, 4295), (4301, 4301), (4304, 4346), (4349, 4351),
      (5024, 5109), (5112, 5117), (7296, 7304), (7312, 7354), (7357, 7359), (7424, 7467), (7531,
      7543), (7545, 7578), (7680, 7957), (7960, 7965), (7968, 8005), (8008, 8013), (8016, 8023),
      (8025, 8025), (8027, 8027), (8029, 8029), (8031, 8061), (8064, 8116), (8118, 8124), (8126,
      8126), (8130, 8132), (8134, 8140), (8144, 8147), (8150, 8155), (8160, 8172), (8178, 8180),
      (8182, 8188), (8450, 8450), (8455, 8455), (8458, 8467), (8469, 8469), (8473, 8477), (8484,
      8484), (8486, 8486), (8488, 8488), (8490, 8493), (8495, 8500), (8505, 8505), (8508, 8511),
      (8517, 8521), (8526, 8526), (8544, 8575), (8579, 8580), (9398, 9449), (11264, 11387),
      (11390, 11492), (11499, 11502), (11506, 11507), (11520, 11557), (11559, 11559), (11565,
      11565), (42560, 42605), (42624, 42651), (42786, 42863), (42865, 42887), (42891, 42894),
      (42896, 42954), (42960, 42961), (42963, 42963), (42965, 42969), (42997, 42998), (43002,
      43002), (43824, 43866), (43872, 43880), (43888, 43967), (64256, 64262), (64275, 64279),
      (65313, 65338), (65345, 65370), (66560, 66639), (66736, 66771), (66776, 66811), (66928,
      66938), (66940, 66954), (66956, 66962), (66964, 66965), (66967, 66977), (66979, 66993),
      (66995, 67001), (67003, 67004), (68736, 68786), (68800, 68850), (71840, 71903), (93760,
      93823), (119808, 119892), (119894, 119964), (119966, 119967), (119970, 119970), (119973,
      119974), (119977, 119980), (119982, 119993), (119995, 119995), (119997, 120003), (120005,
      120069), (120071, 120074), (120077, 120084), (120086, 120092), (120094, 120121), (120123,
      120126), (120128, 120132), (120134, 120134), (120138, 120144), (120146, 120485), (120488,
      120512), (120514, 120538), (120540, 120570), (120572, 120596), (120598, 120628), (120630,
      120654), (120656, 120686), (120688, 120712), (120714, 120744), (120746, 120770), (120772,
      120779), (122624, 122633), (122635, 122654), (125184, 125251), (127280, 127305), (127312,
      127337), (127344, 127369)]"

definition inRanges :: "(nat \<times> nat) list \<Rightarrow> nat \<Rightarrow> bool" where
  "inRanges table c = list_ex (\<lambda>(lo, hi). lo \<le> c \<and> c \<le> hi) table"

definition lowerPoint :: "nat \<Rightarrow> nat list" where
  "lowerPoint c =
     (if c < 128 then [lowerUnit c]
      else if c = 304 then [105, 775]
      else case find (\<lambda>(lo, hi, step, lo'). lo \<le> c \<and> c \<le> hi \<and> (c - lo) mod step = 0)
                  lowerTable of
             None \<Rightarrow> [c]
           | Some (lo, hi, step, lo') \<Rightarrow> [lo' + (c - lo)])"

text \<open>
  The final sigma: the capital sigma is preceded by a cased letter and not followed by
  one, where case-ignorable code points in between are skipped. \<open>seen\<close> is the text
  before the sigma, nearest code point first.
\<close>

definition finalSigma :: "nat list \<Rightarrow> nat list \<Rightarrow> bool" where
  "finalSigma seen rest \<longleftrightarrow>
     (case dropWhile (inRanges caseIgnorableTable) seen of
        [] \<Rightarrow> False
      | b # bs \<Rightarrow> inRanges casedTable b) \<and>
     (case dropWhile (inRanges caseIgnorableTable) rest of
        [] \<Rightarrow> True
      | a # r \<Rightarrow> \<not> inRanges casedTable a)"

fun lowerFrom :: "nat list \<Rightarrow> nat list \<Rightarrow> nat list" where
  "lowerFrom seen [] = []"
| "lowerFrom seen (c # rest) =
     (if c = 931 then [if finalSigma seen rest then 962 else 963] else lowerPoint c) @
     lowerFrom (c # seen) rest"

text \<open>Code units to code points and back.\<close>

fun codePoints :: "jsstring \<Rightarrow> nat list" where
  "codePoints (h # l # s) =
     (if 55296 \<le> h \<and> h \<le> 56319 \<and> 56320 \<le> l \<and> l \<le> 57343
      then (65536 + (h - 55296) * 1024 + (l - 56320)) # codePoints s
      else h # codePoints (l # s))"
| "codePoints [h] = [h]"
| "codePoints [] = []"

definition codeUnits :: "nat \<Rightarrow> jsstring" where
  "codeUnits c =
     (if c < 65536 then [c]
      else [55296 + (c - 65536) div 1024, 56320 + (c - 65536) mod 1024])"

definition toLowerCase :: "jsstring \<Rightarrow> jsstring" where
  "toLowerCase s = concat (map codeUnits (lowerFrom [] (codePoints s)))"

text \<open>
  \<open>trim\<close> removes white space at both ends. The white space of ECMAScript: tab, line
  feed, vertical tab, form feed, carriage return, space, no-break space, the byte order
  mark, the line and paragraph separators and the Unicode space separators.
\<close>

definition isWhiteSpace :: "nat \<Rightarrow> bool" where
  "isWhiteSpace c \<longleftrightarrow>
     c \<in> set [9, 10, 11, 12, 13, 32, 160, 5760, 8232, 8233, 8239, 8287, 12288, 65279]
     \<or> (8192 \<le> c \<and> c \<le> 8202)"

definition trim :: "jsstring \<Rightarrow> jsstring" where
  "trim s = rev (dropWhile isWhiteSpace (rev (dropWhile isWhiteSpace s)))"

text \<open>
  An \<open>Error\<close> object: its message, and the \<open>status\<close> property that the failover
  client sets on the error it classifies.
\<close>

record jserror =
  message :: jsstring
  status :: "nat option"

definition Error :: "jsstring \<Rightarrow> jserror" where
  "Error m = \<lparr>message = m, status = None\<rparr>"

section \<open>CircuitBreaker\<close>

datatype circuit_state = CLOSED | OPEN | HALF_OPEN

record CircuitBreaker =
  breakerName :: jsstring
  failureCount :: nat
  lastFailureTime :: int
  state :: circuit_state

definition failureThreshold :: nat where
  "failureThreshold = 3"

definition resetTimeout :: int where
  "resetTimeout = 30000"

definition new_CircuitBreaker :: "jsstring \<Rightarrow> CircuitBreaker" where
  "new_CircuitBreaker n =
     \<lparr>breakerName = n, failureCount = 0, lastFailureTime = 0, state = CLOSED\<rparr>"

definition CircuitBreaker_onSuccess :: "CircuitBreaker \<Rightarrow> CircuitBreaker" where
  "CircuitBreaker_onSuccess cb = cb\<lparr>failureCount := 0, state := CLOSED\<rparr>"

definition CircuitBreaker_onFailure :: "int \<Rightarrow> CircuitBreaker \<Rightarrow> CircuitBreaker" where
  "CircuitBreaker_onFailure now cb =
     (let cb1 = cb\<lparr>failureCount := failureCount cb + 1, lastFailureTime := now\<rparr>
      in if failureCount cb1 \<ge> failureThreshold then cb1\<lparr>state := OPEN\<rparr> else cb1)"

definition breakerOpenError :: "CircuitBreaker \<Rightarrow> jserror" where
  "breakerOpenError cb =
     Error (lit ''Circuit breaker OPEN for '' @ breakerName cb @ lit ''. Too many failures.'')"

text \<open>
  The first statement of \<open>execute\<close>: an open breaker either moves to \<open>HALF_OPEN\<close> or
  throws; \<open>now\<close> is the value of \<open>Date.now()\<close>.
\<close>

definition CircuitBreaker_admit :: "int \<Rightarrow> CircuitBreaker \<Rightarrow> jserror + CircuitBreaker" where
  "CircuitBreaker_admit now cb =
     (if state cb = OPEN then
        (if now - lastFailureTime cb > resetTimeout then Inr (cb\<lparr>state := HALF_OPEN\<rparr>)
         else Inl (breakerOpenError cb))
      else Inr cb)"

text \<open>
  \<open>execute\<close>. The operation works on a world \<open>'w\<close> (everything outside the breaker)
  and either throws or returns; \<open>clock\<close> reads \<open>Date.now()\<close> off the world. A world
  that comes back unchanged, for an operation that is arbitrary, is an operation that
  was not called.
\<close>

definition CircuitBreaker_execute ::
  "('w \<Rightarrow> int) \<Rightarrow> ('w \<Rightarrow> (jserror + 'a) \<times> 'w) \<Rightarrow> CircuitBreaker \<times> 'w
     \<Rightarrow> (jserror + 'a) \<times> CircuitBreaker \<times> 'w" where
  "CircuitBreaker_execute clock operation = (\<lambda>(cb, w).
     (case CircuitBreaker_admit (clock w) cb of
        Inl e \<Rightarrow> (Inl e, cb, w)
      | Inr cb1 \<Rightarrow>
          (case operation w of
             (Inr result, w') \<Rightarrow> (Inr result, CircuitBreaker_onSuccess cb1, w')
           | (Inl e, w') \<Rightarrow> (Inl e, CircuitBreaker_onFailure (clock w') cb1, w'))))"

text \<open>
  The breaker's own steps, for the states it can reach: JavaScript runs each of them
  without interruption, whatever else is interleaved with the awaited operation.
\<close>

datatype breaker_step = Admit int | Succeeded | Failed int

fun breaker_do :: "CircuitBreaker \<Rightarrow> breaker_step \<Rightarrow> CircuitBreaker" where
  "breaker_do cb (Admit now) =
     (case CircuitBreaker_admit now cb of Inl e \<Rightarrow> cb | Inr cb1 \<Rightarrow> cb1)"
| "breaker_do cb Succeeded = CircuitBreaker_onSuccess cb"
| "breaker_do cb (Failed now) = CircuitBreaker_onFailure now cb"

definition breaker_after :: "jsstring \<Rightarrow> breaker_step list \<Rightarrow> CircuitBreaker" where
  "breaker_after n steps = foldl breaker_do (new_CircuitBreaker n) steps"

text \<open>A world for running the breaker on concrete operations: a clock and a call counter.\<close>

record probe_world =
  pw_now :: int
  pw_calls :: nat

definition probe_ok :: "probe_world \<Rightarrow> (jserror + unit) \<times> probe_world" where
  "probe_ok w = (Inr (), w\<lparr>pw_calls := pw_calls w + 1\<rparr>)"

definition probe_fail :: "probe_world \<Rightarrow> (jserror + unit) \<times> probe_world" where
  "probe_fail w = (Inl (Error (lit ''boom'')), w\<lparr>pw_calls := pw_calls w + 1\<rparr>)"

definition open_breaker :: CircuitBreaker where
  "open_breaker =
     \<lparr>breakerName = lit ''T'', failureCount = 3, lastFailureTime = 0, state = OPEN\<rparr>"

section \<open>AdaptiveBatchController\<close>

text \<open>
  Batch sizes are whole numbers: the controller starts from 3, 5, 6 or 8 and only adds
  one or takes \<open>Math.floor\<close>. \<open>Math.floor(n * 0.7)\<close> is computed in binary floating
  point; for a whole \<open>n\<close> from 1 to 20 the product is either far from a whole number or
  (at 10 and 20) rounds to exactly 7 and 14, so it equals \<open>n * 7 div 10\<close>.
\<close>

record AdaptiveBatchController =
  currentBatchSize :: int
  recentSuccesses :: nat
  recentFailures :: nat
  maxBatchSize :: int
  baselineBatchSize :: int

definition windowSize :: nat where
  "windowSize = 5"

definition minBatchSize :: int where
  "minBatchSize = 1"

definition new_AdaptiveBatchController :: "int \<Rightarrow> int \<Rightarrow> AdaptiveBatchController" where
  "new_AdaptiveBatchController initialSize maxSize =
     \<lparr>currentBatchSize = initialSize, recentSuccesses = 0, recentFailures = 0,
      maxBatchSize = maxSize, baselineBatchSize = initialSize\<rparr>"

definition onSuccess :: "AdaptiveBatchController \<Rightarrow> AdaptiveBatchController" where
  "onSuccess c =
     (let c1 = c\<lparr>recentSuccesses := recentSuccesses c + 1\<rparr>
      in if recentSuccesses c1 \<ge> windowSize \<and> currentBatchSize c1 < maxBatchSize c1
         then c1\<lparr>currentBatchSize := min (currentBatchSize c1 + 1) (maxBatchSize c1),
                 recentSuccesses := 0\<rparr>
         else c1)"

definition onFailure :: "AdaptiveBatchController \<Rightarrow> AdaptiveBatchController" where
  "onFailure c =
     (let c1 = c\<lparr>recentFailures := recentFailures c + 1, recentSuccesses := 0\<rparr>
      in if recentFailures c1 \<ge> 2 \<and> currentBatchSize c1 > minBatchSize
         then c1\<lparr>currentBatchSize := max (currentBatchSize c1 * 7 div 10) minBatchSize,
                 recentFailures := 0\<rparr>
         else c1)"

definition getBatchSize :: "AdaptiveBatchController \<Rightarrow> int" where
  "getBatchSize c = currentBatchSize c"

section \<open>AdvancedRateLimiter\<close>

definition windowMs :: int where
  "windowMs = 60000"

definition cleanupOldRequests :: "int \<Rightarrow> int list \<Rightarrow> int list" where
  "cleanupOldRequests now requests = filter (\<lambda>time. now - time < windowMs) requests"

definition calculateWaitTime :: "int \<Rightarrow> int list \<Rightarrow> int" where
  "calculateWaitTime now requests =
     (case requests of [] \<Rightarrow> 0 | oldestRequest # _ \<Rightarrow> windowMs - (now - oldestRequest))"

text \<open>
  \<open>delay\<close>: the clock after a timer of \<open>ms\<close> milliseconds set at \<open>now\<close>; a timer
  with a negative delay fires at once.
\<close>

definition delay :: "int \<Rightarrow> int \<Rightarrow> int" where
  "delay ms now = now + max 0 ms"

text \<open>
  \<open>acquireSlot\<close> calls itself after the wait, with no bound on the number of rounds:
  the result is \<open>None\<close> when it never returns. It takes the clock and the recorded
  timestamps and returns the clock at its return and the new timestamps;
  \<open>maxRequests\<close> is what \<open>getMaxRequests()\<close> returns.
\<close>

partial_function (option) acquireSlot :: "int \<Rightarrow> int \<Rightarrow> int list \<Rightarrow> (int \<times> int list) option" where
  "acquireSlot maxRequests now requests =
     (let requests1 = cleanupOldRequests now requests
      in if int (length requests1) \<ge> maxRequests
         then acquireSlot maxRequests (delay (calculateWaitTime now requests1 + 100) now) requests1
         else Some (now, requests1 @ [now]))"

declare acquireSlot.simps [code]

section \<open>The result cache\<close>

text \<open>
  A translation result as it comes out of a JSON document: a field that is missing or
  \<open>null\<close> is \<open>None\<close>.
\<close>

record GroqTranslationResult =
  tr_translation :: "jsstring option"
  tr_definition :: "jsstring option"
  tr_exampleSource :: "jsstring option"
  tr_exampleTarget :: "jsstring option"

record cache_entry =
  ts :: int
  data :: GroqTranslationResult

text \<open>
  The store is a plain object used as a dictionary from lowercased words to entries.
  Reading a property that is not the object's own goes up the prototype chain, and
  writing \<open>__proto__\<close> (when it is not an own property) replaces the prototype. So the
  store is its own properties, an association list with at most one pair for a key, and
  the entry that has become its prototype, if any; without one the prototype is
  \<open>Object.prototype\<close>. An own property \<open>__proto__\<close> comes from a saved store only.
\<close>

record cache_store =
  own :: "(jsstring \<times> cache_entry) list"
  proto :: "cache_entry option"

text \<open>The object literal \<open>{}\<close>.\<close>

definition emptyStore :: cache_store where
  "emptyStore = \<lparr>own = [], proto = None\<rparr>"

text \<open>
  What reading a property of the store yields: \<open>undefined\<close>; an entry; the number or
  the result held by the entry that is the prototype; or a built-in object (a method of
  \<open>Object.prototype\<close>, its constructor, or \<open>Object.prototype\<close> itself), which has no
  property \<open>ts\<close> or \<open>data\<close>.
\<close>

datatype js_value =
  Undefined
| EntryObject cache_entry
| NumberValue int
| ResultObject GroqTranslationResult
| BuiltinObject

definition objectPrototypeKeys :: "jsstring list" where
  "objectPrototypeKeys =
     map lit [''constructor'', ''__defineGetter__'', ''__defineSetter__'', ''hasOwnProperty'',
       ''__lookupGetter__'', ''__lookupSetter__'', ''isPrototypeOf'', ''propertyIsEnumerable'',
       ''toString'', ''valueOf'', ''toLocaleString'']"

text \<open>\<open>cacheStore[key]\<close>, read.\<close>

definition storeGet :: "cache_store \<Rightarrow> jsstring \<Rightarrow> js_value" where
  "storeGet cacheStore key =
     (case map_of (own cacheStore) key of
        Some entry \<Rightarrow> EntryObject entry
      | None \<Rightarrow>
          (case proto cacheStore of
             Some p \<Rightarrow>
               if key = lit ''ts'' then NumberValue (ts p)
               else if key = lit ''data'' then ResultObject (data p)
               else if key = lit ''__proto__'' then EntryObject p
               else if key \<in> set objectPrototypeKeys then BuiltinObject
               else Undefined
           | None \<Rightarrow>
               if key = lit ''__proto__'' \<or> key \<in> set objectPrototypeKeys then BuiltinObject
               else Undefined))"

text \<open>\<open>delete cacheStore[key]\<close>: an own property is removed, nothing else changes.\<close>

definition storeDelete :: "cache_store \<Rightarrow> jsstring \<Rightarrow> cache_store" where
  "storeDelete cacheStore key = cacheStore\<lparr>own := AList.delete key (own cacheStore)\<rparr>"

text \<open>\<open>cacheStore[key] = entry\<close>.\<close>

definition storeSet :: "cache_store \<Rightarrow> jsstring \<Rightarrow> cache_entry \<Rightarrow> cache_store" where
  "storeSet cacheStore key entry =
     (if key = lit ''__proto__'' \<and> map_of (own cacheStore) key = None
      then cacheStore\<lparr>proto := Some entry\<rparr>
      else cacheStore\<lparr>own := AList.update key entry (own cacheStore)\<rparr>)"

text \<open>\<open>!s || s.trim() === ''\<close> for a field.\<close>

definition blank :: "jsstring option \<Rightarrow> bool" where
  "blank f = (case f of None \<Rightarrow> True | Some s \<Rightarrow> s = [] \<or> trim s = [])"

definition isEmptyTranslation :: "GroqTranslationResult \<Rightarrow> bool" where
  "isEmptyTranslation result \<longleftrightarrow>
     blank (tr_translation result) \<and> blank (tr_definition result) \<and>
     blank (tr_exampleSource result) \<and> blank (tr_exampleTarget result)"

definition ttlMs :: "int option \<Rightarrow> int" where
  "ttlMs cacheTTLHours = (case cacheTTLHours of None \<Rightarrow> 24 | Some h \<Rightarrow> h) * 3600000"

text \<open>
  \<open>getCachedResult\<close> returns the result (\<open>None\<close> for \<open>undefined\<close>) and the store, from
  which it may have deleted the entry; or it throws: what it has read is not an entry,
  its \<open>ts\<close> is \<open>undefined\<close>, the comparison with \<open>NaN\<close> is false, its \<open>data\<close> is
  \<open>undefined\<close>, and \<open>isEmptyTranslation\<close> reads \<open>translation\<close> of \<open>undefined\<close>, a
  \<open>TypeError\<close>. A number that is zero is falsy.
\<close>

datatype 'a completion = Throws | Returns 'a

definition getCachedResult ::
  "int option \<Rightarrow> int \<Rightarrow> cache_store \<Rightarrow> jsstring
     \<Rightarrow> (GroqTranslationResult option \<times> cache_store) completion" where
  "getCachedResult cacheTTLHours now cacheStore word =
     (let key = toLowerCase word in
      case storeGet cacheStore key of
        Undefined \<Rightarrow> Returns (None, cacheStore)
      | EntryObject entry \<Rightarrow>
          if now - ts entry > ttlMs cacheTTLHours then Returns (None, storeDelete cacheStore key)
          else if isEmptyTranslation (data entry) then Returns (None, cacheStore)
          else Returns (Some (data entry), cacheStore)
      | NumberValue n \<Rightarrow> if n = 0 then Returns (None, cacheStore) else Throws
      | ResultObject d \<Rightarrow> Throws
      | BuiltinObject \<Rightarrow> Throws)"

definition setCachedResult ::
  "int \<Rightarrow> cache_store \<Rightarrow> jsstring \<Rightarrow> GroqTranslationResult \<Rightarrow> cache_store" where
  "setCachedResult now cacheStore word d =
     storeSet cacheStore (toLowerCase word) \<lparr>ts = now, data = d\<rparr>"

definition createEmptyCacheEntry :: GroqTranslationResult where
  "createEmptyCacheEntry =
     \<lparr>tr_translation = Some [], tr_definition = Some [],
      tr_exampleSource = Some [], tr_exampleTarget = Some []\<rparr>"

section \<open>ErrorClassifier\<close>

datatype ErrorCategory =
  MODEL | JSON | RATE_LIMIT | NETWORK | SERVER | PARSE | VALIDATION | CAPACITY | MODEL_CAPACITY

text \<open>The strings of \<open>ERROR_CATEGORIES\<close>, as a worker's error envelope spells them.\<close>

fun categoryName :: "ErrorCategory \<Rightarrow> jsstring" where
  "categoryName MODEL = lit ''model''"
| "categoryName JSON = lit ''json''"
| "categoryName RATE_LIMIT = lit ''rate_limit''"
| "categoryName NETWORK = lit ''network''"
| "categoryName SERVER = lit ''server''"
| "categoryName PARSE = lit ''parse''"
| "categoryName VALIDATION = lit ''validation''"
| "categoryName CAPACITY = lit ''capacity''"
| "categoryName MODEL_CAPACITY = lit ''model_capacity''"

text \<open>
  \<open>categorizeError\<close>: the first check that matches decides. An error with an empty
  message is classified by \<open>error.toString()\<close>, which is \<open>Error\<close> then.
\<close>

definition categorizeError :: "jserror \<Rightarrow> ErrorCategory" where
  "categorizeError error =
     (let errorMessage = (if message error = [] then toLowerCase (lit ''Error'')
                          else toLowerCase (message error));
          statusCode = status error;
          has = (\<lambda>p. js_includes errorMessage (lit p))
      in if has ''over capacity'' \<or> has ''currently over capacity'' \<or>
            has ''capacity exceeded'' \<or> has ''is currently over capacity'' then CAPACITY
         else if (has ''model'' \<and> has ''capacity'') \<or> (has ''llama'' \<and> has ''capacity'')
           then MODEL_CAPACITY
         else if has ''model'' \<or> has ''does not exist'' \<or> has ''not available'' \<or>
            has ''you do not have access'' \<or> has ''model_not_available'' \<or>
            has ''model_required'' then MODEL
         else if has ''rate limit'' \<or> has ''too many requests'' \<or> has ''rate_limit'' \<or>
            statusCode = Some 429 then RATE_LIMIT
         else if has ''json'' \<or> has ''parse'' \<or> has ''invalid json'' \<or>
            has ''json_validate_failed'' then JSON
         else if has ''network'' \<or> has ''timeout'' \<or> has ''fetch'' \<or> has ''connection'' \<or>
            has ''aborted'' then NETWORK
         else if (case statusCode of Some c \<Rightarrow> 500 \<le> c \<and> c < 600 | None \<Rightarrow> False) then SERVER
         else if has ''parsing'' \<or> has ''invalid response'' \<or> has ''unexpected token''
           then PARSE
         else if has ''valid'' \<or> has ''validation'' \<or> has ''invalid'' then VALIDATION
         else SERVER)"

record ErrorPolicy =
  retryable :: bool
  maxRetries :: nat
  backoffMultiplier :: rat

fun getErrorPolicy :: "ErrorCategory \<Rightarrow> ErrorPolicy" where
  "getErrorPolicy MODEL = \<lparr>retryable = False, maxRetries = 0, backoffMultiplier = 1\<rparr>"
| "getErrorPolicy RATE_LIMIT = \<lparr>retryable = True, maxRetries = 2, backoffMultiplier = 2\<rparr>"
| "getErrorPolicy JSON = \<lparr>retryable = True, maxRetries = 1, backoffMultiplier = 1\<rparr>"
| "getErrorPolicy NETWORK = \<lparr>retryable = True, maxRetries = 3, backoffMultiplier = 2\<rparr>"
| "getErrorPolicy SERVER = \<lparr>retryable = True, maxRetries = 2, backoffMultiplier = 3 / 2\<rparr>"
| "getErrorPolicy PARSE = \<lparr>retryable = True, maxRetries = 1, backoffMultiplier = 1\<rparr>"
| "getErrorPolicy VALIDATION = \<lparr>retryable = False, maxRetries = 0, backoffMultiplier = 1\<rparr>"
| "getErrorPolicy CAPACITY = \<lparr>retryable = True, maxRetries = 2, backoffMultiplier = 3\<rparr>"
| "getErrorPolicy MODEL_CAPACITY = \<lparr>retryable = True, maxRetries = 1, backoffMultiplier = 5\<rparr>"

section \<open>Requests, responses and the plugin's state\<close>

text \<open>
  The body of a translation request: the words, the languages, the model, and of the
  settings the one flag that the failover client reads and changes.
\<close>

record request_body =
  rb_words :: "jsstring list"
  rb_sourceLang :: jsstring
  rb_targetLang :: jsstring
  rb_model :: jsstring
  rb_useJSONFormat :: bool

text \<open>
  A parsed response body, by the properties the client reads: \<open>error\<close> and
  \<open>errorCategory\<close> of an error envelope (\<open>None\<close> when absent), what
  \<open>JSON.stringify\<close> makes of the document, and \<open>success\<close> and the entries of
  \<open>translations\<close> of a success envelope (no entries when absent).
\<close>

record json_doc =
  jd_error :: "jsstring option"
  jd_errorCategory :: "jsstring option"
  jd_stringified :: jsstring
  jd_success :: bool
  jd_translations :: "(jsstring \<times> GroqTranslationResult) list"

text \<open>\<open>JSON.parse\<close> of the response text: a document, or a \<open>SyntaxError\<close> with its message.\<close>

datatype parse_result = SyntaxError jsstring | Parsed json_doc

record http_response =
  res_status :: nat
  res_text :: jsstring
  res_json :: parse_result

definition res_ok :: "http_response \<Rightarrow> bool" where
  "res_ok res \<longleftrightarrow> 200 \<le> res_status res \<and> res_status res \<le> 299"

text \<open>\<open>fetch\<close> rejects (a network failure) or resolves with a response.\<close>

datatype fetch_result = Rejected jserror | Response http_response

datatype quality = standard | professional | comprehensive | other_quality

record plugin_settings =
  requestsPerMinute :: int
  autoEndpointSwitch :: bool
  activeWorkerUrl :: jsstring
  backupWorkerUrls :: "jsstring list"
  remoteConfig :: "(jsstring \<times> jsstring list) option"
  useJSONFormat :: bool
  groqModel :: jsstring
  highLimitModels :: "jsstring list"
  batchSize :: int
  smartAutoMode :: bool
  enableAdaptiveBatching :: bool
  translationQuality :: quality
  enableRateLimiting :: bool
  maxNonModelFailures :: "int option"
  cacheTTLHours :: "int option"

text \<open>
  What the plugin does to the outside, in order: the requests it sends, the settings,
  partial results and cache it saves (the own properties of the store: what
  \<open>JSON.stringify\<close> writes), and the summary it logs when every endpoint has failed
  (the other log lines are left out).
\<close>

datatype event =
  Request jsstring request_body
| SaveSettings plugin_settings
| SavePartial "(jsstring \<times> GroqTranslationResult) list"
| SaveCacheStore "(jsstring \<times> cache_entry) list"
| EndpointsFailed "(jsstring \<times> jsstring \<times> ErrorCategory) list"

text \<open>
  The state of the plugin and of its batch manager. \<open>clockNow\<close> is \<open>Date.now()\<close>: it
  moves when the code waits and while a request is in flight. \<open>allResults\<close> is the
  result map of the run in progress (a local variable of \<open>processWordsInBatches\<close>);
  a \<open>Map\<close> is an association list in insertion order. \<open>rateLimiter\<close> is the list of
  timestamps of the limiter, \<open>networkBackoff\<close> the attempt count of the backoff.
\<close>

record manager =
  settings :: plugin_settings
  clockNow :: int
  pluginCacheStore :: cache_store
  failedWordsInCurrentOperation :: "jsstring list"
  summaryInProgress :: bool
  rateLimiter :: "int list"
  adaptiveBatchController :: "AdaptiveBatchController option"
  consecutiveNonModelFailures :: nat
  lastBackoffUntilTs :: int
  jsonErrorCount :: nat
  rateLimitErrorCount :: nat
  circuitBreaker :: CircuitBreaker
  networkBackoff :: nat
  allResults :: "(jsstring \<times> GroqTranslationResult) list"
  fetchCount :: nat
  trace :: "event list"

text \<open>
  What the code cannot decide: the answer to the \<open>n\<close>-th request of the session and
  the time it takes, which strings \<open>new URL\<close> accepts as https URLs, whether the user
  has asked to cancel by a given time, the platform, and the message that the engine
  gives the \<open>TypeError\<close> for reading a property of \<open>undefined\<close>.
\<close>

record environment =
  network :: "nat \<Rightarrow> jsstring \<Rightarrow> request_body \<Rightarrow> fetch_result"
  latency :: "nat \<Rightarrow> nat"
  isValidHttps :: "jsstring \<Rightarrow> bool"
  cancelRequestedAt :: "int \<Rightarrow> bool"
  isMobileEnv :: bool
  typeErrorMessage :: jsstring

section \<open>The failover client\<close>

text \<open>\<open>x || d\<close> for a string property that may be absent: an empty string is falsy.\<close>

definition orElse :: "jsstring option \<Rightarrow> jsstring \<Rightarrow> jsstring" where
  "orElse x d = (case x of None \<Rightarrow> d | Some s \<Rightarrow> if s = [] then d else s)"

text \<open>A number in a template string: its decimal digits.\<close>

fun showNat :: "nat \<Rightarrow> jsstring" where
  "showNat n = (if n < 10 then [48 + n] else showNat (n div 10) @ [48 + n mod 10])"

definition httpStatusText :: "http_response \<Rightarrow> jsstring" where
  "httpStatusText res = lit ''HTTP '' @ showNat (res_status res)"

definition modelNotAvailable :: "json_doc \<Rightarrow> jserror" where
  "modelNotAvailable errorData =
     Error (lit ''Model Not Available: '' @
            orElse (jd_error errorData) (lit ''The selected model is not accessible''))"

text \<open>The list without repetitions, the first occurrence of each string kept.\<close>

definition dedup :: "jsstring list \<Rightarrow> jsstring list" where
  "dedup us = fold (\<lambda>u urls. if u \<in> set urls then urls else urls @ [u]) us []"

definition saveSettings :: "manager \<Rightarrow> manager" where
  "saveSettings st = st\<lparr>trace := trace st @ [SaveSettings (settings st)]\<rparr>"

definition doRequest ::
  "environment \<Rightarrow> jsstring \<Rightarrow> request_body \<Rightarrow> manager \<Rightarrow> fetch_result \<times> manager" where
  "doRequest env url currentBody st =
     (network env (fetchCount st) url currentBody,
      st\<lparr>fetchCount := fetchCount st + 1,
         clockNow := clockNow st + int (latency env (fetchCount st)),
         trace := trace st @ [Request url currentBody]\<rparr>)"

definition updateEndpointConfig ::
  "environment \<Rightarrow> jsstring \<Rightarrow> nat \<Rightarrow> manager \<Rightarrow> manager" where
  "updateEndpointConfig env successfulUrl currentIndex st =
     (let prevActive = activeWorkerUrl (settings st);
          originalBackups =
            filter (\<lambda>u. u \<noteq> [] \<and> isValidHttps env u) (backupWorkerUrls (settings st));
          k = currentIndex - 1;
          rotated = filter (\<lambda>u. u \<noteq> [] \<and> u \<noteq> successfulUrl)
                      (drop (k + 1) originalBackups @ take k originalBackups @ [prevActive])
      in saveSettings (st\<lparr>settings := (settings st)
           \<lparr>activeWorkerUrl := successfulUrl, backupWorkerUrls := take 3 (dedup rotated)\<rparr>\<rparr>))"

text \<open>A parsed success document is returned, after the promotion of a backup endpoint.\<close>

definition returnData ::
  "environment \<Rightarrow> jsstring \<Rightarrow> nat \<Rightarrow> json_doc \<Rightarrow> manager \<Rightarrow> (jserror + json_doc) \<times> manager" where
  "returnData env url i d st =
     (Inr d, if i > 0 \<and> autoEndpointSwitch (settings st) then updateEndpointConfig env url i st
             else st)"

text \<open>
  The end of both in-place retries, which the source writes out twice. A retry that
  answers 2xx with a document that parses returns it (\<open>Inl\<close>). Otherwise the code goes
  on with \<open>res\<close> and \<open>errorData\<close>: unchanged if the request was rejected; the new
  response if it came; the new error document if it parsed (every exception in the retry
  is swallowed by its \<open>catch { }\<close>).
\<close>

definition retryOutcome ::
  "fetch_result \<Rightarrow> http_response \<Rightarrow> json_doc \<Rightarrow> json_doc + http_response \<times> json_doc" where
  "retryOutcome r res errorData =
     (case r of
        Rejected e \<Rightarrow> Inr (res, errorData)
      | Response res2 \<Rightarrow>
          (case res_json res2 of
             SyntaxError m \<Rightarrow> Inr (res2, errorData)
           | Parsed d \<Rightarrow> if res_ok res2 then Inl d else Inr (res2, d)))"

text \<open>The two throws that end the handling of a response that is not 2xx.\<close>

definition finalStage :: "http_response \<Rightarrow> json_doc \<Rightarrow> manager \<Rightarrow> (jserror + json_doc) \<times> manager" where
  "finalStage res errorData st =
     (if res_status res = 404 \<and> jd_errorCategory errorData = Some (categoryName MODEL)
      then (Inl (modelNotAvailable errorData), st)
      else (Inl (Error (httpStatusText res @ lit '': '' @
                        orElse (jd_error errorData) (res_text res))), st))"

text \<open>
  The wait of the rate-limit retry: the regular expression \<open>try again in\s+([\d.]+)s\<close>,
  case-insensitive, on the stringified error document, and \<open>parseFloat\<close> of its group.
  Without the flag \<open>u\<close> a letter of the pattern matches itself and its ASCII capital
  only.
\<close>

definition isDigitDot :: "nat \<Rightarrow> bool" where
  "isDigitDot c \<longleftrightarrow> (48 \<le> c \<and> c \<le> 57) \<or> c = 46"

definition matchTryAgainAt :: "jsstring \<Rightarrow> jsstring option" where
  "matchTryAgainAt s =
     (let n = length (lit ''try again in'');
          r = drop n s;
          r2 = dropWhile isWhiteSpace r;
          r3 = dropWhile isDigitDot r2
      in if map lowerUnit (take n s) = lit ''try again in'' \<and> takeWhile isWhiteSpace r \<noteq> [] \<and>
            takeWhile isDigitDot r2 \<noteq> [] \<and> r3 \<noteq> [] \<and> lowerUnit (hd r3) = 115
         then Some (takeWhile isDigitDot r2) else None)"

fun matchTryAgain :: "jsstring \<Rightarrow> jsstring option" where
  "matchTryAgain [] = None"
| "matchTryAgain (c # s) =
     (case matchTryAgainAt (c # s) of Some g \<Rightarrow> Some g | None \<Rightarrow> matchTryAgain s)"

definition digitsValue :: "jsstring \<Rightarrow> nat" where
  "digitsValue ds = foldl (\<lambda>v c. 10 * v + (c - 48)) 0 ds"

text \<open>\<open>parseFloat\<close> on digits and dots: \<open>None\<close> is \<open>NaN\<close>.\<close>

definition parseFloat :: "jsstring \<Rightarrow> rat option" where
  "parseFloat g =
     (let ip = takeWhile (\<lambda>c. c \<noteq> 46) g;
          fp = takeWhile (\<lambda>c. c \<noteq> 46) (drop 1 (dropWhile (\<lambda>c. c \<noteq> 46) g))
      in if ip = [] \<and> fp = [] then None
         else Some (of_nat (digitsValue ip) + of_nat (digitsValue fp) / 10 ^ length fp))"

definition rateLimitWaitMs :: "json_doc \<Rightarrow> int" where
  "rateLimitWaitMs errorData =
     (case matchTryAgain (jd_stringified errorData) of
        None \<Rightarrow> 2000
      | Some g \<Rightarrow>
          (case parseFloat g of
             None \<Rightarrow> 2000
           | Some sec \<Rightarrow> max 500 (min 10000 (floor (sec * 1000 + 1 / 2)))))"

text \<open>
  The handling of HTTP 429. The counter is compared with 1 right after it has been
  incremented; what follows the comparison is the retry as the source has it.
\<close>

definition rateLimitStage ::
  "environment \<Rightarrow> jsstring \<Rightarrow> nat \<Rightarrow> request_body \<Rightarrow> http_response \<Rightarrow> json_doc \<Rightarrow> manager
     \<Rightarrow> (jserror + json_doc) \<times> manager" where
  "rateLimitStage env url i currentBody res errorData st =
     (if res_status res = 429 then
        (let st1 = st\<lparr>rateLimitErrorCount := rateLimitErrorCount st + 1\<rparr>
         in if rateLimitErrorCount st1 \<ge> 1 then (Inl (Error (lit ''RATE_LIMIT_THRESHOLD'')), st1)
            else
              (let waitMs = rateLimitWaitMs errorData;
                   oldRpm = requestsPerMinute (settings st1);
                   newRpm = max 1 (oldRpm * 8 div 10);
                   st2 = (if newRpm < oldRpm
                          then saveSettings
                                 (st1\<lparr>settings := (settings st1)\<lparr>requestsPerMinute := newRpm\<rparr>\<rparr>)
                          else st1);
                   st3 = st2\<lparr>clockNow := delay waitMs (clockNow st2)\<rparr>;
                   (r, st4) = doRequest env url currentBody st3
               in case retryOutcome r res errorData of
                    Inl d \<Rightarrow> returnData env url i d st4
                  | Inr (res', errorData') \<Rightarrow> finalStage res' errorData' st4))
      else finalStage res errorData st)"

text \<open>The handling of HTTP 400 with the structured category \<open>json\<close>.\<close>

definition jsonStage ::
  "environment \<Rightarrow> jsstring \<Rightarrow> nat \<Rightarrow> request_body \<Rightarrow> http_response \<Rightarrow> json_doc \<Rightarrow> manager
     \<Rightarrow> (jserror + json_doc) \<times> manager" where
  "jsonStage env url i currentBody res errorData st =
     (if res_status res = 400 \<and> jd_errorCategory errorData = Some (categoryName JSON) then
        (let st1 = st\<lparr>jsonErrorCount := jsonErrorCount st + 1\<rparr>
         in if jsonErrorCount st1 \<ge> 2 then (Inl (Error (lit ''JSON_THRESHOLD'')), st1)
            else if rb_useJSONFormat currentBody then
              (let currentBody' = currentBody\<lparr>rb_useJSONFormat := False\<rparr>;
                   (r, st2) = doRequest env url currentBody' st1
               in case retryOutcome r res errorData of
                    Inl d \<Rightarrow> returnData env url i d st2
                  | Inr (res', errorData') \<Rightarrow>
                      rateLimitStage env url i currentBody' res' errorData' st2)
            else rateLimitStage env url i currentBody res errorData st1)
      else rateLimitStage env url i currentBody res errorData st)"

text \<open>The \<open>try\<close> block of one endpoint.\<close>

definition tryEndpoint ::
  "environment \<Rightarrow> jsstring \<Rightarrow> nat \<Rightarrow> request_body \<Rightarrow> manager \<Rightarrow> (jserror + json_doc) \<times> manager" where
  "tryEndpoint env url i body st =
     (let (r, st1) = doRequest env url body st
      in case r of
           Rejected e \<Rightarrow> (Inl e, st1)
         | Response res \<Rightarrow>
             if res_ok res then
               (case res_json res of
                  SyntaxError m \<Rightarrow> (Inl (Error m), st1)
                | Parsed d \<Rightarrow> returnData env url i d st1)
             else
               (case res_json res of
                  SyntaxError m \<Rightarrow>
                    (Inl (Error (httpStatusText res @ lit '': '' @ res_text res)), st1)
                | Parsed errorData \<Rightarrow>
                    (let error = \<lparr>message = orElse (jd_error errorData) (httpStatusText res),
                                  status = Some (res_status res)\<rparr>;
                         errorCategory = categorizeError error
                     in if errorCategory = CAPACITY \<or> errorCategory = MODEL_CAPACITY then
                          (Inl (Error (orElse (jd_error errorData)
                                         (httpStatusText res @ lit '': '' @ res_text res))), st1)
                        else if jd_errorCategory errorData = Some (categoryName MODEL) then
                          (Inl (modelNotAvailable errorData), st1)
                        else jsonStage env url i body res errorData st1)))"

text \<open>\<open>e?.message || String(e)\<close>.\<close>

definition messageOf :: "jserror \<Rightarrow> jsstring" where
  "messageOf e = (if message e = [] then lit ''Error'' else message e)"

text \<open>
  The loop over the endpoints with its \<open>catch\<close>: \<open>i\<close> is the index of the endpoint
  \<open>url\<close>, \<open>errors\<close> the failures recorded so far. After the last endpoint the summary
  is logged and the error thrown is \<open>All worker endpoints failed\<close>.
\<close>

fun failoverLoop ::
  "environment \<Rightarrow> request_body \<Rightarrow> nat \<Rightarrow> jsstring list
     \<Rightarrow> (jsstring \<times> jsstring \<times> ErrorCategory) list \<Rightarrow> manager
     \<Rightarrow> (jserror + json_doc) \<times> manager" where
  "failoverLoop env body i [] errors st =
     (Inl (Error (lit ''All worker endpoints failed'')),
      st\<lparr>trace := trace st @ [EndpointsFailed errors]\<rparr>)"
| "failoverLoop env body i (url # urls) errors st =
     (case tryEndpoint env url i body st of
        (Inr d, st1) \<Rightarrow> (Inr d, st1)
      | (Inl e, st1) \<Rightarrow>
          (let msg = messageOf e;
               category = categorizeError e
           in if category = MODEL \<or> category = CAPACITY \<or> category = MODEL_CAPACITY \<or>
                 js_includes msg (lit ''RATE_LIMIT_THRESHOLD'') \<or>
                 js_includes msg (lit ''JSON_THRESHOLD'')
              then (Inl e, st1)
              else failoverLoop env body (i + 1) urls (errors @ [(url, msg, category)]) st1))"

definition endpointUrls :: "environment \<Rightarrow> jsstring \<times> jsstring list \<Rightarrow> jsstring list" where
  "endpointUrls env endpoints =
     dedup (filter (\<lambda>u. u \<noteq> [] \<and> isValidHttps env u) (fst endpoints # snd endpoints))"

definition postToWorkerWithFailover ::
  "environment \<Rightarrow> request_body \<Rightarrow> manager \<Rightarrow> (jserror + json_doc) \<times> manager" where
  "postToWorkerWithFailover env body st =
     (case remoteConfig (settings st) of
        None \<Rightarrow> (Inl (Error (lit ''Remote configuration not loaded'')), st)
      | Some endpoints \<Rightarrow> failoverLoop env body 0 (endpointUrls env endpoints) [] st)"

section \<open>The batch orchestrator\<close>

text \<open>
  \<open>isValidTranslation\<close>: each rejection of the source is one conjunct here. The
  characters that the definition is stripped of are white space and
  \<open>. , ; : ! ? - ( )\<close>; 1548 is the Arabic comma.
\<close>

definition isDefinitionSymbol :: "nat \<Rightarrow> bool" where
  "isDefinitionSymbol c \<longleftrightarrow> isWhiteSpace c \<or> c \<in> set [46, 44, 59, 58, 33, 63, 45, 40, 41]"

definition isValidTranslation :: "GroqTranslationResult \<Rightarrow> bool" where
  "isValidTranslation result \<longleftrightarrow>
     (case tr_translation result of None \<Rightarrow> False
      | Some t \<Rightarrow> t \<noteq> [] \<and> \<not> length (trim t) < 1) \<and>
     (case tr_definition result of None \<Rightarrow> False
      | Some d \<Rightarrow> d \<noteq> [] \<and> \<not> length (trim d) < 10 \<and>
          \<not> length (filter (\<lambda>c. \<not> isDefinitionSymbol c) d) < 5 \<and>
          \<not> (js_includes d [1548, 32, 46] \<or> js_includes d (lit '', .'') \<or>
             trim d = lit '','' \<or> trim d = [1548])) \<and>
     (case tr_exampleSource result of None \<Rightarrow> False
      | Some s \<Rightarrow> s \<noteq> [] \<and> \<not> length (trim s) < 3) \<and>
     (case tr_exampleTarget result of None \<Rightarrow> False
      | Some s \<Rightarrow> s \<noteq> [] \<and> \<not> length (trim s) < 3)"

text \<open>\<open>Map.prototype.set\<close>, and a \<open>Map\<close> built from a list of entries.\<close>

definition mapSet ::
  "jsstring \<Rightarrow> GroqTranslationResult \<Rightarrow> (jsstring \<times> GroqTranslationResult) list
     \<Rightarrow> (jsstring \<times> GroqTranslationResult) list" where
  "mapSet w r m = AList.update w r m"

definition mapOfEntries ::
  "(jsstring \<times> GroqTranslationResult) list \<Rightarrow> (jsstring \<times> GroqTranslationResult) list" where
  "mapOfEntries entries = fold (\<lambda>(w, r) m. mapSet w r m) entries []"

text \<open>
  The loop that \<open>processWordsInBatches\<close> and \<open>processSingleBatchWithRetry\<close> both start
  with: every word is looked up in the cache; a valid hit goes into the result map,
  every other word into the list of uncached words. The lookups of one loop run without
  an \<open>await\<close> between them and read the same clock. A lookup that throws ends the loop:
  the first component is the error then, with the map and the list as they are.
\<close>

definition typeError :: "environment \<Rightarrow> jserror" where
  "typeError env = Error (typeErrorMessage env)"

fun splitCached ::
  "environment \<Rightarrow> jsstring list \<Rightarrow> (jsstring \<times> GroqTranslationResult) list \<Rightarrow> jsstring list
     \<Rightarrow> manager
     \<Rightarrow> jserror option \<times> (jsstring \<times> GroqTranslationResult) list \<times> jsstring list \<times> manager" where
  "splitCached env [] results uncached st = (None, results, uncached, st)"
| "splitCached env (w # ws) results uncached st =
     (case getCachedResult (cacheTTLHours (settings st)) (clockNow st) (pluginCacheStore st) w of
        Throws \<Rightarrow> (Some (typeError env), results, uncached, st)
      | Returns (cached, store) \<Rightarrow>
          (let st1 = st\<lparr>pluginCacheStore := store\<rparr>
           in case cached of
                None \<Rightarrow> splitCached env ws results (uncached @ [w]) st1
              | Some c \<Rightarrow>
                  if isValidTranslation c then splitCached env ws (mapSet w c results) uncached st1
                  else splitCached env ws results (uncached @ [w]) st1))"

definition getMaxRequestsPerMinute :: "plugin_settings \<Rightarrow> int" where
  "getMaxRequestsPerMinute s = (if groqModel s \<in> set (highLimitModels s) then 60 else 30)"

text \<open>The ceiling that the manager's constructor gives its rate limiter.\<close>

definition getMaxRequests :: "manager \<Rightarrow> int" where
  "getMaxRequests st =
     max 1 (min (requestsPerMinute (settings st)) (getMaxRequestsPerMinute (settings st)))"

text \<open>
  \<open>rateLimiter.acquireSlot()\<close> on the manager's state. The ceiling is at least one, so
  \<open>acquireSlot\<close> returns (lemma \<open>acquireSlot_total\<close> below) and the second case is never
  taken.
\<close>

definition awaitSlot :: "manager \<Rightarrow> manager" where
  "awaitSlot st =
     (case acquireSlot (getMaxRequests st) (clockNow st) (rateLimiter st) of
        Some (now', requests') \<Rightarrow> st\<lparr>clockNow := now', rateLimiter := requests'\<rparr>
      | None \<Rightarrow> st)"

definition getSmartBatchSize :: "plugin_settings \<Rightarrow> int" where
  "getSmartBatchSize s =
     (case translationQuality s of
        comprehensive \<Rightarrow> 3 | professional \<Rightarrow> 5 | standard \<Rightarrow> 8 | other_quality \<Rightarrow> 6)"

text \<open>\<open>Array.prototype.slice\<close> with its treatment of negative and large indices.\<close>

definition sliceIndex :: "nat \<Rightarrow> int \<Rightarrow> nat" where
  "sliceIndex n k = (if k < 0 then nat (max (int n + k) 0) else min (nat k) n)"

definition slice :: "'a list \<Rightarrow> int \<Rightarrow> int \<Rightarrow> 'a list" where
  "slice xs a b =
     take (sliceIndex (length xs) b - sliceIndex (length xs) a)
          (drop (sliceIndex (length xs) a) xs)"

text \<open>
  The loop of \<open>createOptimizedBatches\<close>. With a batch size below one it does not end:
  the result is \<open>None\<close> then.
\<close>

partial_function (option) batchesFrom ::
  "int \<Rightarrow> jsstring list \<Rightarrow> int \<Rightarrow> jsstring list list \<Rightarrow> jsstring list list option" where
  "batchesFrom bsize words i batches =
     (if i < int (length words)
      then batchesFrom bsize words (i + bsize) (batches @ [slice words i (i + bsize)])
      else Some batches)"

declare batchesFrom.simps [code]

definition createOptimizedBatches :: "manager \<Rightarrow> jsstring list \<Rightarrow> jsstring list list option" where
  "createOptimizedBatches st words =
     batchesFrom
       (case adaptiveBatchController st of
          Some c \<Rightarrow> getBatchSize c
        | None \<Rightarrow> batchSize (settings st))
       words 0 []"

definition score :: "jsstring \<Rightarrow> nat" where
  "score w = (if \<exists>c \<in> set w. c > 127 then 1 else 0) * 1000 + min 100 (length w)"

text \<open>\<open>sort\<close> by descending score; the sort of JavaScript is stable, as \<open>sort_key\<close> is.\<close>

definition prioritizeWords :: "jsstring list \<Rightarrow> jsstring list" where
  "prioritizeWords words = sort_key (\<lambda>w. - int (score w)) words"

definition callCloudflareWorkerDirect ::
  "environment \<Rightarrow> jsstring list \<Rightarrow> jsstring \<Rightarrow> jsstring \<Rightarrow> manager
     \<Rightarrow> (jserror + (jsstring \<times> GroqTranslationResult) list) \<times> manager" where
  "callCloudflareWorkerDirect env words sourceLang targetLang st =
     (let requestBody =
            \<lparr>rb_words = words, rb_sourceLang = sourceLang, rb_targetLang = targetLang,
             rb_model = groqModel (settings st),
             rb_useJSONFormat = useJSONFormat (settings st)\<rparr>
      in case postToWorkerWithFailover env requestBody st of
           (Inl e, st1) \<Rightarrow> (Inl e, st1)
         | (Inr d, st1) \<Rightarrow>
             (let results = (if jd_success d then mapOfEntries (jd_translations d) else [])
              in if results = []
                 then (Inl (Error (lit ''No translations returned from Cloudflare Worker'')), st1)
                 else (Inr results, st1)))"

definition cacheValid :: "(jsstring \<times> GroqTranslationResult) list \<Rightarrow> manager \<Rightarrow> manager" where
  "cacheValid newResults st =
     fold (\<lambda>(word, result) s.
             if isValidTranslation result
             then s\<lparr>pluginCacheStore :=
                     setCachedResult (clockNow s) (pluginCacheStore s) word result\<rparr>
             else s)
          newResults st"

definition processSingleBatchWithRetry ::
  "environment \<Rightarrow> jsstring list \<Rightarrow> jsstring \<Rightarrow> jsstring \<Rightarrow> manager
     \<Rightarrow> (jserror + (jsstring \<times> GroqTranslationResult) list) \<times> manager" where
  "processSingleBatchWithRetry env batch sourceLang targetLang st =
     (case splitCached env batch [] [] st of
        (Some e, cachedResults, uncachedWords, st1) \<Rightarrow> (Inl e, st1)
      | (None, cachedResults, uncachedWords, st1) \<Rightarrow>
          if uncachedWords = [] then (Inr cachedResults, st1)
          else
            (case callCloudflareWorkerDirect env uncachedWords sourceLang targetLang st1 of
               (Inl e, st2) \<Rightarrow> (Inl e, st2)
             | (Inr newResults, st2) \<Rightarrow>
                 (Inr (mapOfEntries (cachedResults @ newResults)), cacheValid newResults st2)))"

definition savePartialResultsToTable :: "manager \<Rightarrow> manager" where
  "savePartialResultsToTable st = st\<lparr>trace := trace st @ [SavePartial (allResults st)]\<rparr>"

definition saveCacheStore :: "manager \<Rightarrow> manager" where
  "saveCacheStore st = st\<lparr>trace := trace st @ [SaveCacheStore (own (pluginCacheStore st))]\<rparr>"

definition mergeResults :: "(jsstring \<times> GroqTranslationResult) list \<Rightarrow> manager \<Rightarrow> manager" where
  "mergeResults batchResults st =
     fold (\<lambda>(word, result) s.
             s\<lparr>allResults := mapSet word result (allResults s),
               pluginCacheStore := setCachedResult (clockNow s) (pluginCacheStore s) word result\<rparr>)
          batchResults st"

text \<open>
  The operation that the circuit breaker runs for one batch; \<open>notLast\<close> says that the
  batch is not the last one. A failed save is caught and logged in the source, so the
  save is the event alone.
\<close>

definition runBatch ::
  "environment \<Rightarrow> jsstring list \<Rightarrow> bool \<Rightarrow> jsstring \<Rightarrow> jsstring \<Rightarrow> manager
     \<Rightarrow> (jserror + unit) \<times> manager" where
  "runBatch env batch notLast sourceLang targetLang st =
     (let st1 = (if lastBackoffUntilTs st > clockNow st
                 then st\<lparr>clockNow := delay (lastBackoffUntilTs st - clockNow st) (clockNow st)\<rparr>
                 else st)
      in if cancelRequestedAt env (clockNow st1)
         then (Inl (Error (lit ''OPERATION_CANCELLED'')), st1)
         else
           (let st2 = (if enableRateLimiting (settings st1) then awaitSlot st1 else st1)
            in case processSingleBatchWithRetry env batch sourceLang targetLang st2 of
                 (Inl e, st3) \<Rightarrow> (Inl e, st3)
               | (Inr batchResults, st3) \<Rightarrow>
                   (let st4 = (mergeResults batchResults st3)\<lparr>consecutiveNonModelFailures := 0\<rparr>;
                        st5 = saveCacheStore (savePartialResultsToTable st4)
                    in (Inr (),
                        if notLast
                        then st5\<lparr>clockNow :=
                                   delay (if isMobileEnv env then 3000 else 2000) (clockNow st5)\<rparr>
                        else st5))))"

text \<open>
  \<open>completeOperation\<close> followed by \<open>throw error\<close>: the summary manager itself throws when
  no operation is in progress.
\<close>

datatype verdict = Abort jserror | NextBatch | RetryBatch

definition completeAndThrow :: "jserror \<Rightarrow> manager \<Rightarrow> verdict \<times> manager" where
  "completeAndThrow error st =
     (if summaryInProgress st then (Abort error, st\<lparr>summaryInProgress := False\<rparr>)
      else (Abort (Error (lit ''No operation in progress'')), st))"

text \<open>The tests that the \<open>catch\<close> block of the batch loop makes on the error message.\<close>

definition isThresholdAbort :: "jsstring \<Rightarrow> bool" where
  "isThresholdAbort msg \<longleftrightarrow>
     js_includes msg (lit ''JSON_THRESHOLD'') \<or> js_includes msg (lit ''RATE_LIMIT_THRESHOLD'')"

definition isMixedScriptError :: "jsstring \<Rightarrow> bool" where
  "isMixedScriptError msg \<longleftrightarrow>
     js_includes msg (lit ''mixed-script validation'') \<or>
     (js_includes msg (lit ''All worker endpoints failed'') \<and>
      js_includes msg (lit ''mixed-script validation''))"

definition isOperationWideFailure :: "ErrorCategory \<Rightarrow> jsstring \<Rightarrow> bool" where
  "isOperationWideFailure errorCategory msg \<longleftrightarrow>
     errorCategory = SERVER \<or> js_includes msg (lit ''Circuit breaker'') \<or>
     (js_includes msg (lit ''All worker endpoints failed'') \<and> \<not> isMixedScriptError msg)"

text \<open>
  The retry of a batch in place: the category's retry counter goes up, the network
  backoff or the rate-limit wait is taken. \<open>counts\<close> is \<open>errorRetryCounts\<close>, a member
  that only the \<open>catch\<close> block writes. \<open>networkBackoff.wait()\<close> throws after five
  attempts, out of the \<open>catch\<close> block and so out of the run.
\<close>

definition retryBatch ::
  "ErrorCategory \<Rightarrow> (ErrorCategory \<Rightarrow> nat) \<Rightarrow> manager
     \<Rightarrow> verdict \<times> (ErrorCategory \<Rightarrow> nat) \<times> manager" where
  "retryBatch errorCategory counts st =
     (let counts1 = counts(errorCategory := counts errorCategory + 1)
      in if errorCategory = NETWORK then
           (if networkBackoff st \<ge> 5
            then (Abort (Error (lit ''Maximum backoff attempts reached'')), counts1, st)
            else (RetryBatch, counts1,
                  st\<lparr>networkBackoff := networkBackoff st + 1,
                     clockNow := delay (min (1000 * 2 ^ networkBackoff st) 30000)
                                   (clockNow st)\<rparr>))
         else if errorCategory = RATE_LIMIT then
           (let backoffMs = floor (5000 * backoffMultiplier (getErrorPolicy errorCategory))
            in (RetryBatch, counts1,
                st\<lparr>lastBackoffUntilTs := max (lastBackoffUntilTs st) (clockNow st + backoffMs),
                   clockNow := delay backoffMs (clockNow st)\<rparr>))
         else (RetryBatch, counts1, st))"

text \<open>
  A failure that is not retried: the adaptive controller shrinks, the failure counts
  against the cap, and at the cap the run is aborted.
\<close>

definition skipBatch ::
  "(ErrorCategory \<Rightarrow> nat) \<Rightarrow> manager \<Rightarrow> verdict \<times> (ErrorCategory \<Rightarrow> nat) \<times> manager" where
  "skipBatch counts st =
     (let st1 = (case adaptiveBatchController st of
                   None \<Rightarrow> st
                 | Some c \<Rightarrow> st\<lparr>adaptiveBatchController := Some (onFailure c)\<rparr>);
          cap = max 1 (case maxNonModelFailures (settings st1) of None \<Rightarrow> 3 | Some m \<Rightarrow> m);
          st2 = st1\<lparr>consecutiveNonModelFailures := consecutiveNonModelFailures st1 + 1\<rparr>
      in if int (consecutiveNonModelFailures st2) \<ge> cap
         then (case completeAndThrow (Error (lit ''Non-model failure limit reached'')) st2
               of (v, st3) \<Rightarrow> (v, counts, st3))
         else (NextBatch, counts, st2))"

text \<open>
  The \<open>catch\<close> block of the batch loop. It saves the partial results first, then
  decides: abort the run, go on with the next batch, or run the same batch again. The
  three aborts (model error, threshold, operation-wide failure) differ in the reason
  they log and record, and all end in \<open>throw error\<close>.
\<close>

definition handleFailure ::
  "jsstring list \<Rightarrow> jserror \<Rightarrow> (ErrorCategory \<Rightarrow> nat) \<Rightarrow> manager
     \<Rightarrow> verdict \<times> (ErrorCategory \<Rightarrow> nat) \<times> manager" where
  "handleFailure batch error counts st0 =
     (let errorCategory = categorizeError error;
          st = (if allResults st0 \<noteq> [] then savePartialResultsToTable st0 else st0);
          msg = message error
      in if isMixedScriptError msg then
           (NextBatch, counts,
            st\<lparr>failedWordsInCurrentOperation :=
                 failedWordsInCurrentOperation st @ map toLowerCase batch\<rparr>)
         else if errorCategory = MODEL \<or> isThresholdAbort msg \<or>
                 isOperationWideFailure errorCategory msg then
           (case completeAndThrow error st of (v, st1) \<Rightarrow> (v, counts, st1))
         else if retryable (getErrorPolicy errorCategory) \<and>
                 counts errorCategory < maxRetries (getErrorPolicy errorCategory) then
           retryBatch errorCategory counts st
         else skipBatch counts st)"

text \<open>What is left of the retry budgets of all categories.\<close>

definition allCategories :: "ErrorCategory list" where
  "allCategories =
     [MODEL, JSON, RATE_LIMIT, NETWORK, SERVER, PARSE, VALIDATION, CAPACITY, MODEL_CAPACITY]"

definition budget :: "(ErrorCategory \<Rightarrow> nat) \<Rightarrow> nat" where
  "budget counts = sum_list (map (\<lambda>c. maxRetries (getErrorPolicy c) - counts c) allCategories)"

lemma sum_list_pointwise_less:
  assumes "c \<in> set xs" "distinct xs" "f' c < f c" "\<And>x. x \<noteq> c \<Longrightarrow> f' x = f x"
  shows "sum_list (map f' xs) < (sum_list (map f xs) :: nat)"
  using assms(1,2)
proof (induction xs)
  case Nil
  then show ?case by simp
next
  case (Cons x xs)
  show ?case
  proof (cases "x = c")
    case True
    with Cons.prems have "c \<notin> set xs" by simp
    then have "\<forall>y \<in> set xs. f' y = f y" using assms(4) by metis
    then have "sum_list (map f' xs) = sum_list (map f xs)" by (metis map_eq_conv)
    with True assms(3) show ?thesis by simp
  next
    case False
    with Cons have "sum_list (map f' xs) < sum_list (map f xs)" by simp
    with False assms(4)[of x] show ?thesis by simp
  qed
qed

lemma budget_decreases:
  assumes "n < maxRetries (getErrorPolicy c)" "counts c = n"
  shows "budget (counts(c := n + 1)) < budget counts"
  unfolding budget_def
proof (rule sum_list_pointwise_less[where c = c])
  show "c \<in> set allCategories" by (cases c) (simp_all add: allCategories_def)
  show "distinct allCategories" by (simp add: allCategories_def)
  show "maxRetries (getErrorPolicy c) - (counts(c := n + 1)) c <
        maxRetries (getErrorPolicy c) - counts c"
    using assms by simp
  show "\<And>x. x \<noteq> c \<Longrightarrow>
      maxRetries (getErrorPolicy x) - (counts(c := n + 1)) x =
      maxRetries (getErrorPolicy x) - counts x"
    by simp
qed

lemma completeAndThrow_aborts: "fst (completeAndThrow e st) \<noteq> RetryBatch"
  by (simp add: completeAndThrow_def)

lemma skipBatch_no_retry: "fst (skipBatch counts st) \<noteq> RetryBatch"
  by (simp add: skipBatch_def Let_def completeAndThrow_def split: prod.splits)

lemma retryBatch_counts: "fst (snd (retryBatch c counts st)) = counts(c := counts c + 1)"
  by (simp add: retryBatch_def Let_def)

lemma handleFailure_retry:
  assumes "handleFailure batch error counts st = (RetryBatch, counts', st')"
  shows "budget counts' < budget counts"
proof -
  define c where "c = categorizeError error"
  define st1 where "st1 = (if allResults st \<noteq> [] then savePartialResultsToTable st else st)"
  consider (mixed) "isMixedScriptError (message error)"
    | (abort) "\<not> isMixedScriptError (message error)"
        "c = MODEL \<or> isThresholdAbort (message error) \<or> isOperationWideFailure c (message error)"
    | (retry) "\<not> isMixedScriptError (message error)"
        "\<not> (c = MODEL \<or> isThresholdAbort (message error) \<or>
            isOperationWideFailure c (message error))"
        "retryable (getErrorPolicy c) \<and> counts c < maxRetries (getErrorPolicy c)"
    | (skip) "\<not> isMixedScriptError (message error)"
        "\<not> (c = MODEL \<or> isThresholdAbort (message error) \<or>
            isOperationWideFailure c (message error))"
        "\<not> (retryable (getErrorPolicy c) \<and> counts c < maxRetries (getErrorPolicy c))"
    by blast
  then show ?thesis
  proof cases
    case mixed
    then have "fst (handleFailure batch error counts st) = NextBatch"
      by (simp add: handleFailure_def Let_def)
    with assms show ?thesis by simp
  next
    case abort
    then have "fst (handleFailure batch error counts st) = fst (completeAndThrow error st1)"
      unfolding handleFailure_def Let_def c_def st1_def by (simp split: prod.splits)
    with assms completeAndThrow_aborts[of error st1] show ?thesis by simp
  next
    case retry
    then have "handleFailure batch error counts st = retryBatch c counts st1"
      unfolding handleFailure_def Let_def c_def st1_def by simp
    with assms retryBatch_counts[of c counts st1] have "counts' = counts(c := counts c + 1)"
      by simp
    with retry(3) show ?thesis using budget_decreases[of "counts c" c counts] by simp
  next
    case skip
    then have "handleFailure batch error counts st = skipBatch counts st1"
      unfolding handleFailure_def Let_def c_def st1_def by auto
    with assms skipBatch_no_retry[of counts st1] show ?thesis by simp
  qed
qed

text \<open>
  The loop over the batches. A retry (\<open>i--; continue\<close>) runs the same batch again; it
  uses up one unit of the retry budget, so the loop ends.
\<close>

function batchLoop ::
  "environment \<Rightarrow> jsstring \<Rightarrow> jsstring \<Rightarrow> jsstring list list \<Rightarrow> (ErrorCategory \<Rightarrow> nat)
     \<Rightarrow> manager \<Rightarrow> (jserror + unit) \<times> manager" where
  "batchLoop env sourceLang targetLang [] counts st = (Inr (), st)"
| "batchLoop env sourceLang targetLang (batch # rest) counts st =
     (case CircuitBreaker_execute clockNow
             (runBatch env batch (rest \<noteq> []) sourceLang targetLang) (circuitBreaker st, st) of
        (Inr u, cb, st1) \<Rightarrow>
          batchLoop env sourceLang targetLang rest counts (st1\<lparr>circuitBreaker := cb\<rparr>)
      | (Inl error, cb, st1) \<Rightarrow>
          (case handleFailure batch error counts (st1\<lparr>circuitBreaker := cb\<rparr>) of
             (Abort e, counts1, st2) \<Rightarrow> (Inl e, st2)
           | (NextBatch, counts1, st2) \<Rightarrow> batchLoop env sourceLang targetLang rest counts1 st2
           | (RetryBatch, counts1, st2) \<Rightarrow>
               batchLoop env sourceLang targetLang (batch # rest) counts1 st2))"
  by pat_completeness auto
termination
proof (relation "inv_image (less_than <*lex*> less_than)
    (\<lambda>(env, sourceLang, targetLang, batches, counts, st). (length batches, budget counts))")
  show "wf (inv_image (less_than <*lex*> less_than)
    (\<lambda>(env, sourceLang, targetLang, batches, counts, st). (length batches, budget counts)))"
    by (intro wf_inv_image wf_lex_prod wf_less_than)
qed (auto dest: handleFailure_retry[OF sym])

text \<open>
  \<open>processWordsInBatches\<close>: \<open>None\<close> when the run never returns (a batch size
  below one), else the error thrown or the result map, with the state it leaves. The
  look-ups at the start are outside every \<open>try\<close>: one that throws ends the run before
  the first batch.
\<close>

definition startRun :: "manager \<Rightarrow> manager" where
  "startRun st =
     (let st1 = st\<lparr>allResults := [], jsonErrorCount := 0, rateLimitErrorCount := 0,
                   networkBackoff := 0\<rparr>
      in if smartAutoMode (settings st1) \<and> enableAdaptiveBatching (settings st1)
         then st1\<lparr>adaptiveBatchController :=
                    Some (new_AdaptiveBatchController (getSmartBatchSize (settings st1)) 20)\<rparr>
         else st1)"

definition processWordsInBatches ::
  "environment \<Rightarrow> jsstring list \<Rightarrow> jsstring \<Rightarrow> jsstring \<Rightarrow> manager
     \<Rightarrow> ((jserror + (jsstring \<times> GroqTranslationResult) list) \<times> manager) option" where
  "processWordsInBatches env words sourceLang targetLang st0 =
     (case splitCached env words [] [] (startRun st0) of
        (Some e, results, uncached, st1) \<Rightarrow> Some (Inl e, st1\<lparr>allResults := results\<rparr>)
      | (None, results, uncached, st1) \<Rightarrow>
          (let st2 = st1\<lparr>allResults := results\<rparr>
           in case createOptimizedBatches st2 (prioritizeWords uncached) of
                None \<Rightarrow> None
              | Some batches \<Rightarrow>
                  (case batchLoop env sourceLang targetLang batches (\<lambda>c. 0) st2 of
                     (Inl e, st3) \<Rightarrow> Some (Inl e, st3)
                   | (Inr u, st3) \<Rightarrow>
                       (let st4 = (if allResults st3 \<noteq> [] then savePartialResultsToTable st3
                                   else st3);
                            st5 = saveCacheStore st4
                        in Some (Inr (allResults st5), st5)))))"

section \<open>What a run sends and saves\<close>

text \<open>
  The predicates of this section say what a stretch of a run does to the outside, in
  terms of the trace. \<open>sends S e\<close>: the event \<open>e\<close> is not a save of partial results
  and, if it is a request, it asks for words of \<open>S\<close> only. \<open>onlySends S st st'\<close>: from
  \<open>st\<close> to \<open>st'\<close> the trace has grown by such events and the result map is the same.
\<close>

fun sends :: "jsstring set \<Rightarrow> event \<Rightarrow> bool" where
  "sends S (Request url body) \<longleftrightarrow> set (rb_words body) \<subseteq> S"
| "sends S (SaveSettings s) \<longleftrightarrow> True"
| "sends S (SavePartial m) \<longleftrightarrow> False"
| "sends S (SaveCacheStore c) \<longleftrightarrow> True"
| "sends S (EndpointsFailed errors) \<longleftrightarrow> True"

definition onlySends :: "jsstring set \<Rightarrow> manager \<Rightarrow> manager \<Rightarrow> bool" where
  "onlySends S st st' \<longleftrightarrow>
     (\<exists>evs. trace st' = trace st @ evs \<and> list_all (sends S) evs) \<and>
     allResults st' = allResults st"

text \<open>
  An assumption on the worker: a response carries translations for words of the request
  it answers only. \<open>answerTo env ws d\<close>: the document \<open>d\<close> is the body of a response
  of the worker to a request for the words \<open>ws\<close>.
\<close>

definition answersAskedWords :: "environment \<Rightarrow> bool" where
  "answersAskedWords env \<longleftrightarrow>
     (\<forall>n url body res d.
        network env n url body = Response res \<and> res_json res = Parsed d \<longrightarrow>
        fst ` set (jd_translations d) \<subseteq> set (rb_words body))"

definition answerTo :: "environment \<Rightarrow> jsstring list \<Rightarrow> json_doc \<Rightarrow> bool" where
  "answerTo env ws d \<longleftrightarrow>
     (\<exists>n url body res. network env n url body = Response res \<and> res_json res = Parsed d \<and>
        rb_words body = ws)"

text \<open>
  \<open>covers S K e\<close>: a request asks for words of \<open>S\<close> only, and a save of partial
  results has its keys in \<open>K\<close>. \<open>batchStep env S st st'\<close>: from \<open>st\<close> to \<open>st'\<close> the trace
  has grown by events that \<open>S\<close> and the keys of the result map of \<open>st'\<close> cover; the keys
  of the result map have not shrunk; and if the worker answers for the words it is asked
  only, the result of a word outside \<open>S\<close> is unchanged.
\<close>

fun covers :: "jsstring set \<Rightarrow> jsstring set \<Rightarrow> event \<Rightarrow> bool" where
  "covers S K (Request url body) \<longleftrightarrow> set (rb_words body) \<subseteq> S"
| "covers S K (SaveSettings s) \<longleftrightarrow> True"
| "covers S K (SavePartial m) \<longleftrightarrow> fst ` set m \<subseteq> K"
| "covers S K (SaveCacheStore c) \<longleftrightarrow> True"
| "covers S K (EndpointsFailed errors) \<longleftrightarrow> True"

definition batchStep :: "environment \<Rightarrow> jsstring set \<Rightarrow> manager \<Rightarrow> manager \<Rightarrow> bool" where
  "batchStep env S st st' \<longleftrightarrow>
     (\<exists>evs. trace st' = trace st @ evs \<and>
        list_all (covers S (fst ` set (allResults st'))) evs) \<and>
     fst ` set (allResults st) \<subseteq> fst ` set (allResults st') \<and>
     (answersAskedWords env \<longrightarrow>
        (\<forall>W. W \<notin> S \<longrightarrow> map_of (allResults st') W = map_of (allResults st) W))"

text \<open>Concrete inputs for the examples below.\<close>

definition world0 :: probe_world where
  "world0 = \<lparr>pw_now = 0, pw_calls = 0\<rparr>"

definition bonjour :: GroqTranslationResult where
  "bonjour =
     \<lparr>tr_translation = Some (lit ''bonjour''),
      tr_definition = Some (lit ''a greeting used when meeting someone''),
      tr_exampleSource = Some (lit ''Hello, how are you?''),
      tr_exampleTarget = Some (lit ''Bonjour, comment allez-vous ?'')\<rparr>"

definition store1 :: cache_store where
  "store1 =
     \<lparr>own = [(lit ''hello'', \<lparr>ts = 1000, data = bonjour\<rparr>),
             (lit ''void'', \<lparr>ts = 1000, data = createEmptyCacheEntry\<rparr>)],
      proto = None\<rparr>"

text \<open>Two endpoints, settings and a manager at the start of a session.\<close>

definition urlA :: jsstring where
  "urlA = lit ''https://a.example/''"

definition urlB :: jsstring where
  "urlB = lit ''https://b.example/''"

definition settings0 :: plugin_settings where
  "settings0 =
     \<lparr>requestsPerMinute = 15, autoEndpointSwitch = True, activeWorkerUrl = urlA,
      backupWorkerUrls = [urlB], remoteConfig = Some (urlA, [urlB]), useJSONFormat = True,
      groqModel = lit ''m'', highLimitModels = [], batchSize = 1, smartAutoMode = False,
      enableAdaptiveBatching = False, translationQuality = professional,
      enableRateLimiting = True, maxNonModelFailures = Some 3, cacheTTLHours = Some 24\<rparr>"

definition manager0 :: manager where
  "manager0 =
     \<lparr>settings = settings0, clockNow = 100000, pluginCacheStore = emptyStore,
      failedWordsInCurrentOperation = [], summaryInProgress = True, rateLimiter = [],
      adaptiveBatchController = None, consecutiveNonModelFailures = 0,
      lastBackoffUntilTs = 0, jsonErrorCount = 0, rateLimitErrorCount = 0,
      circuitBreaker = new_CircuitBreaker (lit ''TranslationService''), networkBackoff = 0,
      allResults = [], fetchCount = 0, trace = []\<rparr>"

definition body0 :: request_body where
  "body0 =
     \<lparr>rb_words = [lit ''cat''], rb_sourceLang = lit ''en'', rb_targetLang = lit ''fr'',
      rb_model = lit ''m'', rb_useJSONFormat = True\<rparr>"

text \<open>An error envelope with a message and perhaps a category, and a success envelope.\<close>

definition errorResponse :: "nat \<Rightarrow> string \<Rightarrow> jsstring option \<Rightarrow> fetch_result" where
  "errorResponse code msg cat =
     Response \<lparr>res_status = code, res_text = lit msg,
       res_json = Parsed \<lparr>jd_error = Some (lit msg), jd_errorCategory = cat,
         jd_stringified = lit msg, jd_success = False, jd_translations = []\<rparr>\<rparr>"

definition okResponse :: "jsstring list \<Rightarrow> fetch_result" where
  "okResponse ws =
     Response \<lparr>res_status = 200, res_text = [],
       res_json = Parsed \<lparr>jd_error = None, jd_errorCategory = None, jd_stringified = [],
         jd_success = True, jd_translations = map (\<lambda>w. (w, bonjour)) ws\<rparr>\<rparr>"

definition world :: "(nat \<Rightarrow> jsstring \<Rightarrow> request_body \<Rightarrow> fetch_result) \<Rightarrow> environment" where
  "world f =
     \<lparr>network = f, latency = (\<lambda>n. 10), isValidHttps = prefix (lit ''https://''),
      cancelRequestedAt = (\<lambda>t. False), isMobileEnv = False,
      typeErrorMessage =
        lit ''Cannot read properties of undefined (reading '' @ [39] @ lit ''translation'' @
        [39] @ lit '')''\<rparr>"

text \<open>Every request is answered 429 with an error envelope.\<close>

definition net429 :: "nat \<Rightarrow> jsstring \<Rightarrow> request_body \<Rightarrow> fetch_result" where
  "net429 n url body = errorResponse 429 ''try again in 3s'' None"

text \<open>The first endpoint answers 400 with the category \<open>json\<close>, the second translates.\<close>

definition netJson :: "nat \<Rightarrow> jsstring \<Rightarrow> request_body \<Rightarrow> fetch_result" where
  "netJson n url body =
     (if url = urlA then errorResponse 400 ''bad json'' (Some (lit ''json''))
      else okResponse (rb_words body))"

text \<open>A 400 flagged \<open>json\<close> whose message speaks of capacity.\<close>

definition netCapacity :: "nat \<Rightarrow> jsstring \<Rightarrow> request_body \<Rightarrow> fetch_result" where
  "netCapacity n url body = errorResponse 400 ''over capacity'' (Some (lit ''json''))"

text \<open>Every endpoint answers 422 with a mixed-script validation failure.\<close>

definition netMixed :: "nat \<Rightarrow> jsstring \<Rightarrow> request_body \<Rightarrow> fetch_result" where
  "netMixed n url body = errorResponse 422 ''mixed-script validation failed'' None"

text \<open>The first request is translated; every later one finds the model gone.\<close>

definition netModel :: "nat \<Rightarrow> jsstring \<Rightarrow> request_body \<Rightarrow> fetch_result" where
  "netModel n url body =
     (if n = 0 then okResponse (rb_words body)
      else errorResponse 404 ''The model does not exist'' (Some (lit ''model'')))"

definition body0F :: request_body where
  "body0F = body0\<lparr>rb_useJSONFormat := False\<rparr>"

definition jsonErrorDoc :: json_doc where
  "jsonErrorDoc =
     \<lparr>jd_error = Some (lit ''bad json''), jd_errorCategory = Some (lit ''json''),
      jd_stringified = lit ''bad json'', jd_success = False, jd_translations = []\<rparr>"

text \<open>
  A run of three words over a cache that holds one of them, in batches of one: the
  state at its start, the request for a word, the state after the first batch, after
  the failed request of the second batch, and at the abort.
\<close>

definition manager1 :: manager where
  "manager1 = manager0\<lparr>pluginCacheStore := store1\<rparr>"

definition words1 :: "jsstring list" where
  "words1 = [lit ''Hello'', lit ''cat'', lit ''dog'']"

definition results1 :: "(jsstring \<times> GroqTranslationResult) list" where
  "results1 = [(lit ''Hello'', bonjour), (lit ''cat'', bonjour)]"

definition store2 :: cache_store where
  "store2 = store1\<lparr>own := own store1 @ [(lit ''cat'', \<lparr>ts = 100010, data = bonjour\<rparr>)]\<rparr>"

definition bodyOf :: "jsstring \<Rightarrow> request_body" where
  "bodyOf w = body0\<lparr>rb_words := [w]\<rparr>"

definition modelGone :: jserror where
  "modelGone = Error (lit ''Model Not Available: The model does not exist'')"

definition afterBatch1 :: manager where
  "afterBatch1 = manager1
     \<lparr>clockNow := 102010, pluginCacheStore := store2, rateLimiter := [100000],
      allResults := results1, fetchCount := 1,
      trace := [Request urlA (bodyOf (lit ''cat'')), SavePartial results1,
                SaveCacheStore (own store2)]\<rparr>"

definition failed2 :: manager where
  "failed2 = afterBatch1
     \<lparr>clockNow := 102020, rateLimiter := [100000, 102010], fetchCount := 2,
      trace := trace afterBatch1 @ [Request urlA (bodyOf (lit ''dog''))]\<rparr>"

definition aborted1 :: manager where
  "aborted1 = manager1
     \<lparr>clockNow := 102020, pluginCacheStore := store2, summaryInProgress := False,
      rateLimiter := [100000, 102010],
      circuitBreaker :=
        (new_CircuitBreaker (lit ''TranslationService''))
          \<lparr>failureCount := 1, lastFailureTime := 102020\<rparr>,
      allResults := results1, fetchCount := 2,
      trace := [Request urlA (bodyOf (lit ''cat'')), SavePartial results1,
                SaveCacheStore (own store2), Request urlA (bodyOf (lit ''dog'')),
                SavePartial results1]\<rparr>"






section \<open>Properties of strings\<close>

text \<open>On ASCII text \<open>toLowerCase\<close> is \<open>lowerUnit\<close> on every code unit.\<close>

lemma codePoints_ascii: "list_all (\<lambda>c. c < 128) s \<Longrightarrow> codePoints s = s"
  by (induction s rule: codePoints.induct) simp_all

lemma lowerFrom_ascii:
  "list_all (\<lambda>c. c < 128) s \<Longrightarrow> lowerFrom seen s = map lowerUnit s"
  by (induction s arbitrary: seen) (simp_all add: lowerPoint_def)

lemma codeUnits_ascii:
  "list_all (\<lambda>c. c < 128) s \<Longrightarrow> concat (map (codeUnits \<circ> lowerUnit) s) = map lowerUnit s"
  by (induction s) (simp_all add: codeUnits_def lowerUnit_def)

lemma toLowerCase_ascii:
  "list_all (\<lambda>c. c < 128) s \<Longrightarrow> toLowerCase s = map lowerUnit s"
  by (simp add: toLowerCase_def codePoints_ascii lowerFrom_ascii codeUnits_ascii)

section \<open>Properties of the circuit breaker\<close>

lemma execute_fail_fast:
  assumes "state cb = OPEN" "clock w - lastFailureTime cb \<le> resetTimeout"
  shows "CircuitBreaker_execute clock operation (cb, w) = (Inl (breakerOpenError cb), cb, w)"
  using assms by (simp add: CircuitBreaker_execute_def CircuitBreaker_admit_def)

lemma execute_half_open:
  assumes "state cb = OPEN" "clock w - lastFailureTime cb > resetTimeout"
  shows "CircuitBreaker_admit (clock w) cb = Inr (cb\<lparr>state := HALF_OPEN\<rparr>) \<and>
     CircuitBreaker_execute clock operation (cb, w) =
      (case operation w of
         (Inr result, w') \<Rightarrow>
           (Inr result, CircuitBreaker_onSuccess (cb\<lparr>state := HALF_OPEN\<rparr>), w')
       | (Inl e, w') \<Rightarrow>
           (Inl e, CircuitBreaker_onFailure (clock w') (cb\<lparr>state := HALF_OPEN\<rparr>), w'))"
  using assms by (simp add: CircuitBreaker_execute_def CircuitBreaker_admit_def)

lemma execute_success:
  assumes "CircuitBreaker_execute clock operation (cb, w) = (Inr v, cb', w')"
  shows "failureCount cb' = 0 \<and> state cb' = CLOSED"
  using assms
  by (auto simp: CircuitBreaker_execute_def CircuitBreaker_onSuccess_def
      split: sum.splits prod.splits)

text \<open>
  One failed call of \<open>execute\<close>, from a breaker that is not open below the threshold:
  the breaker is open afterwards, or the count went up by one and is still below
  the threshold.
\<close>

lemma failing_execute_step:
  assumes "CircuitBreaker_execute clock operation (cb, w) = (Inl e, cb', w')"
    and "state cb = OPEN \<longrightarrow> failureThreshold \<le> failureCount cb"
  shows "(failureThreshold \<le> failureCount cb' \<and> state cb' = OPEN) \<or>
         (failureCount cb' = failureCount cb + 1 \<and> failureCount cb' < failureThreshold \<and>
          state cb' \<noteq> OPEN)"
  using assms
  by (auto simp: CircuitBreaker_execute_def CircuitBreaker_admit_def
      CircuitBreaker_onFailure_def Let_def split: sum.splits prod.splits if_splits)

lemma three_failures:
  assumes "state cb = CLOSED"
    and "CircuitBreaker_execute clock op1 (cb, w) = (Inl e1, cb1, w1)"
    and "CircuitBreaker_execute clock op2 (cb1, w1) = (Inl e2, cb2, w2)"
    and "CircuitBreaker_execute clock op3 (cb2, w2) = (Inl e3, cb3, w3)"
  shows "state cb3 = OPEN"
proof -
  have s1: "(failureThreshold \<le> failureCount cb1 \<and> state cb1 = OPEN) \<or>
         (failureCount cb1 = failureCount cb + 1 \<and> failureCount cb1 < failureThreshold \<and>
          state cb1 \<noteq> OPEN)"
    using failing_execute_step[OF assms(2)] assms(1) by simp
  then have s2: "(failureThreshold \<le> failureCount cb2 \<and> state cb2 = OPEN) \<or>
         (failureCount cb2 = failureCount cb + 2 \<and> failureCount cb2 < failureThreshold \<and>
          state cb2 \<noteq> OPEN)"
    using failing_execute_step[OF assms(3)] by auto
  then have "(failureThreshold \<le> failureCount cb3 \<and> state cb3 = OPEN) \<or>
         (failureCount cb3 = failureCount cb + 3 \<and> failureCount cb3 < failureThreshold \<and>
          state cb3 \<noteq> OPEN)"
    using failing_execute_step[OF assms(4)] by auto
  then show ?thesis by (auto simp: failureThreshold_def)
qed

lemma probe_runs:
  "CircuitBreaker_execute pw_now probe_fail (new_CircuitBreaker n, world0) =
     (Inl (Error (lit ''boom'')),
      \<lparr>breakerName = n, failureCount = 1, lastFailureTime = 0, state = CLOSED\<rparr>,
      \<lparr>pw_now = 0, pw_calls = 1\<rparr>)"
  "CircuitBreaker_execute pw_now probe_fail
     (\<lparr>breakerName = n, failureCount = 1, lastFailureTime = 0, state = CLOSED\<rparr>,
      \<lparr>pw_now = 0, pw_calls = 1\<rparr>) =
     (Inl (Error (lit ''boom'')),
      \<lparr>breakerName = n, failureCount = 2, lastFailureTime = 0, state = CLOSED\<rparr>,
      \<lparr>pw_now = 0, pw_calls = 2\<rparr>)"
  "CircuitBreaker_execute pw_now probe_fail
     (\<lparr>breakerName = n, failureCount = 2, lastFailureTime = 0, state = CLOSED\<rparr>,
      \<lparr>pw_now = 0, pw_calls = 2\<rparr>) =
     (Inl (Error (lit ''boom'')),
      \<lparr>breakerName = n, failureCount = 3, lastFailureTime = 0, state = OPEN\<rparr>,
      \<lparr>pw_now = 0, pw_calls = 3\<rparr>)"
  by (simp_all add: CircuitBreaker_execute_def CircuitBreaker_admit_def probe_fail_def
      new_CircuitBreaker_def world0_def CircuitBreaker_onFailure_def failureThreshold_def)

text \<open>
  C2, as the code has it. Three consecutive failed calls, from a closed breaker, leave the
  breaker \<open>OPEN\<close>. An open breaker whose last failure is at most 30000 ms old fails fast:
  the breaker and the world are unchanged, so the operation was not called. An open breaker
  whose last failure is more than 30000 ms old moves to \<open>HALF_OPEN\<close> and the operation is
  called. A call that succeeds leaves \<open>failureCount = 0\<close> and the state \<open>CLOSED\<close>.
  (The claim puts the boundary at an elapsed time of 30000 ms or more; the code admits
  the probe only when the elapsed time is greater than 30000 ms.)
\<close>

theorem C2_circuit_breaker:
  "(state cb = CLOSED \<and>
    CircuitBreaker_execute clock op1 (cb, w) = (Inl e1, cb1, w1) \<and>
    CircuitBreaker_execute clock op2 (cb1, w1) = (Inl e2, cb2, w2) \<and>
    CircuitBreaker_execute clock op3 (cb2, w2) = (Inl e3, cb3, w3)
      \<longrightarrow> state cb3 = OPEN) \<and>
   (state cb = OPEN \<and> clock w - lastFailureTime cb \<le> 30000
      \<longrightarrow> CircuitBreaker_execute clock operation (cb, w) = (Inl (breakerOpenError cb), cb, w)) \<and>
   (state cb = OPEN \<and> clock w - lastFailureTime cb > 30000
      \<longrightarrow> CircuitBreaker_admit (clock w) cb = Inr (cb\<lparr>state := HALF_OPEN\<rparr>) \<and>
          CircuitBreaker_execute clock operation (cb, w) =
            (case operation w of
               (Inr result, w') \<Rightarrow>
                 (Inr result, CircuitBreaker_onSuccess (cb\<lparr>state := HALF_OPEN\<rparr>), w')
             | (Inl e, w') \<Rightarrow>
                 (Inl e, CircuitBreaker_onFailure (clock w') (cb\<lparr>state := HALF_OPEN\<rparr>), w'))) \<and>
   (CircuitBreaker_execute clock operation (cb, w) = (Inr v, cb', w')
      \<longrightarrow> failureCount cb' = 0 \<and> state cb' = CLOSED)"
proof (intro conjI impI)
  assume "state cb = CLOSED \<and>
    CircuitBreaker_execute clock op1 (cb, w) = (Inl e1, cb1, w1) \<and>
    CircuitBreaker_execute clock op2 (cb1, w1) = (Inl e2, cb2, w2) \<and>
    CircuitBreaker_execute clock op3 (cb2, w2) = (Inl e3, cb3, w3)"
  then show "state cb3 = OPEN" by (elim conjE) (rule three_failures, assumption+)
next
  assume "state cb = OPEN \<and> clock w - lastFailureTime cb \<le> 30000"
  then show "CircuitBreaker_execute clock operation (cb, w) = (Inl (breakerOpenError cb), cb, w)"
    using execute_fail_fast[of cb clock w operation] by (simp add: resetTimeout_def)
next
  assume a: "state cb = OPEN \<and> clock w - lastFailureTime cb > 30000"
  then show "CircuitBreaker_admit (clock w) cb = Inr (cb\<lparr>state := HALF_OPEN\<rparr>)"
    using execute_half_open[of cb clock w operation] by (simp add: resetTimeout_def)
  from a show "CircuitBreaker_execute clock operation (cb, w) =
            (case operation w of
               (Inr result, w') \<Rightarrow>
                 (Inr result, CircuitBreaker_onSuccess (cb\<lparr>state := HALF_OPEN\<rparr>), w')
             | (Inl e, w') \<Rightarrow>
                 (Inl e, CircuitBreaker_onFailure (clock w') (cb\<lparr>state := HALF_OPEN\<rparr>), w'))"
    using execute_half_open[of cb clock w operation] by (simp add: resetTimeout_def)
next
  assume a: "CircuitBreaker_execute clock operation (cb, w) = (Inr v, cb', w')"
  from execute_success[OF a] show "failureCount cb' = 0" by simp
  from execute_success[OF a] show "state cb' = CLOSED" by simp
qed

text \<open>
  A run of C2: a new breaker opens after three failed probes at time 0; at 30001 ms the
  probe is admitted and its success closes the breaker.
\<close>

theorem C2_circuit_breaker_witness:
  "state (fst (snd (CircuitBreaker_execute pw_now probe_fail
      (\<lparr>breakerName = lit ''T'', failureCount = 2, lastFailureTime = 0, state = CLOSED\<rparr>,
       \<lparr>pw_now = 0, pw_calls = 2\<rparr>)))) = OPEN \<and>
   CircuitBreaker_execute pw_now probe_ok (open_breaker, \<lparr>pw_now = 20000, pw_calls = 3\<rparr>) =
     (Inl (breakerOpenError open_breaker), open_breaker, \<lparr>pw_now = 20000, pw_calls = 3\<rparr>) \<and>
   CircuitBreaker_execute pw_now probe_ok (open_breaker, \<lparr>pw_now = 30001, pw_calls = 3\<rparr>) =
     (Inr (), \<lparr>breakerName = lit ''T'', failureCount = 0, lastFailureTime = 0, state = CLOSED\<rparr>,
      \<lparr>pw_now = 30001, pw_calls = 4\<rparr>)"
proof -
  have a: "state (new_CircuitBreaker (lit ''T'')) = CLOSED"
    by (simp add: new_CircuitBreaker_def)
  have b: "state open_breaker = OPEN" "lastFailureTime open_breaker = 0"
    by (simp_all add: open_breaker_def)
  note t1 = C2_circuit_breaker[where cb = "new_CircuitBreaker (lit ''T'')" and clock = pw_now
      and ?op1.0 = probe_fail and ?op2.0 = probe_fail and ?op3.0 = probe_fail and w = world0
      and operation = probe_ok and v = "()", THEN conjunct1, rule_format,
      OF conjI[OF a conjI[OF probe_runs(1) conjI[OF probe_runs(2) probe_runs(3)]]]]
  note t2 = C2_circuit_breaker[where cb = open_breaker and clock = pw_now
      and w = "\<lparr>pw_now = 20000, pw_calls = 3\<rparr>" and operation = probe_ok,
      THEN conjunct2, THEN conjunct1, rule_format]
  note t3 = C2_circuit_breaker[where cb = open_breaker and clock = pw_now
      and w = "\<lparr>pw_now = 30001, pw_calls = 3\<rparr>" and operation = probe_ok,
      THEN conjunct2, THEN conjunct2, THEN conjunct1, rule_format]
  show ?thesis
    using t1 t2 t3 b
    by (simp add: probe_runs probe_ok_def CircuitBreaker_onSuccess_def open_breaker_def)
qed

text \<open>
  C2 as stated fails at an elapsed time of exactly 30000 ms: the breaker is open, the
  last failure is 30000 ms old, and \<open>execute\<close> fails fast, the probe not being called
  (the call counter stays at 0) and the state still \<open>OPEN\<close>.
\<close>

theorem C2_boundary_counterexample:
  "state open_breaker = OPEN \<and>
   pw_now \<lparr>pw_now = 30000, pw_calls = 0\<rparr> - lastFailureTime open_breaker \<ge> 30000 \<and>
   CircuitBreaker_execute pw_now probe_ok (open_breaker, \<lparr>pw_now = 30000, pw_calls = 0\<rparr>) =
     (Inl (breakerOpenError open_breaker), open_breaker, \<lparr>pw_now = 30000, pw_calls = 0\<rparr>)"
  by (simp add: CircuitBreaker_execute_def CircuitBreaker_admit_def open_breaker_def
      resetTimeout_def)

text \<open>
  The invariant behind C10: after any sequence of the breaker's steps, a state other
  than \<open>CLOSED\<close> has a failure count at or above the threshold.
\<close>

lemma breaker_invariant:
  "state (breaker_after n steps) \<noteq> CLOSED \<Longrightarrow>
     failureThreshold \<le> failureCount (breaker_after n steps)"
proof (induction steps rule: rev_induct)
  case Nil
  then show ?case by (simp add: breaker_after_def new_CircuitBreaker_def)
next
  case (snoc x xs)
  then show ?case
    by (cases x)
      (auto simp: breaker_after_def CircuitBreaker_admit_def CircuitBreaker_onSuccess_def
        CircuitBreaker_onFailure_def Let_def split: if_splits)
qed

text \<open>
  C10. In every reachable \<open>HALF_OPEN\<close> state the failure count is at or above the
  threshold (the move from \<open>OPEN\<close> to \<open>HALF_OPEN\<close> does not reset it), so one failure of
  the probe puts the breaker back to \<open>OPEN\<close>, and so does a failed \<open>execute\<close>.
\<close>

theorem C10_half_open_reopens:
  assumes "state (breaker_after n steps) = HALF_OPEN"
  shows "failureThreshold \<le> failureCount (breaker_after n steps) \<and>
         state (CircuitBreaker_onFailure now (breaker_after n steps)) = OPEN \<and>
         (CircuitBreaker_execute clock operation (breaker_after n steps, w) = (Inl e, cb', w')
            \<longrightarrow> state cb' = OPEN)"
proof -
  have c: "failureThreshold \<le> failureCount (breaker_after n steps)"
    using breaker_invariant[of n steps] assms by simp
  then have "state (CircuitBreaker_onFailure t (breaker_after n steps)) = OPEN" for t
    by (simp add: CircuitBreaker_onFailure_def Let_def)
  then show ?thesis
    using c assms
    by (auto simp: CircuitBreaker_execute_def CircuitBreaker_admit_def
        split: sum.splits prod.splits)
qed

text \<open>
  A reachable \<open>HALF_OPEN\<close> state: three failures at time 0, then an admission at 30001 ms.
  The count is 3 there, and one more failure opens the breaker again.
\<close>

theorem C10_half_open_reopens_witness:
  "state (breaker_after (lit ''T'') [Failed 0, Failed 0, Failed 0, Admit 30001]) = HALF_OPEN \<and>
   failureCount (breaker_after (lit ''T'') [Failed 0, Failed 0, Failed 0, Admit 30001]) = 3 \<and>
   state (CircuitBreaker_onFailure 30002
     (breaker_after (lit ''T'') [Failed 0, Failed 0, Failed 0, Admit 30001])) = OPEN"
proof -
  have h: "state (breaker_after (lit ''T'') [Failed 0, Failed 0, Failed 0, Admit 30001]) = HALF_OPEN"
    by (simp add: breaker_after_def new_CircuitBreaker_def CircuitBreaker_onFailure_def
        CircuitBreaker_admit_def failureThreshold_def resetTimeout_def)
  have "failureCount (breaker_after (lit ''T'') [Failed 0, Failed 0, Failed 0, Admit 30001]) = 3"
    by (simp add: breaker_after_def new_CircuitBreaker_def CircuitBreaker_onFailure_def
        CircuitBreaker_admit_def failureThreshold_def resetTimeout_def)
  then show ?thesis
    using h C10_half_open_reopens[OF h, THEN conjunct2, THEN conjunct1, of 30002] by simp
qed

section \<open>Properties of the adaptive batch controller\<close>

lemma onSuccess_fields:
  "currentBatchSize (onSuccess c) =
     (if 4 \<le> recentSuccesses c \<and> currentBatchSize c < maxBatchSize c
      then currentBatchSize c + 1 else currentBatchSize c)"
  "recentSuccesses (onSuccess c) =
     (if 4 \<le> recentSuccesses c \<and> currentBatchSize c < maxBatchSize c
      then 0 else recentSuccesses c + 1)"
  "maxBatchSize (onSuccess c) = maxBatchSize c"
  by (auto simp: onSuccess_def Let_def windowSize_def)

lemma onFailure_fields:
  "currentBatchSize (onFailure c) =
     (if 1 \<le> recentFailures c \<and> 1 < currentBatchSize c
      then max (currentBatchSize c * 7 div 10) 1 else currentBatchSize c)"
  "recentFailures (onFailure c) =
     (if 1 \<le> recentFailures c \<and> 1 < currentBatchSize c then 0 else recentFailures c + 1)"
  "recentSuccesses (onFailure c) = 0"
  "maxBatchSize (onFailure c) = maxBatchSize c"
  by (auto simp: onFailure_def Let_def minBatchSize_def)

text \<open>Whatever the success counter holds, five successes in a row grow the size once.\<close>

lemma five_successes:
  assumes "currentBatchSize c \<le> 20" "maxBatchSize c = 20"
  shows "currentBatchSize (onSuccess (onSuccess (onSuccess (onSuccess (onSuccess c))))) =
         min (currentBatchSize c + 1) 20"
proof (cases "currentBatchSize c < 20")
  case False
  then show ?thesis using assms by (simp add: onSuccess_fields)
next
  case True
  consider "recentSuccesses c \<ge> 4" | "recentSuccesses c = 3" | "recentSuccesses c = 2"
    | "recentSuccesses c = 1" | "recentSuccesses c = 0"
    by linarith
  then show ?thesis
    using True assms by cases (simp_all add: onSuccess_fields)
qed

text \<open>Whatever the failure counter holds, two failures in a row shrink the size once.\<close>

lemma two_failures:
  "currentBatchSize (onFailure (onFailure c)) =
     (if currentBatchSize c > 1 then max (currentBatchSize c * 7 div 10) 1
      else currentBatchSize c)"
  by (simp add: onFailure_fields)

text \<open>
  C8. From any size in 1..20 (with the ceiling 20 that the orchestrator passes) and any
  values of the two counters: five consecutive \<open>onSuccess\<close> calls add exactly one to
  the size, capped at 20; two consecutive \<open>onFailure\<close> calls leave the size at
  \<open>floor (size * 0.7)\<close>, floored at 1; \<open>onFailure\<close> resets the success counter; and
  neither call takes the size out of 1..20.
\<close>

theorem C8_adaptive_batch_controller:
  assumes "1 \<le> currentBatchSize c" "currentBatchSize c \<le> 20" "maxBatchSize c = 20"
  shows "currentBatchSize (onSuccess (onSuccess (onSuccess (onSuccess (onSuccess c))))) =
           min (currentBatchSize c + 1) 20 \<and>
         currentBatchSize (onFailure (onFailure c)) = max (currentBatchSize c * 7 div 10) 1 \<and>
         recentSuccesses (onFailure c) = 0 \<and>
         1 \<le> currentBatchSize (onSuccess c) \<and> currentBatchSize (onSuccess c) \<le> 20 \<and>
         1 \<le> currentBatchSize (onFailure c) \<and> currentBatchSize (onFailure c) \<le> 20"
proof -
  have "currentBatchSize (onFailure (onFailure c)) = max (currentBatchSize c * 7 div 10) 1"
    using assms(1) by (simp add: two_failures)
  moreover have "1 \<le> currentBatchSize (onSuccess c) \<and> currentBatchSize (onSuccess c) \<le> 20"
    using assms by (simp add: onSuccess_fields)
  moreover have "currentBatchSize c * 7 div 10 \<le> 20"
    using assms(1,2) by presburger
  then have "1 \<le> currentBatchSize (onFailure c) \<and> currentBatchSize (onFailure c) \<le> 20"
    using assms by (simp add: onFailure_fields)
  ultimately show ?thesis
    using five_successes[OF assms(2,3)] by (simp add: onFailure_fields)
qed

text \<open>
  The controller the orchestrator builds for the standard quality (size 8): five
  successes give 9, two failures give 5.
\<close>

theorem C8_adaptive_batch_controller_witness:
  "currentBatchSize (onSuccess (onSuccess (onSuccess (onSuccess (onSuccess
      (new_AdaptiveBatchController 8 20)))))) = 9 \<and>
   currentBatchSize (onFailure (onFailure (new_AdaptiveBatchController 8 20))) = 5 \<and>
   recentSuccesses (onFailure (new_AdaptiveBatchController 8 20)) = 0"
  using C8_adaptive_batch_controller[of "new_AdaptiveBatchController 8 20"]
  by (simp add: new_AdaptiveBatchController_def)

section \<open>Properties of the rate limiter\<close>

lemma cleanup_hd_drop:
  assumes "rs \<noteq> []" "now2 - hd rs \<ge> windowMs"
  shows "length (cleanupOldRequests now2 rs) < length rs"
proof -
  from assms(1) obtain x xs where rs: "rs = x # xs" by (cases rs) auto
  with assms have "cleanupOldRequests now2 rs = filter (\<lambda>time. now2 - time < windowMs) xs"
    by (simp add: cleanupOldRequests_def)
  then show ?thesis using rs by (simp add: le_imp_less_Suc)
qed

lemma cleanup_all_in_window: "t \<in> set (cleanupOldRequests now rs) \<Longrightarrow> now - t < windowMs"
  by (simp add: cleanupOldRequests_def)

text \<open>The clock after the wait: 100 ms past the moment the oldest timestamp leaves the window.\<close>

lemma retry_clock:
  assumes "rs = cleanupOldRequests now requests" "rs \<noteq> []"
  shows "delay (calculateWaitTime now rs + 100) now = hd rs + windowMs + 100"
proof -
  from assms(2) obtain x xs where rs: "rs = x # xs" by (cases rs) auto
  have "x \<in> set rs" by (simp add: rs)
  then have "now - x < windowMs" unfolding assms(1) by (rule cleanup_all_in_window)
  then show ?thesis using rs by (simp add: delay_def calculateWaitTime_def)
qed

lemma acquireSlot_retry:
  assumes "maxRequests \<le> int (length (cleanupOldRequests now requests))"
  shows "acquireSlot maxRequests now requests =
     acquireSlot maxRequests
       (delay (calculateWaitTime now (cleanupOldRequests now requests) + 100) now)
       (cleanupOldRequests now requests)"
  using assms by (subst acquireSlot.simps) (simp add: Let_def)

lemma acquireSlot_record:
  assumes "int (length (cleanupOldRequests now requests)) < maxRequests"
  shows "acquireSlot maxRequests now requests = Some (now, cleanupOldRequests now requests @ [now])"
  using assms by (subst acquireSlot.simps) (simp add: Let_def)

text \<open>
  With a ceiling of at least one, \<open>acquireSlot\<close> returns: every round of waiting drops
  the head of the list, so the number of timestamps in the window is a measure.
\<close>

lemma acquireSlot_total:
  assumes "1 \<le> maxRequests"
  shows "\<exists>now' requests'. acquireSlot maxRequests now requests = Some (now', requests') \<and>
     now \<le> now' \<and> last requests' = now' \<and> set requests' \<subseteq> insert now' (set requests) \<and>
     (\<forall>t \<in> set requests'. now' - t < windowMs) \<and> int (length requests') \<le> maxRequests"
proof (induction "length (cleanupOldRequests now requests)" arbitrary: now requests
    rule: less_induct)
  case less
  define rs where "rs = cleanupOldRequests now requests"
  have sub: "set rs \<subseteq> set requests" by (auto simp: rs_def cleanupOldRequests_def)
  show ?case
  proof (cases "int (length rs) \<ge> maxRequests")
    case False
    then have "acquireSlot maxRequests now requests = Some (now, rs @ [now])"
      unfolding rs_def by (intro acquireSlot_record) simp
    moreover have "\<forall>t \<in> set rs. now - t < windowMs"
      by (auto simp: rs_def cleanupOldRequests_def)
    ultimately show ?thesis using False sub by (auto simp: windowMs_def)
  next
    case True
    with assms have ne: "rs \<noteq> []" by auto
    define now2 where "now2 = delay (calculateWaitTime now rs + 100) now"
    have n2: "now2 = hd rs + windowMs + 100"
      unfolding now2_def by (rule retry_clock[OF rs_def ne])
    have unf: "acquireSlot maxRequests now requests = acquireSlot maxRequests now2 rs"
      using True unfolding rs_def now2_def by (intro acquireSlot_retry) simp
    have "length (cleanupOldRequests now2 rs) < length rs"
      using ne n2 by (intro cleanup_hd_drop) (auto simp: windowMs_def)
    then have "length (cleanupOldRequests now2 rs) < length (cleanupOldRequests now requests)"
      by (simp add: rs_def)
    from less[OF this] obtain now' requests' where
      r: "acquireSlot maxRequests now2 rs = Some (now', requests')" "now2 \<le> now'"
        "last requests' = now'" "set requests' \<subseteq> insert now' (set rs)"
        "\<forall>t \<in> set requests'. now' - t < windowMs" "int (length requests') \<le> maxRequests"
      by blast
    have "now \<le> now2" by (simp add: now2_def delay_def)
    then show ?thesis using r unf sub by auto
  qed
qed

text \<open>
  C9, for a ceiling \<open>N\<close> of at least one (the orchestrator's ceiling is
  \<open>max 1 (min rpm cap)\<close>). \<open>acquireSlot\<close> first purges the timestamps that are 60000 ms
  old or older. If fewer than \<open>N\<close> remain it records \<open>now\<close> and returns at once. If \<open>N\<close>
  or more remain it waits \<open>60000 - (now - oldest) + 100\<close> ms and tries again; it does
  return, and the timestamp it then records is at least 60000 ms after that oldest
  timestamp, which is no longer in the list. In every case the list it leaves holds
  only timestamps inside the window, the last of them the one just recorded.
\<close>

theorem C9_rate_limiter:
  assumes "1 \<le> maxRequests"
  shows "(int (length (cleanupOldRequests now requests)) < maxRequests \<longrightarrow>
            acquireSlot maxRequests now requests =
              Some (now, cleanupOldRequests now requests @ [now])) \<and>
         (maxRequests \<le> int (length (cleanupOldRequests now requests)) \<longrightarrow>
            acquireSlot maxRequests now requests =
              acquireSlot maxRequests
                (now + (60000 - (now - hd (cleanupOldRequests now requests)) + 100))
                (cleanupOldRequests now requests) \<and>
            (\<exists>now' requests'. acquireSlot maxRequests now requests = Some (now', requests') \<and>
               last requests' = now' \<and>
               60000 \<le> now' - hd (cleanupOldRequests now requests))) \<and>
         (\<exists>now' requests'. acquireSlot maxRequests now requests = Some (now', requests') \<and>
            now \<le> now' \<and> last requests' = now' \<and>
            set requests' \<subseteq> insert now' (set requests) \<and>
            (\<forall>t \<in> set requests'. now' - t < 60000) \<and>
            int (length requests') \<le> maxRequests)"
proof (intro conjI impI)
  assume "int (length (cleanupOldRequests now requests)) < maxRequests"
  then show "acquireSlot maxRequests now requests =
      Some (now, cleanupOldRequests now requests @ [now])"
    by (rule acquireSlot_record)
next
  define rs where "rs = cleanupOldRequests now requests"
  assume full: "maxRequests \<le> int (length (cleanupOldRequests now requests))"
  with assms have ne: "rs \<noteq> []" by (auto simp: rs_def)
  have clock: "delay (calculateWaitTime now rs + 100) now = hd rs + windowMs + 100"
    by (rule retry_clock[OF rs_def ne])
  have "hd rs \<in> set rs" using ne by simp
  then have "now - hd rs < windowMs" unfolding rs_def by (rule cleanup_all_in_window)
  then have eq: "now + (60000 - (now - hd rs) + 100) = hd rs + windowMs + 100"
    by (simp add: windowMs_def)
  have unf: "acquireSlot maxRequests now requests =
      acquireSlot maxRequests (hd rs + windowMs + 100) rs"
    using acquireSlot_retry[OF full] clock by (simp add: rs_def)
  then show "acquireSlot maxRequests now requests =
      acquireSlot maxRequests
        (now + (60000 - (now - hd (cleanupOldRequests now requests)) + 100))
        (cleanupOldRequests now requests)"
    unfolding rs_def[symmetric] eq .
  from acquireSlot_total[OF assms, of "hd rs + windowMs + 100" rs]
  obtain now' requests' where
    r: "acquireSlot maxRequests (hd rs + windowMs + 100) rs = Some (now', requests')"
      "hd rs + windowMs + 100 \<le> now'" "last requests' = now'"
    by blast
  then have "60000 \<le> now' - hd rs" by (simp add: windowMs_def)
  then show "\<exists>now' requests'. acquireSlot maxRequests now requests = Some (now', requests') \<and>
      last requests' = now' \<and> 60000 \<le> now' - hd (cleanupOldRequests now requests)"
    using r unf by (auto simp: rs_def)
next
  show "\<exists>now' requests'. acquireSlot maxRequests now requests = Some (now', requests') \<and>
      now \<le> now' \<and> last requests' = now' \<and>
      set requests' \<subseteq> insert now' (set requests) \<and>
      (\<forall>t \<in> set requests'. now' - t < 60000) \<and>
      int (length requests') \<le> maxRequests"
    using acquireSlot_total[OF assms, of now requests] by (simp add: windowMs_def)
qed

text \<open>
  Two requests per minute, two timestamps (0 and 500) in the window at time 1000: the
  third \<open>acquireSlot\<close> waits until 60100, when the timestamp 0 has left the window, and
  records 60100.
\<close>

theorem C9_rate_limiter_witness:
  "acquireSlot 2 1000 [0, 500] = Some (60100, [500, 60100]) \<and>
   acquireSlot 2 1000 [0] = Some (1000, [0, 1000])"
proof -
  have c: "cleanupOldRequests 1000 [0, 500] = [0, 500]" "cleanupOldRequests 1000 [0] = [0]"
    "cleanupOldRequests 60100 [0, 500] = [500]"
    by (simp_all add: cleanupOldRequests_def windowMs_def)
  have "acquireSlot 2 1000 [0, 500] = acquireSlot 2 60100 [0, 500]"
    using C9_rate_limiter[of 2 1000 "[0, 500]", THEN conjunct2, THEN conjunct1] c by simp
  moreover have "acquireSlot 2 60100 [0, 500] = Some (60100, [500, 60100])"
    using C9_rate_limiter[of 2 60100 "[0, 500]", THEN conjunct1] c by simp
  moreover have "acquireSlot 2 1000 [0] = Some (1000, [0, 1000])"
    using C9_rate_limiter[of 2 1000 "[0]", THEN conjunct1] c by simp
  ultimately show ?thesis by simp
qed

section \<open>Properties of the cache\<close>

lemma map_of_delete_other: "k' \<noteq> k \<Longrightarrow> map_of (AList.delete k al) k' = map_of al k'"
  by (simp add: delete_conv)

lemma storeGet_own:
  "map_of (own cacheStore) key = Some entry \<Longrightarrow> storeGet cacheStore key = EntryObject entry"
  by (simp add: storeGet_def)

lemma prototype_keys:
  assumes "key \<in> set objectPrototypeKeys"
  shows "key \<noteq> lit ''ts''" "key \<noteq> lit ''data''" "key \<noteq> lit ''__proto__''"
  using assms by (auto simp: objectPrototypeKeys_def lit_def)

text \<open>
  The lookup of a word that has a stored entry: a miss when \<open>now - ts\<close> exceeds
  \<open>cacheTTLHours * 3600000\<close> (the entry is then deleted from the store and every other
  key keeps its entry), a miss when the stored result is the all-empty sentinel, and
  the stored result otherwise. A TTL that is not set is 24 hours.
\<close>

lemma getCachedResult_stored:
  assumes "map_of (own cacheStore) (toLowerCase word) = Some entry"
  shows "getCachedResult (Some hours) now cacheStore word =
     (if now - ts entry > hours * 3600000
      then Returns (None, cacheStore\<lparr>own := AList.delete (toLowerCase word) (own cacheStore)\<rparr>)
      else if isEmptyTranslation (data entry) then Returns (None, cacheStore)
      else Returns (Some (data entry), cacheStore))"
  using assms by (simp add: getCachedResult_def storeGet_def storeDelete_def ttlMs_def)

lemma getCachedResult_default_ttl:
  "getCachedResult None now cacheStore word = getCachedResult (Some 24) now cacheStore word"
  by (simp add: getCachedResult_def ttlMs_def Let_def split: js_value.splits)

lemma createEmptyCacheEntry_empty: "isEmptyTranslation createEmptyCacheEntry"
  by (simp add: isEmptyTranslation_def createEmptyCacheEntry_def blank_def)

text \<open>
  The lookup of a word that has no stored entry is a miss when no object of the
  prototype chain has a property of that name.
\<close>

lemma getCachedResult_absent:
  assumes "map_of (own cacheStore) (toLowerCase word) = None"
    and "toLowerCase word \<notin> set objectPrototypeKeys"
    and "toLowerCase word \<noteq> lit ''__proto__''"
    and "proto cacheStore = None \<or>
         (toLowerCase word \<noteq> lit ''ts'' \<and> toLowerCase word \<noteq> lit ''data'')"
  shows "getCachedResult ttl now cacheStore word = Returns (None, cacheStore)"
  using assms by (cases "proto cacheStore") (auto simp: getCachedResult_def storeGet_def Let_def)

text \<open>
  C7 on the code. The store is a plain object, so a word with no stored entry whose
  lowercased form names a property of \<open>Object.prototype\<close> is not a miss: the lookup
  reads the inherited value, takes it for an entry, and throws a \<open>TypeError\<close> when it
  reads \<open>translation\<close> of the entry's missing \<open>data\<close>. This is so for the methods of
  \<open>Object.prototype\<close> and its constructor, and for \<open>__proto__\<close> as long as the
  prototype of the store is \<open>Object.prototype\<close>.
\<close>

theorem C7_inherited_key_throws:
  assumes "map_of (own cacheStore) (toLowerCase word) = None"
    and "toLowerCase word \<in> set objectPrototypeKeys \<or>
         (toLowerCase word = lit ''__proto__'' \<and> proto cacheStore = None)"
  shows "getCachedResult ttl now cacheStore word = Throws"
proof -
  have "storeGet cacheStore (toLowerCase word) = BuiltinObject"
    using assms prototype_keys[of "toLowerCase word"]
    by (auto simp: storeGet_def split: option.splits)
  then show ?thesis by (simp add: getCachedResult_def)
qed

text \<open>
  In a store with no entries at all, the lookups of \<open>Constructor\<close> and of \<open>__proto__\<close>
  throw.
\<close>

theorem C7_inherited_key_throws_witness:
  "map_of (own emptyStore) (toLowerCase (lit ''Constructor'')) = None \<and>
   toLowerCase (lit ''Constructor'') = lit ''constructor'' \<and>
   getCachedResult (Some 24) 2000 emptyStore (lit ''Constructor'') = Throws \<and>
   getCachedResult (Some 24) 2000 emptyStore (lit ''__proto__'') = Throws"
proof -
  have k: "toLowerCase (lit ''Constructor'') = lit ''constructor''"
    "toLowerCase (lit ''__proto__'') = lit ''__proto__''"
    by (simp_all add: toLowerCase_ascii lit_def lowerUnit_def)
  have m: "lit ''constructor'' \<in> set objectPrototypeKeys"
    by (simp add: objectPrototypeKeys_def)
  show ?thesis
    using C7_inherited_key_throws[where cacheStore = emptyStore and word = "lit ''Constructor''"
        and ttl = "Some 24" and now = 2000]
      C7_inherited_key_throws[where cacheStore = emptyStore and word = "lit ''__proto__''"
        and ttl = "Some 24" and now = 2000]
    by (simp add: k m emptyStore_def)
qed

section \<open>Properties of the failover client\<close>

lemma js_includes_self: "js_includes s s"
  by (simp add: js_includes_def)

text \<open>
  An error envelope that is neither a capacity error nor flagged \<open>model\<close> goes through
  the three stages.
\<close>

lemma tryEndpoint_error_envelope:
  assumes "network env (fetchCount st) url body = Response res"
    and "\<not> res_ok res" and "res_json res = Parsed errorData"
    and "categorizeError \<lparr>message = orElse (jd_error errorData) (httpStatusText res),
           status = Some (res_status res)\<rparr> \<notin> {CAPACITY, MODEL_CAPACITY}"
    and "jd_errorCategory errorData \<noteq> Some (categoryName MODEL)"
  shows "tryEndpoint env url i body st =
           jsonStage env url i body res errorData (snd (doRequest env url body st))"
  using assms by (simp add: tryEndpoint_def doRequest_def Let_def)

text \<open>
  The rate-limit stage never reaches its retry: the counter has just been incremented
  when it is compared with 1.
\<close>

lemma rateLimitStage_eq:
  "rateLimitStage env url i body res errorData st =
     (if res_status res = 429
      then (Inl (Error (lit ''RATE_LIMIT_THRESHOLD'')),
            st\<lparr>rateLimitErrorCount := rateLimitErrorCount st + 1\<rparr>)
      else finalStage res errorData st)"
  by (simp add: rateLimitStage_def Let_def)

lemma finalStage_state: "snd (finalStage res errorData st) = st"
  by (simp add: finalStage_def)

lemma returnData_frame:
  "fetchCount (snd (returnData env url i d st)) = fetchCount st"
  "jsonErrorCount (snd (returnData env url i d st)) = jsonErrorCount st"
  "prefix (trace st) (trace (snd (returnData env url i d st)))"
  by (simp_all add: returnData_def updateEndpointConfig_def saveSettings_def Let_def)

lemma rateLimitStage_frame:
  "fetchCount (snd (rateLimitStage env url i body res errorData st)) = fetchCount st"
  "jsonErrorCount (snd (rateLimitStage env url i body res errorData st)) = jsonErrorCount st"
  "trace (snd (rateLimitStage env url i body res errorData st)) = trace st"
  by (simp_all add: rateLimitStage_eq finalStage_state)

lemma jsonStage_not_400:
  assumes "res_status res \<noteq> 400"
  shows "jsonStage env url i body res errorData st =
         rateLimitStage env url i body res errorData st"
  using assms by (simp add: jsonStage_def)

lemma jsonStage_threshold:
  assumes "res_status res = 400" "jd_errorCategory errorData = Some (categoryName JSON)"
    "1 \<le> jsonErrorCount st"
  shows "jsonStage env url i body res errorData st =
     (Inl (Error (lit ''JSON_THRESHOLD'')), st\<lparr>jsonErrorCount := jsonErrorCount st + 1\<rparr>)"
  using assms by (simp add: jsonStage_def Let_def)

lemma jsonStage_no_retry:
  assumes "res_status res = 400" "jd_errorCategory errorData = Some (categoryName JSON)"
    "jsonErrorCount st = 0" "\<not> rb_useJSONFormat body"
  shows "jsonStage env url i body res errorData st =
     (Inl (Error (httpStatusText res @ lit '': '' @ orElse (jd_error errorData) (res_text res))),
      st\<lparr>jsonErrorCount := 1\<rparr>)"
  using assms by (simp add: jsonStage_def Let_def rateLimitStage_eq finalStage_def)

lemma jsonStage_retry_eq:
  assumes "res_status res = 400" "jd_errorCategory errorData = Some (categoryName JSON)"
    "jsonErrorCount st = 0" "rb_useJSONFormat body"
  shows "jsonStage env url i body res errorData st =
      (case retryOutcome
              (fst (doRequest env url (body\<lparr>rb_useJSONFormat := False\<rparr>)
                      (st\<lparr>jsonErrorCount := 1\<rparr>))) res errorData of
         Inl d \<Rightarrow>
           returnData env url i d
             (snd (doRequest env url (body\<lparr>rb_useJSONFormat := False\<rparr>)
                     (st\<lparr>jsonErrorCount := 1\<rparr>)))
       | Inr p \<Rightarrow>
           rateLimitStage env url i (body\<lparr>rb_useJSONFormat := False\<rparr>) (fst p) (snd p)
             (snd (doRequest env url (body\<lparr>rb_useJSONFormat := False\<rparr>)
                     (st\<lparr>jsonErrorCount := 1\<rparr>))))"
proof -
  have c: "jsonErrorCount st + 1 = 1" using assms(3) by simp
  show ?thesis unfolding jsonStage_def Let_def split_def c using assms by simp
qed

lemma jsonStage_retry:
  assumes "res_status res = 400" "jd_errorCategory errorData = Some (categoryName JSON)"
    "jsonErrorCount st = 0" "rb_useJSONFormat body"
  shows "fetchCount (snd (jsonStage env url i body res errorData st)) = fetchCount st + 1 \<and>
     jsonErrorCount (snd (jsonStage env url i body res errorData st)) = 1 \<and>
     prefix (trace st @ [Request url (body\<lparr>rb_useJSONFormat := False\<rparr>)])
       (trace (snd (jsonStage env url i body res errorData st)))"
proof -
  define body' where "body' = body\<lparr>rb_useJSONFormat := False\<rparr>"
  define st2 where "st2 = snd (doRequest env url body' (st\<lparr>jsonErrorCount := 1\<rparr>))"
  define r where "r = fst (doRequest env url body' (st\<lparr>jsonErrorCount := 1\<rparr>))"
  have st2: "fetchCount st2 = fetchCount st + 1" "jsonErrorCount st2 = 1"
    "trace st2 = trace st @ [Request url body']"
    by (simp_all add: st2_def doRequest_def)
  note js = jsonStage_retry_eq[OF assms, of env url i, folded body'_def, folded st2_def r_def]
  show ?thesis
  proof (cases "retryOutcome r res errorData")
    case (Inl d)
    then show ?thesis
      using js st2
        returnData_frame[where env = env and url = url and i = i and d = d and st = st2]
      by (simp add: body'_def)
  next
    case (Inr p)
    then show ?thesis
      using js st2
        rateLimitStage_frame[where env = env and url = url and i = i and body = body'
          and res = "fst p" and errorData = "snd p" and st = st2]
      by (simp add: body'_def)
  qed
qed

text \<open>The \<open>catch\<close> of the endpoint loop rethrows a threshold sentinel.\<close>

lemma failoverLoop_threshold:
  assumes "tryEndpoint env url i body st = (Inl (Error m), st')"
    and "m = lit ''RATE_LIMIT_THRESHOLD'' \<or> m = lit ''JSON_THRESHOLD''"
  shows "failoverLoop env body i (url # urls) errors st = (Inl (Error m), st')"
proof -
  have "m \<noteq> []" using assms(2) by (auto simp: lit_def)
  then have "messageOf (Error m) = m" by (simp add: messageOf_def Error_def)
  then show ?thesis using assms by (auto simp: Let_def js_includes_self)
qed

text \<open>The \<open>catch\<close> of the endpoint loop records any other failure and goes on.\<close>

lemma failoverLoop_next:
  assumes "tryEndpoint env url i body st = (Inl e, st')"
    and "categorizeError e \<notin> {MODEL, CAPACITY, MODEL_CAPACITY}"
    and "\<not> js_includes (messageOf e) (lit ''RATE_LIMIT_THRESHOLD'')"
    and "\<not> js_includes (messageOf e) (lit ''JSON_THRESHOLD'')"
  shows "failoverLoop env body i (url # urls) errors st =
     failoverLoop env body (i + 1) urls (errors @ [(url, messageOf e, categorizeError e)]) st'"
  using assms by (simp add: Let_def)

lemma first_429:
  assumes "network env (fetchCount st) url body = Response res"
    and "res_status res = 429" and "res_json res = Parsed errorData"
    and "categorizeError \<lparr>message = orElse (jd_error errorData) (httpStatusText res),
           status = Some (res_status res)\<rparr> \<notin> {CAPACITY, MODEL_CAPACITY}"
    and "jd_errorCategory errorData \<noteq> Some (categoryName MODEL)"
  shows "failoverLoop env body i (url # urls) errors st =
      (Inl (Error (lit ''RATE_LIMIT_THRESHOLD'')),
       st\<lparr>fetchCount := fetchCount st + 1,
          clockNow := clockNow st + int (latency env (fetchCount st)),
          trace := trace st @ [Request url body],
          rateLimitErrorCount := rateLimitErrorCount st + 1\<rparr>)"
proof -
  have "\<not> res_ok res" using assms(2) by (simp add: res_ok_def)
  then have "tryEndpoint env url i body st =
      jsonStage env url i body res errorData (snd (doRequest env url body st))"
    using assms by (intro tryEndpoint_error_envelope) auto
  also have "\<dots> = (Inl (Error (lit ''RATE_LIMIT_THRESHOLD'')),
      (snd (doRequest env url body st))
        \<lparr>rateLimitErrorCount := rateLimitErrorCount (snd (doRequest env url body st)) + 1\<rparr>)"
    using assms(2) by (simp add: jsonStage_not_400 rateLimitStage_eq)
  finally have "tryEndpoint env url i body st = (Inl (Error (lit ''RATE_LIMIT_THRESHOLD'')),
       st\<lparr>fetchCount := fetchCount st + 1,
          clockNow := clockNow st + int (latency env (fetchCount st)),
          trace := trace st @ [Request url body],
          rateLimitErrorCount := rateLimitErrorCount st + 1\<rparr>)"
    by (simp add: doRequest_def)
  then show ?thesis by (rule failoverLoop_threshold) simp
qed

text \<open>The answers of the example networks, and how their error messages are classified.\<close>

lemma net429_answer:
  "network (world net429) n url body =
     Response \<lparr>res_status = 429, res_text = lit ''try again in 3s'',
       res_json = Parsed \<lparr>jd_error = Some (lit ''try again in 3s''), jd_errorCategory = None,
         jd_stringified = lit ''try again in 3s'', jd_success = False,
         jd_translations = []\<rparr>\<rparr>"
  by (simp add: world_def net429_def errorResponse_def)

lemma net429_category:
  "categorizeError \<lparr>message = lit ''try again in 3s'', status = Some 429\<rparr> = RATE_LIMIT"
  by (simp add: categorizeError_def Let_def js_includes_def lit_def sublist_code
      toLowerCase_ascii lowerUnit_def)

lemma lit_nonempty: "lit (c # s) \<noteq> []"
  by (simp add: lit_def)

text \<open>
  C1, as the code has it. The first HTTP 429 of a run (and every other one) whose
  error envelope parses, is not classified as a capacity error and is not flagged
  \<open>model\<close>, makes the failover client increment the rate-limit counter and abort the
  whole operation with \<open>RATE_LIMIT_THRESHOLD\<close> at once, whatever the counter held:
  one request has been sent, no further endpoint is tried, the clock has moved by the
  time of that request only (no wait), and the settings (\<open>requestsPerMinute\<close> among
  them) are unchanged.
\<close>

theorem C1_first_429_aborts:
  assumes "network env (fetchCount st) url body = Response res"
    and "res_status res = 429" and "res_json res = Parsed errorData"
    and "categorizeError \<lparr>message = orElse (jd_error errorData) (httpStatusText res),
           status = Some (res_status res)\<rparr> \<notin> {CAPACITY, MODEL_CAPACITY}"
    and "jd_errorCategory errorData \<noteq> Some (categoryName MODEL)"
  shows "failoverLoop env body i (url # urls) errors st =
      (Inl (Error (lit ''RATE_LIMIT_THRESHOLD'')),
       st\<lparr>fetchCount := fetchCount st + 1,
          clockNow := clockNow st + int (latency env (fetchCount st)),
          trace := trace st @ [Request url body],
          rateLimitErrorCount := rateLimitErrorCount st + 1\<rparr>)"
  using assms by (rule first_429)

text \<open>
  Two endpoints that answer 429: the first answer ends the call, with one request sent
  at a cost of 10 ms.
\<close>

theorem C1_first_429_aborts_witness:
  "failoverLoop (world net429) body0 0 [urlA, urlB] [] manager0 =
      (Inl (Error (lit ''RATE_LIMIT_THRESHOLD'')),
       manager0\<lparr>fetchCount := 1, clockNow := 100010, trace := [Request urlA body0],
          rateLimitErrorCount := 1\<rparr>)"
proof -
  have l: "latency (world net429) n = 10" for n by (simp add: world_def)
  have m: "fetchCount manager0 = 0" "clockNow manager0 = 100000" "trace manager0 = []"
    "rateLimitErrorCount manager0 = 0"
    by (simp_all add: manager0_def)
  show ?thesis
    using C1_first_429_aborts[where env = "world net429" and st = manager0 and url = urlA
        and body = body0 and i = 0 and urls = "[urlB]" and errors = "[]",
        OF net429_answer]
    by (simp add: orElse_def lit_nonempty net429_category l m)
qed

text \<open>
  C1 as stated fails on the first 429 of a run: the counter is 0 before the call, the
  call ends with \<open>RATE_LIMIT_THRESHOLD\<close>, the only request sent is the first one (the
  endpoint is not retried), and \<open>requestsPerMinute\<close> is still 15.
\<close>

theorem C1_no_retry_counterexample:
  "rateLimitErrorCount manager0 = 0 \<and>
   fst (postToWorkerWithFailover (world net429) body0 manager0) =
     Inl (Error (lit ''RATE_LIMIT_THRESHOLD'')) \<and>
   trace (snd (postToWorkerWithFailover (world net429) body0 manager0)) =
     [Request urlA body0] \<and>
   requestsPerMinute (settings (snd (postToWorkerWithFailover (world net429) body0 manager0))) =
     15"
proof -
  have u: "endpointUrls (world net429) (urlA, [urlB]) = [urlA, urlB]"
    by (simp add: endpointUrls_def world_def urlA_def urlB_def dedup_def lit_def)
  have p: "postToWorkerWithFailover (world net429) body0 manager0 =
      failoverLoop (world net429) body0 0 [urlA, urlB] [] manager0"
    by (simp add: postToWorkerWithFailover_def manager0_def settings0_def u)
  show ?thesis
    unfolding p
    using first_429[where env = "world net429" and st = manager0 and url = urlA
        and body = body0 and i = 0 and urls = "[urlB]" and errors = "[]", OF net429_answer]
    by (simp add: orElse_def lit_nonempty net429_category)
      (simp add: manager0_def settings0_def)
qed

lemma sent_state:
  "snd (doRequest env url body st) =
     st\<lparr>fetchCount := fetchCount st + 1,
        clockNow := clockNow st + int (latency env (fetchCount st)),
        trace := trace st @ [Request url body]\<rparr>"
  by (simp add: doRequest_def)

lemma tryEndpoint_ok:
  assumes "network env (fetchCount st) url body = Response res"
    and "res_ok res" and "res_json res = Parsed d"
  shows "tryEndpoint env url i body st = returnData env url i d (snd (doRequest env url body st))"
  using assms by (simp add: tryEndpoint_def doRequest_def Let_def)

lemma failoverLoop_success:
  assumes "tryEndpoint env url i body st = (Inr d, st')"
  shows "failoverLoop env body i (url # urls) errors st = (Inr d, st')"
  using assms by simp

lemma jsonStage_extends:
  "prefix (trace st) (trace (snd (jsonStage env url i body res errorData st)))"
proof (cases "res_status res = 400 \<and> jd_errorCategory errorData = Some (categoryName JSON)")
  case False
  then have "jsonStage env url i body res errorData st =
      rateLimitStage env url i body res errorData st"
    by (auto simp: jsonStage_def)
  then show ?thesis by (simp add: rateLimitStage_frame)
next
  case True
  show ?thesis
  proof (cases "1 \<le> jsonErrorCount st")
    case True
    with \<open>res_status res = 400 \<and> _\<close> show ?thesis by (simp add: jsonStage_threshold)
  next
    case False
    then have z: "jsonErrorCount st = 0" by simp
    show ?thesis
    proof (cases "rb_useJSONFormat body")
      case True
      with jsonStage_retry[where res = res and errorData = errorData and st = st and body = body
          and env = env and url = url and i = i] z \<open>res_status res = 400 \<and> _\<close>
      show ?thesis by (auto dest: append_prefixD)
    next
      case False
      with z \<open>res_status res = 400 \<and> _\<close> show ?thesis by (simp add: jsonStage_no_retry)
    qed
  qed
qed

lemma tryEndpoint_extends:
  "prefix (trace st) (trace (snd (tryEndpoint env url i body st)))"
proof -
  define st1 where "st1 = snd (doRequest env url body st)"
  have t1: "prefix (trace st) (trace st1)" by (simp add: st1_def doRequest_def)
  have a: "prefix (trace st) (trace (snd (returnData env url i d st1)))" for d
    using t1 returnData_frame(3)[where st = st1 and env = env and url = url and i = i and d = d]
    by (metis prefix_order.trans)
  have b: "prefix (trace st) (trace (snd (jsonStage env url i body res errorData st1)))" for res errorData
    using t1 jsonStage_extends[where st = st1 and env = env and url = url and i = i and body = body and res = res and errorData = errorData]
    by (metis prefix_order.trans)
  show ?thesis
    unfolding tryEndpoint_def Let_def split_def st1_def[symmetric]
    using a b t1
    by (simp split: fetch_result.splits parse_result.splits)
qed

lemma failoverLoop_extends:
  "prefix (trace st) (trace (snd (failoverLoop env body i urls errors st)))"
proof (induction urls arbitrary: i errors st)
  case Nil
  then show ?case by simp
next
  case (Cons url urls)
  obtain r st1 where t: "tryEndpoint env url i body st = (r, st1)" by (cases "tryEndpoint env url i body st")
  have p: "prefix (trace st) (trace st1)" using tryEndpoint_extends[where st = st and env = env and url = url and i = i and body = body] t by simp
  show ?case
  proof (cases r)
    case (Inr d)
    then show ?thesis using t p by simp
  next
    case (Inl e)
    then show ?thesis
      using t p Cons.IH[where i = "i + 1" and st = st1
          and errors = "errors @ [(url, messageOf e, categorizeError e)]"]
      by (auto simp: Let_def intro: prefix_order.trans)
  qed
qed

lemma failoverLoop_extends_try:
  "prefix (trace (snd (tryEndpoint env url i body st)))
     (trace (snd (failoverLoop env body i (url # urls) errors st)))"
proof -
  obtain r st1 where t: "tryEndpoint env url i body st = (r, st1)" by (cases "tryEndpoint env url i body st")
  show ?thesis
  proof (cases r)
    case (Inr d)
    then show ?thesis using t by simp
  next
    case (Inl e)
    then show ?thesis
      using t failoverLoop_extends[where st = st1 and env = env and body = body and i = "i + 1"
          and urls = urls and errors = "errors @ [(url, messageOf e, categorizeError e)]"]
      by (auto simp: Let_def)
  qed
qed

text \<open>The handling of a 400 flagged \<open>json\<close>, in its three cases.\<close>

lemma json_400:
  assumes "network env (fetchCount st) url body = Response res"
    and "res_status res = 400" and "res_json res = Parsed errorData"
    and "jd_errorCategory errorData = Some (categoryName JSON)"
    and "categorizeError \<lparr>message = orElse (jd_error errorData) (httpStatusText res),
           status = Some (res_status res)\<rparr> \<notin> {CAPACITY, MODEL_CAPACITY}"
  shows "(1 \<le> jsonErrorCount st \<longrightarrow>
           failoverLoop env body i (url # urls) errors st =
             (Inl (Error (lit ''JSON_THRESHOLD'')),
              st\<lparr>fetchCount := fetchCount st + 1,
                 clockNow := clockNow st + int (latency env (fetchCount st)),
                 trace := trace st @ [Request url body],
                 jsonErrorCount := jsonErrorCount st + 1\<rparr>)) \<and>
         (jsonErrorCount st = 0 \<and> rb_useJSONFormat body \<longrightarrow>
            fetchCount (snd (tryEndpoint env url i body st)) = fetchCount st + 2 \<and>
            jsonErrorCount (snd (tryEndpoint env url i body st)) = 1 \<and>
            prefix (trace st @ [Request url body, Request url (body\<lparr>rb_useJSONFormat := False\<rparr>)])
              (trace (snd (failoverLoop env body i (url # urls) errors st)))) \<and>
         (jsonErrorCount st = 0 \<and> \<not> rb_useJSONFormat body \<longrightarrow>
            tryEndpoint env url i body st =
              (Inl (Error (httpStatusText res @ lit '': '' @
                           orElse (jd_error errorData) (res_text res))),
               st\<lparr>fetchCount := fetchCount st + 1,
                  clockNow := clockNow st + int (latency env (fetchCount st)),
                  trace := trace st @ [Request url body],
                  jsonErrorCount := 1\<rparr>))"
proof -
  define st1 where "st1 = snd (doRequest env url body st)"
  have "\<not> res_ok res" using assms(2) by (simp add: res_ok_def)
  moreover have "jd_errorCategory errorData \<noteq> Some (categoryName MODEL)"
    using assms(4) by (simp add: lit_def)
  ultimately have t: "tryEndpoint env url i body st = jsonStage env url i body res errorData st1"
    unfolding st1_def using assms by (intro tryEndpoint_error_envelope) auto
  have s1: "jsonErrorCount st1 = jsonErrorCount st" "fetchCount st1 = fetchCount st + 1"
    "trace st1 = trace st @ [Request url body]"
    by (simp_all add: st1_def doRequest_def)
  show ?thesis
  proof (intro conjI impI)
    assume "1 \<le> jsonErrorCount st"
    then have "tryEndpoint env url i body st =
        (Inl (Error (lit ''JSON_THRESHOLD'')), st1\<lparr>jsonErrorCount := jsonErrorCount st1 + 1\<rparr>)"
      using t assms(2,4) s1 by (simp add: jsonStage_threshold)
    then have "tryEndpoint env url i body st = (Inl (Error (lit ''JSON_THRESHOLD'')),
              st\<lparr>fetchCount := fetchCount st + 1,
                 clockNow := clockNow st + int (latency env (fetchCount st)),
                 trace := trace st @ [Request url body],
                 jsonErrorCount := jsonErrorCount st + 1\<rparr>)"
      by (simp add: st1_def doRequest_def)
    then show "failoverLoop env body i (url # urls) errors st =
             (Inl (Error (lit ''JSON_THRESHOLD'')),
              st\<lparr>fetchCount := fetchCount st + 1,
                 clockNow := clockNow st + int (latency env (fetchCount st)),
                 trace := trace st @ [Request url body],
                 jsonErrorCount := jsonErrorCount st + 1\<rparr>)"
      by (rule failoverLoop_threshold) simp
  next
    assume a: "jsonErrorCount st = 0 \<and> rb_useJSONFormat body"
    note r = jsonStage_retry[where res = res and errorData = errorData and st = st1
        and body = body and env = env and url = url and i = i, OF assms(2,4)]
    from a r s1 t
    show "fetchCount (snd (tryEndpoint env url i body st)) = fetchCount st + 2" by simp
    from a r s1 t
    show "jsonErrorCount (snd (tryEndpoint env url i body st)) = 1" by simp
    from a r s1 t
    have "prefix (trace st @ [Request url body, Request url (body\<lparr>rb_useJSONFormat := False\<rparr>)])
       (trace (snd (tryEndpoint env url i body st)))" by simp
    then show "prefix (trace st @ [Request url body, Request url (body\<lparr>rb_useJSONFormat := False\<rparr>)])
              (trace (snd (failoverLoop env body i (url # urls) errors st)))"
      using failoverLoop_extends_try[where env = env and url = url and i = i and body = body
          and st = st and urls = urls and errors = errors]
      by (rule prefix_order.trans)
  next
    assume a: "jsonErrorCount st = 0 \<and> \<not> rb_useJSONFormat body"
    then have "tryEndpoint env url i body st =
        (Inl (Error (httpStatusText res @ lit '': '' @ orElse (jd_error errorData) (res_text res))),
         st1\<lparr>jsonErrorCount := 1\<rparr>)"
      using t assms(2,4) s1 by (simp add: jsonStage_no_retry)
    then show "tryEndpoint env url i body st =
              (Inl (Error (httpStatusText res @ lit '': '' @
                           orElse (jd_error errorData) (res_text res))),
               st\<lparr>fetchCount := fetchCount st + 1,
                  clockNow := clockNow st + int (latency env (fetchCount st)),
                  trace := trace st @ [Request url body],
                  jsonErrorCount := 1\<rparr>)"
      by (simp add: st1_def doRequest_def)
  qed
qed

text \<open>
  The answer to the retry is not counted: a second 400 ends the attempt at the endpoint
  with the HTTP error, whatever category it carries.
\<close>

lemma json_retry_400:
  assumes "network env (fetchCount st) url body = Response res"
    and "res_status res = 400" and "res_json res = Parsed errorData"
    and "jd_errorCategory errorData = Some (categoryName JSON)"
    and "categorizeError \<lparr>message = orElse (jd_error errorData) (httpStatusText res),
           status = Some (res_status res)\<rparr> \<notin> {CAPACITY, MODEL_CAPACITY}"
    and "jsonErrorCount st = 0" and "rb_useJSONFormat body"
    and "network env (fetchCount st + 1) url (body\<lparr>rb_useJSONFormat := False\<rparr>) = Response res2"
    and "res_status res2 = 400" and "res_json res2 = Parsed errorData2"
  shows "tryEndpoint env url i body st =
     (Inl (Error (httpStatusText res2 @ lit '': '' @
                  orElse (jd_error errorData2) (res_text res2))),
      st\<lparr>fetchCount := fetchCount st + 2,
         clockNow := clockNow st + int (latency env (fetchCount st)) +
                     int (latency env (fetchCount st + 1)),
         trace := trace st @ [Request url body, Request url (body\<lparr>rb_useJSONFormat := False\<rparr>)],
         jsonErrorCount := 1\<rparr>)"
proof -
  define st1 where "st1 = snd (doRequest env url body st)"
  define body' where "body' = body\<lparr>rb_useJSONFormat := False\<rparr>"
  have "\<not> res_ok res" using assms(2) by (simp add: res_ok_def)
  moreover have "jd_errorCategory errorData \<noteq> Some (categoryName MODEL)"
    using assms(4) by (simp add: lit_def)
  ultimately have t: "tryEndpoint env url i body st = jsonStage env url i body res errorData st1"
    unfolding st1_def using assms(1,3,5) by (intro tryEndpoint_error_envelope) auto
  have s1: "jsonErrorCount st1 = 0" "fetchCount st1 = fetchCount st + 1"
    using assms(6) by (simp_all add: st1_def doRequest_def)
  define S where "S = st\<lparr>fetchCount := fetchCount st + 2,
          clockNow := clockNow st + int (latency env (fetchCount st)) +
                      int (latency env (fetchCount st + 1)),
          trace := trace st @ [Request url body, Request url body'],
          jsonErrorCount := 1\<rparr>"
  have d: "doRequest env url body' (st1\<lparr>jsonErrorCount := 1\<rparr>) = (Response res2, S)"
    using assms(8) by (simp add: st1_def doRequest_def body'_def S_def)
  have r: "retryOutcome (Response res2) res errorData = Inr (res2, errorData2)"
    using assms(9,10) by (simp add: retryOutcome_def res_ok_def)
  note js = jsonStage_retry_eq[where res = res and errorData = errorData and st = st1
        and body = body and env = env and url = url and i = i, OF assms(2,4) s1(1) assms(7),
        folded body'_def]
  have "jsonStage env url i body res errorData st1 =
      rateLimitStage env url i body' res2 errorData2 S"
    unfolding js d r fst_conv snd_conv sum.case ..
  then have "tryEndpoint env url i body st =
     (Inl (Error (httpStatusText res2 @ lit '': '' @
                  orElse (jd_error errorData2) (res_text res2))), S)"
    using assms(9) by (simp add: t rateLimitStage_eq finalStage_def)
  then show ?thesis by (simp add: S_def body'_def)
qed

lemma tryEndpoint_plain_error:
  assumes "network env (fetchCount st) url body = Response res"
    and "\<not> res_ok res" and "res_json res = Parsed errorData"
    and "categorizeError \<lparr>message = orElse (jd_error errorData) (httpStatusText res),
           status = Some (res_status res)\<rparr> \<notin> {CAPACITY, MODEL_CAPACITY}"
    and "jd_errorCategory errorData \<noteq> Some (categoryName MODEL)"
    and "res_status res \<notin> {400, 429, 404}"
  shows "tryEndpoint env url i body st =
     (Inl (Error (httpStatusText res @ lit '': '' @ orElse (jd_error errorData) (res_text res))),
      snd (doRequest env url body st))"
  using assms
  by (simp add: tryEndpoint_error_envelope jsonStage_not_400 rateLimitStage_eq finalStage_def)

lemma example_urls: "endpointUrls (world f) (urlA, [urlB]) = [urlA, urlB]" "urlB \<noteq> urlA"
  by (simp_all add: endpointUrls_def world_def urlA_def urlB_def dedup_def lit_def)

lemma example_world:
  "network (world f) = f" "latency (world f) n = 10"
  by (simp_all add: world_def)

lemma example_post:
  "postToWorkerWithFailover (world f) body manager0 =
     failoverLoop (world f) body 0 [urlA, urlB] [] manager0"
  by (simp add: postToWorkerWithFailover_def manager0_def settings0_def example_urls)

lemma categories:
  "categorizeError \<lparr>message = lit ''bad json'', status = Some 400\<rparr> = JSON"
  "categorizeError (Error (lit ''HTTP 400: bad json'')) = JSON"
  "categorizeError \<lparr>message = lit ''over capacity'', status = Some 400\<rparr> = CAPACITY"
  "categorizeError \<lparr>message = lit ''mixed-script validation failed'', status = Some 422\<rparr> =
     VALIDATION"
  "categorizeError (Error (lit ''HTTP 422: mixed-script validation failed'')) = VALIDATION"
  by (simp_all add: categorizeError_def Error_def Let_def js_includes_def lit_def sublist_code
      toLowerCase_ascii lowerUnit_def)

lemma no_sentinels:
  "\<not> js_includes (lit ''HTTP 400: bad json'') (lit ''RATE_LIMIT_THRESHOLD'')"
  "\<not> js_includes (lit ''HTTP 400: bad json'') (lit ''JSON_THRESHOLD'')"
  "\<not> js_includes (lit ''HTTP 422: mixed-script validation failed'') (lit ''RATE_LIMIT_THRESHOLD'')"
  "\<not> js_includes (lit ''HTTP 422: mixed-script validation failed'') (lit ''JSON_THRESHOLD'')"
  "\<not> js_includes (lit ''All worker endpoints failed'') (lit ''mixed-script validation'')"
  by (simp_all add: js_includes_def lit_def sublist_code)

lemma messages:
  "httpStatusText \<lparr>res_status = 400, res_text = t, res_json = j\<rparr> @ lit '': '' @ lit ''bad json'' =
     lit ''HTTP 400: bad json''"
  "httpStatusText \<lparr>res_status = 422, res_text = t, res_json = j\<rparr> @ lit '': '' @
     lit ''mixed-script validation failed'' = lit ''HTTP 422: mixed-script validation failed''"
  by (simp_all add: httpStatusText_def lit_def)

lemma messageOf_lit: "messageOf (Error (lit (c # s))) = lit (c # s)"
  by (simp add: messageOf_def Error_def lit_def)

lemma netJson_answers:
  "netJson n urlA body =
     Response \<lparr>res_status = 400, res_text = lit ''bad json'', res_json = Parsed jsonErrorDoc\<rparr>"
  "netJson n urlB body = okResponse (rb_words body)"
  by (simp_all add: netJson_def errorResponse_def example_urls jsonErrorDoc_def)

lemma jsonErrorDoc_fields:
  "jd_error jsonErrorDoc = Some (lit ''bad json'')"
  "jd_errorCategory jsonErrorDoc = Some (categoryName JSON)"
  by (simp_all add: jsonErrorDoc_def)

lemma orElse_lit: "orElse (Some (lit (c # s))) d = lit (c # s)"
  by (simp add: orElse_def lit_def)

text \<open>
  C4, as the code has it. When the first response of an attempt at an endpoint is an
  HTTP 400 whose error envelope carries the category \<open>json\<close> (and whose message is not
  classified as a capacity error, which is thrown before), the session JSON-error
  counter is incremented. If it has then reached 2 the whole operation aborts with
  \<open>JSON_THRESHOLD\<close>, no further endpoint being tried. Otherwise, if the request's
  \<open>useJSONFormat\<close> flag is set, the same endpoint is retried once with the flag set to
  false, before any other request of the call (two requests to the endpoint in all),
  and the answer to the retry is not counted, whatever it is: the counter is 1 when the
  attempt ends, and a retry that is answered 400 again ends the attempt with the HTTP
  error of that answer. If the flag is already false there is no retry: the attempt
  ends with the HTTP 400 error after one request.
\<close>

theorem C4_json_400:
  assumes "network env (fetchCount st) url body = Response res"
    and "res_status res = 400" and "res_json res = Parsed errorData"
    and "jd_errorCategory errorData = Some (categoryName JSON)"
    and "categorizeError \<lparr>message = orElse (jd_error errorData) (httpStatusText res),
           status = Some (res_status res)\<rparr> \<notin> {CAPACITY, MODEL_CAPACITY}"
  shows "(1 \<le> jsonErrorCount st \<longrightarrow>
           failoverLoop env body i (url # urls) errors st =
             (Inl (Error (lit ''JSON_THRESHOLD'')),
              st\<lparr>fetchCount := fetchCount st + 1,
                 clockNow := clockNow st + int (latency env (fetchCount st)),
                 trace := trace st @ [Request url body],
                 jsonErrorCount := jsonErrorCount st + 1\<rparr>)) \<and>
         (jsonErrorCount st = 0 \<and> rb_useJSONFormat body \<longrightarrow>
            fetchCount (snd (tryEndpoint env url i body st)) = fetchCount st + 2 \<and>
            jsonErrorCount (snd (tryEndpoint env url i body st)) = 1 \<and>
            prefix (trace st @ [Request url body, Request url (body\<lparr>rb_useJSONFormat := False\<rparr>)])
              (trace (snd (failoverLoop env body i (url # urls) errors st)))) \<and>
         (jsonErrorCount st = 0 \<and> rb_useJSONFormat body \<and>
          network env (fetchCount st + 1) url (body\<lparr>rb_useJSONFormat := False\<rparr>) =
            Response res2 \<and>
          res_status res2 = 400 \<and> res_json res2 = Parsed errorData2 \<longrightarrow>
            tryEndpoint env url i body st =
              (Inl (Error (httpStatusText res2 @ lit '': '' @
                           orElse (jd_error errorData2) (res_text res2))),
               st\<lparr>fetchCount := fetchCount st + 2,
                  clockNow := clockNow st + int (latency env (fetchCount st)) +
                              int (latency env (fetchCount st + 1)),
                  trace := trace st @
                    [Request url body, Request url (body\<lparr>rb_useJSONFormat := False\<rparr>)],
                  jsonErrorCount := 1\<rparr>)) \<and>
         (jsonErrorCount st = 0 \<and> \<not> rb_useJSONFormat body \<longrightarrow>
            tryEndpoint env url i body st =
              (Inl (Error (httpStatusText res @ lit '': '' @
                           orElse (jd_error errorData) (res_text res))),
               st\<lparr>fetchCount := fetchCount st + 1,
                  clockNow := clockNow st + int (latency env (fetchCount st)),
                  trace := trace st @ [Request url body],
                  jsonErrorCount := 1\<rparr>))"
proof -
  note j = json_400[OF assms, where i = i and urls = urls and errors = errors]
  have "jsonErrorCount st = 0 \<and> rb_useJSONFormat body \<and>
          network env (fetchCount st + 1) url (body\<lparr>rb_useJSONFormat := False\<rparr>) =
            Response res2 \<and>
          res_status res2 = 400 \<and> res_json res2 = Parsed errorData2 \<longrightarrow>
            tryEndpoint env url i body st =
              (Inl (Error (httpStatusText res2 @ lit '': '' @
                           orElse (jd_error errorData2) (res_text res2))),
               st\<lparr>fetchCount := fetchCount st + 2,
                  clockNow := clockNow st + int (latency env (fetchCount st)) +
                              int (latency env (fetchCount st + 1)),
                  trace := trace st @
                    [Request url body, Request url (body\<lparr>rb_useJSONFormat := False\<rparr>)],
                  jsonErrorCount := 1\<rparr>)"
    using json_retry_400[OF assms, where i = i and ?res2.0 = res2 and ?errorData2.0 = errorData2]
    by blast
  with j show ?thesis by blast
qed

text \<open>
  The first endpoint answers every request 400 with the category \<open>json\<close>. With the
  counter at 1 the call aborts with \<open>JSON_THRESHOLD\<close> after one request. With the
  counter at 0 and the flag set, the endpoint gets two requests, the second with the
  flag off; its answer, again 400 with the category \<open>json\<close>, leaves the counter at 1 and
  ends the attempt with the HTTP error.
\<close>

theorem C4_json_400_witness:
  "failoverLoop (world netJson) body0 0 [urlA, urlB] [] (manager0\<lparr>jsonErrorCount := 1\<rparr>) =
     (Inl (Error (lit ''JSON_THRESHOLD'')),
      manager0\<lparr>fetchCount := 1, clockNow := 100010, trace := [Request urlA body0],
        jsonErrorCount := 2\<rparr>) \<and>
   fetchCount (snd (tryEndpoint (world netJson) urlA 0 body0 manager0)) = 2 \<and>
   jsonErrorCount (snd (tryEndpoint (world netJson) urlA 0 body0 manager0)) = 1 \<and>
   prefix [Request urlA body0, Request urlA (body0\<lparr>rb_useJSONFormat := False\<rparr>)]
     (trace (snd (failoverLoop (world netJson) body0 0 [urlA, urlB] [] manager0))) \<and>
   tryEndpoint (world netJson) urlA 0 body0 manager0 =
     (Inl (Error (lit ''HTTP 400: bad json'')),
      manager0\<lparr>fetchCount := 2, clockNow := 100020,
        trace := [Request urlA body0, Request urlA (body0\<lparr>rb_useJSONFormat := False\<rparr>)],
        jsonErrorCount := 1\<rparr>)"
proof -
  have m: "fetchCount manager0 = 0" "clockNow manager0 = 100000" "trace manager0 = []"
    "jsonErrorCount manager0 = 0" "rb_useJSONFormat body0"
    by (simp_all add: manager0_def body0_def)
  note t = C4_json_400[where env = "world netJson" and url = urlA and body = body0 and i = 0
      and urls = "[urlB]" and errors = "[]"
      and res = "\<lparr>res_status = 400, res_text = lit ''bad json'', res_json = Parsed jsonErrorDoc\<rparr>"
      and errorData = jsonErrorDoc
      and ?res2.0 = "\<lparr>res_status = 400, res_text = lit ''bad json'',
                      res_json = Parsed jsonErrorDoc\<rparr>"
      and ?errorData2.0 = jsonErrorDoc]
  show ?thesis
    using t[where st = "manager0\<lparr>jsonErrorCount := 1\<rparr>", THEN conjunct1]
      t[where st = manager0, THEN conjunct2, THEN conjunct1]
      t[where st = manager0, THEN conjunct2, THEN conjunct2, THEN conjunct1]
    by (simp add: example_world netJson_answers jsonErrorDoc_fields orElse_lit categories m
        messages)
qed

lemma prefix_take: "prefix xs ys \<Longrightarrow> take (length xs) ys = xs"
  by (auto simp: prefix_def)

lemma manager0_fields:
  "fetchCount manager0 = 0" "clockNow manager0 = 100000" "trace manager0 = []"
  "jsonErrorCount manager0 = 0" "rateLimitErrorCount manager0 = 0"
  by (simp_all add: manager0_def)

text \<open>
  C4 as stated fails in three ways. A request whose \<open>useJSONFormat\<close> flag is already
  false is not retried on the first 400 flagged \<open>json\<close>: the first two requests of the
  call go to the first and to the second endpoint. A 400 flagged \<open>json\<close> whose message
  is classified as a capacity error leaves the counter at 0. And the answer to the
  retry is not counted: when the first endpoint answers both the request and the retry
  400 with the category \<open>json\<close>, the call does not abort; it goes on to the second
  endpoint and returns its document, with the counter at 1.
\<close>

theorem C4_no_retry_counterexample:
  "jsonErrorCount manager0 = 0 \<and> \<not> rb_useJSONFormat body0F \<and>
   network (world netJson) 0 urlA body0F = errorResponse 400 ''bad json'' (Some (lit ''json'')) \<and>
   take 2 (trace (snd (postToWorkerWithFailover (world netJson) body0F manager0))) =
     [Request urlA body0F, Request urlB body0F] \<and>
   network (world netCapacity) 0 urlA body0 =
     errorResponse 400 ''over capacity'' (Some (lit ''json'')) \<and>
   jsonErrorCount (snd (tryEndpoint (world netCapacity) urlA 0 body0 manager0)) = 0 \<and>
   rb_useJSONFormat body0 \<and>
   network (world netJson) 0 urlA body0 = errorResponse 400 ''bad json'' (Some (lit ''json'')) \<and>
   network (world netJson) 1 urlA body0F = errorResponse 400 ''bad json'' (Some (lit ''json'')) \<and>
   take 3 (trace (snd (postToWorkerWithFailover (world netJson) body0 manager0))) =
     [Request urlA body0, Request urlA body0F, Request urlB body0] \<and>
   fst (postToWorkerWithFailover (world netJson) body0 manager0) =
     Inr \<lparr>jd_error = None, jd_errorCategory = None, jd_stringified = [], jd_success = True,
          jd_translations = [(lit ''cat'', bonjour)]\<rparr> \<and>
   jsonErrorCount (snd (postToWorkerWithFailover (world netJson) body0 manager0)) = 1"
proof -
  define st1 where "st1 = manager0\<lparr>fetchCount := 1, clockNow := 100010,
      trace := [Request urlA body0F], jsonErrorCount := 1\<rparr>"
  have f: "\<not> rb_useJSONFormat body0F" by (simp add: body0F_def)
  have "tryEndpoint (world netJson) urlA 0 body0F manager0 =
      (Inl (Error (lit ''HTTP 400: bad json'')), st1)"
    using json_400[where env = "world netJson" and url = urlA and body = body0F and i = 0
      and urls = "[urlB]" and errors = "[]" and st = manager0
      and res = "\<lparr>res_status = 400, res_text = lit ''bad json'', res_json = Parsed jsonErrorDoc\<rparr>"
      and errorData = jsonErrorDoc, THEN conjunct2, THEN conjunct2] f
    by (simp add: example_world netJson_answers jsonErrorDoc_fields orElse_lit categories
        manager0_fields messages st1_def)
  then have a: "failoverLoop (world netJson) body0F 0 [urlA, urlB] [] manager0 =
      failoverLoop (world netJson) body0F (Suc 0) [urlB]
        [(urlA, lit ''HTTP 400: bad json'', JSON)] st1"
    using failoverLoop_next[where env = "world netJson" and url = urlA and i = 0
        and body = body0F and st = manager0 and e = "Error (lit ''HTTP 400: bad json'')"
        and st' = st1 and urls = "[urlB]" and errors = "[]"]
    by (simp add: categories messageOf_lit no_sentinels)
  define d where "d = \<lparr>jd_error = None, jd_errorCategory = None, jd_stringified = [],
         jd_success = True, jd_translations = map (\<lambda>w. (w, bonjour)) (rb_words body0F)\<rparr>"
  define st2 where "st2 = snd (doRequest (world netJson) urlB body0F st1)"
  have "tryEndpoint (world netJson) urlB (Suc 0) body0F st1 = returnData (world netJson) urlB (Suc 0) d st2"
    unfolding st2_def
    by (rule tryEndpoint_ok[where res = "\<lparr>res_status = 200, res_text = [], res_json = Parsed d\<rparr>"])
      (simp_all add: example_world netJson_answers okResponse_def d_def res_ok_def)
  then have b: "snd (failoverLoop (world netJson) body0F (Suc 0) [urlB]
        [(urlA, lit ''HTTP 400: bad json'', JSON)] st1) =
      snd (returnData (world netJson) urlB (Suc 0) d st2)"
    by (simp add: returnData_def)
  have t2: "trace st2 = [Request urlA body0F, Request urlB body0F]"
    by (simp add: st2_def st1_def doRequest_def)
  have "prefix (trace st2) (trace (snd (returnData (world netJson) urlB (Suc 0) d st2)))"
    by (rule returnData_frame)
  from prefix_take[OF this]
  have "take 2 (trace (snd (postToWorkerWithFailover (world netJson) body0F manager0))) =
     [Request urlA body0F, Request urlB body0F]"
    by (simp add: example_post a b t2 numeral_2_eq_2 del: failoverLoop.simps)
  moreover have "jsonErrorCount (snd (tryEndpoint (world netCapacity) urlA 0 body0 manager0)) = 0"
    by (simp add: tryEndpoint_def doRequest_def example_world netCapacity_def errorResponse_def
        res_ok_def orElse_lit categories manager0_fields Let_def)
  moreover
  define stA where "stA = manager0\<lparr>fetchCount := 2, clockNow := 100020,
      trace := [Request urlA body0, Request urlA body0F], jsonErrorCount := 1\<rparr>"
  have g: "rb_useJSONFormat body0" by (simp add: body0_def)
  have "tryEndpoint (world netJson) urlA 0 body0 manager0 =
      (Inl (Error (lit ''HTTP 400: bad json'')), stA)"
    using json_retry_400[where env = "world netJson" and url = urlA and body = body0 and i = 0
      and st = manager0
      and res = "\<lparr>res_status = 400, res_text = lit ''bad json'', res_json = Parsed jsonErrorDoc\<rparr>"
      and errorData = jsonErrorDoc
      and ?res2.0 = "\<lparr>res_status = 400, res_text = lit ''bad json'',
                      res_json = Parsed jsonErrorDoc\<rparr>"
      and ?errorData2.0 = jsonErrorDoc] g
    by (simp add: example_world netJson_answers jsonErrorDoc_fields orElse_lit categories
        manager0_fields messages stA_def body0F_def)
  then have a': "failoverLoop (world netJson) body0 0 [urlA, urlB] [] manager0 =
      failoverLoop (world netJson) body0 (Suc 0) [urlB]
        [(urlA, lit ''HTTP 400: bad json'', JSON)] stA"
    using failoverLoop_next[where env = "world netJson" and url = urlA and i = 0
        and body = body0 and st = manager0 and e = "Error (lit ''HTTP 400: bad json'')"
        and st' = stA and urls = "[urlB]" and errors = "[]"]
    by (simp add: categories messageOf_lit no_sentinels)
  define d' where "d' = \<lparr>jd_error = None, jd_errorCategory = None, jd_stringified = [],
         jd_success = True, jd_translations = [(lit ''cat'', bonjour)]\<rparr>"
  define stB where "stB = snd (doRequest (world netJson) urlB body0 stA)"
  have "tryEndpoint (world netJson) urlB (Suc 0) body0 stA =
      returnData (world netJson) urlB (Suc 0) d' stB"
    unfolding stB_def
    by (rule tryEndpoint_ok[where res = "\<lparr>res_status = 200, res_text = [], res_json = Parsed d'\<rparr>"])
      (simp_all add: example_world netJson_answers okResponse_def d'_def res_ok_def body0_def)
  then have b': "failoverLoop (world netJson) body0 (Suc 0) [urlB]
        [(urlA, lit ''HTTP 400: bad json'', JSON)] stA =
      returnData (world netJson) urlB (Suc 0) d' stB"
    by (simp add: returnData_def)
  have tB: "trace stB = [Request urlA body0, Request urlA body0F, Request urlB body0]"
    "jsonErrorCount stB = 1"
    by (simp_all add: stB_def stA_def doRequest_def)
  have "prefix (trace stB) (trace (snd (returnData (world netJson) urlB (Suc 0) d' stB)))"
    by (rule returnData_frame)
  from prefix_take[OF this]
  have "take 3 (trace (snd (postToWorkerWithFailover (world netJson) body0 manager0))) =
     [Request urlA body0, Request urlA body0F, Request urlB body0]"
    by (simp add: example_post a' b' tB numeral_3_eq_3 del: failoverLoop.simps)
  moreover have "fst (postToWorkerWithFailover (world netJson) body0 manager0) = Inr d'"
    by (simp add: example_post a' b' returnData_def del: failoverLoop.simps)
  moreover have "jsonErrorCount (snd (postToWorkerWithFailover (world netJson) body0 manager0)) = 1"
    by (simp add: example_post a' b' returnData_frame tB del: failoverLoop.simps)
  ultimately show ?thesis
    by (simp add: f g manager0_fields example_world netJson_def netCapacity_def d'_def
        example_urls)
qed

text \<open>
  C5 on the code. Both endpoints fail with a mixed-script validation error. The error
  that the failover client raises has the fixed message \<open>All worker endpoints failed\<close>:
  it names no endpoint, message or category. The enumeration is in the summary that is
  logged. The test of the orchestrator for a mixed-script failure, which looks for
  \<open>mixed-script validation\<close> in the message of the raised error, is false.
\<close>

theorem C5_aggregate_failure_message:
  "fst (postToWorkerWithFailover (world netMixed) body0 manager0) =
     Inl (Error (lit ''All worker endpoints failed'')) \<and>
   trace (snd (postToWorkerWithFailover (world netMixed) body0 manager0)) =
     [Request urlA body0, Request urlB body0,
      EndpointsFailed
        [(urlA, lit ''HTTP 422: mixed-script validation failed'', VALIDATION),
         (urlB, lit ''HTTP 422: mixed-script validation failed'', VALIDATION)]] \<and>
   \<not> isMixedScriptError (lit ''All worker endpoints failed'')"
proof -
  define ed where "ed = \<lparr>jd_error = Some (lit ''mixed-script validation failed''),
      jd_errorCategory = None, jd_stringified = lit ''mixed-script validation failed'',
      jd_success = False, jd_translations = []\<rparr>"
  define res where "res = \<lparr>res_status = 422, res_text = lit ''mixed-script validation failed'',
      res_json = Parsed ed\<rparr>"
  have n: "network (world netMixed) k url body = Response res" for k url body
    by (simp add: example_world netMixed_def errorResponse_def res_def ed_def)
  have e: "tryEndpoint (world netMixed) url i body0 st =
      (Inl (Error (lit ''HTTP 422: mixed-script validation failed'')),
       snd (doRequest (world netMixed) url body0 st))" for url i st
    using tryEndpoint_plain_error[where env = "world netMixed" and url = url and i = i
        and body = body0 and st = st and res = res and errorData = ed, OF n]
    by (simp add: res_def ed_def res_ok_def orElse_lit categories messages)
  have s: "failoverLoop (world netMixed) body0 i (url # urls) errors st =
      failoverLoop (world netMixed) body0 (i + 1) urls
        (errors @ [(url, lit ''HTTP 422: mixed-script validation failed'', VALIDATION)])
        (snd (doRequest (world netMixed) url body0 st))" for url i st urls errors
    using failoverLoop_next[where env = "world netMixed" and url = url and i = i
        and body = body0 and st = st
        and e = "Error (lit ''HTTP 422: mixed-script validation failed'')"
        and st' = "snd (doRequest (world netMixed) url body0 st)" and urls = urls
        and errors = errors, OF e]
    by (simp add: categories messageOf_lit no_sentinels)
  show ?thesis
    unfolding example_post s
    by (simp add: doRequest_def manager0_fields isMixedScriptError_def no_sentinels)
qed

section \<open>Properties of a run\<close>

text \<open>
  The failover client sends requests for the words of its body only, and saves no
  partial results.
\<close>

lemma onlySends_refl:
  "trace st' = trace st \<Longrightarrow> allResults st' = allResults st \<Longrightarrow> onlySends S st st'"
  by (simp add: onlySends_def)

lemma onlySends_trans:
  assumes "onlySends S st st1" "onlySends S st1 st2"
  shows "onlySends S st st2"
proof -
  from assms obtain a b where
    "trace st1 = trace st @ a" "list_all (sends S) a"
    "trace st2 = trace st1 @ b" "list_all (sends S) b"
    unfolding onlySends_def by blast
  then have "trace st2 = trace st @ (a @ b)" "list_all (sends S) (a @ b)"
    by auto
  moreover have "allResults st2 = allResults st" using assms by (simp add: onlySends_def)
  ultimately show ?thesis unfolding onlySends_def by blast
qed

lemma sends_mono: "sends S e \<Longrightarrow> S \<subseteq> T \<Longrightarrow> sends T e"
  by (cases e) auto

lemma onlySends_mono: "onlySends S st st' \<Longrightarrow> S \<subseteq> T \<Longrightarrow> onlySends T st st'"
  unfolding onlySends_def list_all_iff using sends_mono by blast

lemma onlySends_event:
  "trace st' = trace st @ [e] \<Longrightarrow> sends S e \<Longrightarrow>
   allResults st' = allResults st \<Longrightarrow> onlySends S st st'"
  by (simp add: onlySends_def)

lemma doRequest_sends:
  "set (rb_words body) \<subseteq> S \<Longrightarrow> onlySends S st (snd (doRequest env url body st))"
  by (rule onlySends_event[where e = "Request url body"]) (simp_all add: doRequest_def)

lemma returnData_sends: "onlySends S st (snd (returnData env url i d st))"
  by (auto simp: returnData_def updateEndpointConfig_def saveSettings_def Let_def
      intro: onlySends_refl onlySends_event[where e = "SaveSettings s" for s])

lemma rateLimitStage_sends:
  "onlySends S st (snd (rateLimitStage env url i body res errorData st))"
  by (rule onlySends_refl) (simp_all add: rateLimitStage_eq finalStage_def)

lemma jsonStage_sends:
  assumes "set (rb_words body) \<subseteq> S"
  shows "onlySends S st (snd (jsonStage env url i body res errorData st))"
proof (cases "res_status res = 400 \<and> jd_errorCategory errorData = Some (categoryName JSON)")
  case False
  then have "jsonStage env url i body res errorData st =
      rateLimitStage env url i body res errorData st"
    by (auto simp: jsonStage_def)
  then show ?thesis by (simp add: rateLimitStage_sends)
next
  case True
  show ?thesis
  proof (cases "1 \<le> jsonErrorCount st")
    case True
    with \<open>res_status res = 400 \<and> _\<close> show ?thesis
      by (simp add: jsonStage_threshold onlySends_refl)
  next
    case False
    then have z: "jsonErrorCount st = 0" by simp
    show ?thesis
    proof (cases "rb_useJSONFormat body")
      case False
      with z \<open>res_status res = 400 \<and> _\<close> show ?thesis
        by (simp add: jsonStage_no_retry onlySends_refl)
    next
      case True
      define body' where "body' = body\<lparr>rb_useJSONFormat := False\<rparr>"
      define st2 where "st2 = snd (doRequest env url body' (st\<lparr>jsonErrorCount := 1\<rparr>))"
      define r where "r = fst (doRequest env url body' (st\<lparr>jsonErrorCount := 1\<rparr>))"
      have "onlySends S st (st\<lparr>jsonErrorCount := 1\<rparr>)" by (rule onlySends_refl) simp_all
      moreover have "onlySends S (st\<lparr>jsonErrorCount := 1\<rparr>) st2"
        unfolding st2_def using assms by (intro doRequest_sends) (simp add: body'_def)
      ultimately have b: "onlySends S st st2" by (rule onlySends_trans)
      have c1: "res_status res = 400"
        and c2: "jd_errorCategory errorData = Some (categoryName JSON)"
        using \<open>res_status res = 400 \<and> _\<close> by simp_all
      note js = jsonStage_retry_eq[OF c1 c2 z True, of env url i, folded body'_def,
          folded st2_def r_def]
      show ?thesis
        unfolding js using b
        by (auto split: sum.splits intro: onlySends_trans returnData_sends rateLimitStage_sends)
    qed
  qed
qed

lemma tryEndpoint_sends:
  assumes "set (rb_words body) \<subseteq> S"
  shows "onlySends S st (snd (tryEndpoint env url i body st))"
proof -
  define st1 where "st1 = snd (doRequest env url body st)"
  have a: "onlySends S st st1" unfolding st1_def using assms by (rule doRequest_sends)
  have b: "onlySends S st (snd (returnData env url i d st1))" for d
    using a by (rule onlySends_trans) (rule returnData_sends)
  have c: "onlySends S st (snd (jsonStage env url i body res errorData st1))" for res errorData
    using a by (rule onlySends_trans) (rule jsonStage_sends[OF assms])
  show ?thesis
    unfolding tryEndpoint_def Let_def split_def st1_def[symmetric]
    using a b c by (simp split: fetch_result.splits parse_result.splits)
qed

lemma failoverLoop_sends:
  assumes "set (rb_words body) \<subseteq> S"
  shows "onlySends S st (snd (failoverLoop env body i urls errors st))"
proof (induction urls arbitrary: i errors st)
  case Nil
  show ?case by (rule onlySends_event[where e = "EndpointsFailed errors"]) simp_all
next
  case (Cons url urls)
  obtain r st1 where t: "tryEndpoint env url i body st = (r, st1)"
    by (cases "tryEndpoint env url i body st")
  have p: "onlySends S st st1"
    using tryEndpoint_sends[OF assms, where st = st and env = env and url = url and i = i] t
    by simp
  show ?case
  proof (cases r)
    case (Inr d)
    then show ?thesis using t p by simp
  next
    case (Inl e)
    then show ?thesis
      using t p Cons.IH[where i = "i + 1" and st = st1
          and errors = "errors @ [(url, messageOf e, categorizeError e)]"]
      by (auto simp: Let_def intro: onlySends_trans)
  qed
qed

text \<open>
  The document that the client returns is the body of a response to one of its requests.
\<close>

lemma retryOutcome_answer:
  assumes "retryOutcome (fst (doRequest env url body st)) res errorData = Inl d"
  shows "answerTo env (rb_words body) d"
  using assms unfolding retryOutcome_def doRequest_def answerTo_def
  by (auto split: fetch_result.splits parse_result.splits if_splits)

lemma rateLimitStage_fails: "fst (rateLimitStage env url i body res errorData st) \<noteq> Inr d"
  by (simp add: rateLimitStage_eq finalStage_def)

lemma jsonStage_answer:
  assumes "fst (jsonStage env url i body res errorData st) = Inr d"
  shows "answerTo env (rb_words body) d"
proof (cases "res_status res = 400 \<and> jd_errorCategory errorData = Some (categoryName JSON) \<and>
    jsonErrorCount st = 0 \<and> rb_useJSONFormat body")
  case True
  define body' where "body' = body\<lparr>rb_useJSONFormat := False\<rparr>"
  define st2 where "st2 = snd (doRequest env url body' (st\<lparr>jsonErrorCount := 1\<rparr>))"
  define r where "r = fst (doRequest env url body' (st\<lparr>jsonErrorCount := 1\<rparr>))"
  from True have c: "res_status res = 400" "jd_errorCategory errorData = Some (categoryName JSON)"
    "jsonErrorCount st = 0" "rb_useJSONFormat body" by simp_all
  note js = jsonStage_retry_eq[OF c, of env url i, folded body'_def, folded st2_def r_def]
  show ?thesis
  proof (cases "retryOutcome r res errorData")
    case (Inl d')
    with assms js have "d' = d" by (simp add: returnData_def)
    with Inl have "answerTo env (rb_words body') d"
      using retryOutcome_answer[of env url body' "st\<lparr>jsonErrorCount := 1\<rparr>" res errorData d]
      by (simp add: r_def)
    then show ?thesis by (simp add: body'_def)
  next
    case (Inr p)
    with assms js show ?thesis by (simp add: rateLimitStage_fails)
  qed
next
  case False
  have "fst (jsonStage env url i body res errorData st) \<noteq> Inr d"
    using False
    by (auto simp: jsonStage_def Let_def rateLimitStage_fails)
  with assms show ?thesis by simp
qed

lemma tryEndpoint_answer:
  assumes "fst (tryEndpoint env url i body st) = Inr d"
  shows "answerTo env (rb_words body) d"
proof -
  define st1 where "st1 = snd (doRequest env url body st)"
  have n: "fst (doRequest env url body st) = network env (fetchCount st) url body"
    by (simp add: doRequest_def)
  show ?thesis
    using assms jsonStage_answer[of env url i body _ _ st1 d]
    unfolding tryEndpoint_def Let_def split_def st1_def[symmetric] n
    by (auto simp: answerTo_def returnData_def split: fetch_result.splits parse_result.splits if_splits)
qed

lemma failoverLoop_answer:
  assumes "fst (failoverLoop env body i urls errors st) = Inr d"
  shows "answerTo env (rb_words body) d"
  using assms
proof (induction urls arbitrary: i errors st)
  case Nil
  then show ?case by simp
next
  case (Cons url urls)
  obtain r st1 where t: "tryEndpoint env url i body st = (r, st1)"
    by (cases "tryEndpoint env url i body st")
  show ?case
  proof (cases r)
    case (Inr d')
    with t Cons.prems have "d' = d" by simp
    with Inr t tryEndpoint_answer[of env url i body st d] show ?thesis by simp
  next
    case (Inl e)
    with t Cons.prems Cons.IH[where i = "i + 1" and st = st1
          and errors = "errors @ [(url, messageOf e, categorizeError e)]"]
    show ?thesis by (auto simp: Let_def split: if_splits)
  qed
qed

lemma keys_mapSet: "fst ` set (mapSet w r m) = insert w (fst ` set m)"
  by (simp add: mapSet_def dom_update)

lemma keys_fold_mapSet:
  "fst ` set (fold (\<lambda>(w, r) m. mapSet w r m) entries m) = fst ` set entries \<union> fst ` set m"
  by (induction entries arbitrary: m) (simp_all add: split_def keys_mapSet)

lemma keys_mapOfEntries: "fst ` set (mapOfEntries entries) = fst ` set entries"
  by (simp add: mapOfEntries_def keys_fold_mapSet)

lemma callCloudflareWorkerDirect_sends:
  "onlySends (set words) st
     (snd (callCloudflareWorkerDirect env words sourceLang targetLang st))"
proof -
  define body where "body = \<lparr>rb_words = words, rb_sourceLang = sourceLang, rb_targetLang = targetLang,
             rb_model = groqModel (settings st),
             rb_useJSONFormat = useJSONFormat (settings st)\<rparr>"
  have "onlySends (set words) st (snd (postToWorkerWithFailover env body st))"
    by (auto simp: postToWorkerWithFailover_def body_def split: option.splits
        intro: onlySends_refl failoverLoop_sends)
  then show ?thesis
    unfolding callCloudflareWorkerDirect_def Let_def body_def[symmetric]
    by (auto split: prod.splits sum.splits)
qed

lemma callCloudflareWorkerDirect_keys:
  assumes "fst (callCloudflareWorkerDirect env words sourceLang targetLang st) = Inr results"
    and "answersAskedWords env"
  shows "fst ` set results \<subseteq> set words"
proof -
  define body where "body = \<lparr>rb_words = words, rb_sourceLang = sourceLang, rb_targetLang = targetLang,
             rb_model = groqModel (settings st),
             rb_useJSONFormat = useJSONFormat (settings st)\<rparr>"
  obtain r st1 where p: "postToWorkerWithFailover env body st = (r, st1)"
    by (cases "postToWorkerWithFailover env body st")
  show ?thesis
  proof (cases r)
    case (Inl e)
    with assms(1) p show ?thesis
      unfolding callCloudflareWorkerDirect_def Let_def body_def[symmetric] by simp
  next
    case (Inr d)
    with p have "fst (postToWorkerWithFailover env body st) = Inr d" by simp
    then obtain endpoints where
      "fst (failoverLoop env body 0 (endpointUrls env endpoints) [] st) = Inr d"
      by (cases "remoteConfig (settings st)") (auto simp: postToWorkerWithFailover_def)
    from failoverLoop_answer[OF this] have "answerTo env words d"
      by (simp add: body_def)
    with assms(2) have k: "fst ` set (jd_translations d) \<subseteq> set words"
      unfolding answerTo_def answersAskedWords_def by blast
    from assms(1) p Inr have "results = mapOfEntries (jd_translations d)"
      unfolding callCloudflareWorkerDirect_def Let_def body_def[symmetric]
      by (auto split: if_splits)
    with k show ?thesis by (simp add: keys_mapOfEntries)
  qed
qed

lemma covers_mono: "covers S K e \<Longrightarrow> S \<subseteq> T \<Longrightarrow> K \<subseteq> L \<Longrightarrow> covers T L e"
  by (cases e) auto

lemma sends_covers: "sends S e \<Longrightarrow> covers S K e"
  by (cases e) auto

lemma batchStep_refl:
  "trace st' = trace st \<Longrightarrow> allResults st' = allResults st \<Longrightarrow> batchStep env S st st'"
  by (simp add: batchStep_def)

lemma onlySends_batchStep: "onlySends S st st' \<Longrightarrow> batchStep env S st st'"
  unfolding onlySends_def batchStep_def list_all_iff using sends_covers by auto

lemma batchStep_trans:
  assumes "batchStep env S st st1" "batchStep env S st1 st2"
  shows "batchStep env S st st2"
proof -
  from assms obtain a b where
    a: "trace st1 = trace st @ a" "list_all (covers S (fst ` set (allResults st1))) a"
    and b: "trace st2 = trace st1 @ b" "list_all (covers S (fst ` set (allResults st2))) b"
    unfolding batchStep_def by blast
  have k: "fst ` set (allResults st1) \<subseteq> fst ` set (allResults st2)"
    "fst ` set (allResults st) \<subseteq> fst ` set (allResults st1)"
    using assms unfolding batchStep_def by blast+
  have "list_all (covers S (fst ` set (allResults st2))) a"
    using a(2) k(1) unfolding list_all_iff by (blast intro: covers_mono)
  with a b have "trace st2 = trace st @ (a @ b)"
    "list_all (covers S (fst ` set (allResults st2))) (a @ b)" by auto
  moreover have "fst ` set (allResults st) \<subseteq> fst ` set (allResults st2)" using k by blast
  moreover have "answersAskedWords env \<longrightarrow>
        (\<forall>W. W \<notin> S \<longrightarrow> map_of (allResults st2) W = map_of (allResults st) W)"
    using assms unfolding batchStep_def by simp
  ultimately show ?thesis unfolding batchStep_def by blast
qed

lemma batchStep_mono:
  assumes "batchStep env S st st'" "S \<subseteq> T"
  shows "batchStep env T st st'"
proof -
  from assms(1) obtain a where
    a: "trace st' = trace st @ a" "list_all (covers S (fst ` set (allResults st'))) a"
    unfolding batchStep_def by blast
  have "list_all (covers T (fst ` set (allResults st'))) a"
    using a(2) assms(2) unfolding list_all_iff by (blast intro: covers_mono)
  with a(1) assms show ?thesis unfolding batchStep_def by blast
qed

lemma saved_batchStep:
  assumes "trace st' = trace st @ evs" "list_all (covers S (fst ` set (allResults st'))) evs"
    "allResults st' = allResults st"
  shows "batchStep env S st st'"
  using assms unfolding batchStep_def by auto

text \<open>
  The cache: a result that passes \<open>isValidTranslation\<close> is not the all-empty sentinel;
  a lookup leaves every entry that has not expired where it is; and the lookup of a word
  with a valid entry that has not expired returns its result.
\<close>

lemma valid_not_empty: "isValidTranslation c \<Longrightarrow> \<not> isEmptyTranslation c"
  by (auto simp: isValidTranslation_def isEmptyTranslation_def blank_def split: option.splits)



lemma map_of_mapSet: "map_of (mapSet w c m) k = (if k = w then Some c else map_of m k)"
  by (simp add: mapSet_def update_conv)

text \<open>
  The loop over the words: what it adds to the map and to the list are words of its
  input, and a word with a valid entry goes into the map, not into the list.
\<close>

lemma splitCached_frame:
  assumes "splitCached env ws results uncached st = (err, results', uncached', st')"
  shows "trace st' = trace st \<and> allResults st' = allResults st \<and>
     set uncached' \<subseteq> set uncached \<union> set ws \<and>
     fst ` set results' \<subseteq> fst ` set results \<union> set ws"
  using assms
proof (induction ws arbitrary: results uncached st)
  case Nil
  then show ?case by simp
next
  case (Cons w ws)
  show ?case
  proof (cases "getCachedResult (cacheTTLHours (settings st)) (clockNow st) (pluginCacheStore st) w")
    case Throws
    with Cons.prems show ?thesis by auto
  next
    case (Returns p)
    obtain cached store where p: "p = (cached, store)" by (cases p)
    define st1 where "st1 = st\<lparr>pluginCacheStore := store\<rparr>"
    have f: "trace st1 = trace st" "allResults st1 = allResults st" by (simp_all add: st1_def)
    show ?thesis
    proof (cases "\<exists>c. cached = Some c \<and> isValidTranslation c")
      case True
      then obtain c where c: "cached = Some c" "isValidTranslation c" by blast
      with Cons.prems Returns p
      have "splitCached env ws (mapSet w c results) uncached st1 = (err, results', uncached', st')"
        by (simp add: st1_def)
      from Cons.IH[OF this] f show ?thesis by (auto simp: keys_mapSet)
    next
      case False
      with Cons.prems Returns p
      have "splitCached env ws results (uncached @ [w]) st1 = (err, results', uncached', st')"
        by (cases cached) (auto simp: st1_def Let_def)
      from Cons.IH[OF this] f show ?thesis by auto
    qed
  qed
qed


lemma cacheValid_frame:
  "trace (cacheValid newResults st) = trace st \<and>
   allResults (cacheValid newResults st) = allResults st"
  unfolding cacheValid_def
  by (induction newResults arbitrary: st) (simp_all add: split_def)

lemma processSingleBatchWithRetry_sends:
  "onlySends (set batch) st
     (snd (processSingleBatchWithRetry env batch sourceLang targetLang st))"
  "fst (processSingleBatchWithRetry env batch sourceLang targetLang st) = Inr m \<Longrightarrow>
   answersAskedWords env \<Longrightarrow> fst ` set m \<subseteq> set batch"
proof -
  obtain err cachedResults uncachedWords st1 where
    sp: "splitCached env batch [] [] st = (err, cachedResults, uncachedWords, st1)"
    by (metis prod_cases4)
  note f = splitCached_frame[OF sp]
  have u: "set uncachedWords \<subseteq> set batch" and kc: "fst ` set cachedResults \<subseteq> set batch"
    using f by simp_all
  have a: "onlySends (set batch) st st1" using f by (simp add: onlySends_refl)
  obtain r st2 where
    cc: "callCloudflareWorkerDirect env uncachedWords sourceLang targetLang st1 = (r, st2)"
    by (cases "callCloudflareWorkerDirect env uncachedWords sourceLang targetLang st1")
  have "onlySends (set uncachedWords) st1 st2"
    using callCloudflareWorkerDirect_sends[of uncachedWords st1 env sourceLang targetLang] cc
    by simp
  then have "onlySends (set batch) st1 st2" using u by (rule onlySends_mono)
  with a have b: "onlySends (set batch) st st2" by (rule onlySends_trans)
  have c: "onlySends (set batch) st (cacheValid n st2)" for n
    using b by (rule onlySends_trans) (simp add: onlySends_refl cacheValid_frame)
  have run: "processSingleBatchWithRetry env batch sourceLang targetLang st =
     (case err of
        Some e \<Rightarrow> (Inl e, st1)
      | None \<Rightarrow>
          if uncachedWords = [] then (Inr cachedResults, st1)
          else
            (case r of
               Inl e \<Rightarrow> (Inl e, st2)
             | Inr newResults \<Rightarrow>
                 (Inr (mapOfEntries (cachedResults @ newResults)), cacheValid newResults st2)))"
    by (cases err; cases r) (simp_all add: processSingleBatchWithRetry_def sp cc)
  show "onlySends (set batch) st
     (snd (processSingleBatchWithRetry env batch sourceLang targetLang st))"
    unfolding run using a b c by (cases err; cases r) simp_all
  assume m: "fst (processSingleBatchWithRetry env batch sourceLang targetLang st) = Inr m"
    and h: "answersAskedWords env"
  show "fst ` set m \<subseteq> set batch"
  proof (cases "err = None \<and> uncachedWords \<noteq> []")
    case False
    with m kc show ?thesis unfolding run by (cases err) (auto split: if_splits)
  next
    case True
    with m obtain newResults where r: "r = Inr newResults"
      and mm: "m = mapOfEntries (cachedResults @ newResults)"
      unfolding run by (cases r) auto
    from r cc have "fst (callCloudflareWorkerDirect env uncachedWords sourceLang targetLang st1) =
        Inr newResults" by simp
    from callCloudflareWorkerDirect_keys[OF this h] u kc show ?thesis
      by (auto simp: mm keys_mapOfEntries)
  qed
qed

lemma awaitSlot_frame:
  "trace (awaitSlot st) = trace st \<and> allResults (awaitSlot st) = allResults st"
  by (simp add: awaitSlot_def split: option.splits)

lemma mergeResults_frame:
  "trace (mergeResults batchResults st) = trace st \<and>
   fst ` set (allResults st) \<subseteq> fst ` set (allResults (mergeResults batchResults st)) \<and>
   (W \<notin> fst ` set batchResults \<longrightarrow>
      map_of (allResults (mergeResults batchResults st)) W = map_of (allResults st) W)"
  unfolding mergeResults_def
proof (induction batchResults arbitrary: st)
  case Nil
  then show ?case by simp
next
  case (Cons p ps)
  define st1 where "st1 = st\<lparr>allResults := mapSet (fst p) (snd p) (allResults st),
      pluginCacheStore := setCachedResult (clockNow st) (pluginCacheStore st) (fst p) (snd p)\<rparr>"
  have s: "trace st1 = trace st" "fst ` set (allResults st) \<subseteq> fst ` set (allResults st1)"
    "W \<noteq> fst p \<Longrightarrow> map_of (allResults st1) W = map_of (allResults st) W"
    by (auto simp: st1_def keys_mapSet map_of_mapSet)
  have f: "fold (\<lambda>(word, result) s.
             s\<lparr>allResults := mapSet word result (allResults s),
               pluginCacheStore := setCachedResult (clockNow s) (pluginCacheStore s) word result\<rparr>)
          (p # ps) st =
        fold (\<lambda>(word, result) s.
             s\<lparr>allResults := mapSet word result (allResults s),
               pluginCacheStore := setCachedResult (clockNow s) (pluginCacheStore s) word result\<rparr>)
          ps st1"
    by (simp add: split_def st1_def)
  show ?case unfolding f using Cons.IH[of st1] s by auto
qed

text \<open>
  One batch, the \<open>catch\<close> block and the loop over the batches, as steps.
\<close>

lemma runBatch_step:
  "batchStep env (set batch) st (snd (runBatch env batch notLast sourceLang targetLang st))"
proof -
  define st1 where "st1 = (if lastBackoffUntilTs st > clockNow st
                 then st\<lparr>clockNow := delay (lastBackoffUntilTs st - clockNow st) (clockNow st)\<rparr>
                 else st)"
  define st2 where "st2 = (if enableRateLimiting (settings st1) then awaitSlot st1 else st1)"
  have a: "batchStep env (set batch) st st1" by (rule batchStep_refl) (simp_all add: st1_def)
  have "batchStep env (set batch) st1 st2"
    by (rule batchStep_refl) (simp_all add: st2_def awaitSlot_frame)
  with a have b: "batchStep env (set batch) st st2" by (rule batchStep_trans)
  obtain r st3 where p: "processSingleBatchWithRetry env batch sourceLang targetLang st2 = (r, st3)"
    by (cases "processSingleBatchWithRetry env batch sourceLang targetLang st2")
  have "batchStep env (set batch) st2 st3"
    using processSingleBatchWithRetry_sends(1)[of batch st2 env sourceLang targetLang] p
    by (simp add: onlySends_batchStep)
  with b have c: "batchStep env (set batch) st st3" by (rule batchStep_trans)
  have run: "runBatch env batch notLast sourceLang targetLang st =
     (if cancelRequestedAt env (clockNow st1)
         then (Inl (Error (lit ''OPERATION_CANCELLED'')), st1)
         else
           (case r of
                 Inl e \<Rightarrow> (Inl e, st3)
               | Inr batchResults \<Rightarrow>
                   (let st4 = (mergeResults batchResults st3)\<lparr>consecutiveNonModelFailures := 0\<rparr>;
                        st5 = saveCacheStore (savePartialResultsToTable st4)
                    in (Inr (),
                        if notLast
                        then st5\<lparr>clockNow :=
                                   delay (if isMobileEnv env then 3000 else 2000) (clockNow st5)\<rparr>
                        else st5))))"
    by (cases r) (simp_all add: runBatch_def Let_def st1_def[symmetric] st2_def[symmetric] p)
  show ?thesis
  proof (cases "cancelRequestedAt env (clockNow st1)")
    case True
    with a show ?thesis by (simp add: run)
  next
    case False
    show ?thesis
    proof (cases r)
      case (Inl x)
      with False c show ?thesis by (simp add: run)
    next
      case (Inr br)
      define st4 where "st4 = (mergeResults br st3)\<lparr>consecutiveNonModelFailures := 0\<rparr>"
      define st5 where "st5 = saveCacheStore (savePartialResultsToTable st4)"
      define st6 where "st6 = (if notLast
                        then st5\<lparr>clockNow :=
                                   delay (if isMobileEnv env then 3000 else 2000) (clockNow st5)\<rparr>
                        else st5)"
      have k: "answersAskedWords env \<Longrightarrow> fst ` set br \<subseteq> set batch"
        using processSingleBatchWithRetry_sends(2)[of env batch sourceLang targetLang st2 br] p Inr
        by simp
      have m1: "trace st4 = trace st3"
        and m2: "fst ` set (allResults st3) \<subseteq> fst ` set (allResults st4)"
        using mergeResults_frame[of br st3] by (simp_all add: st4_def)
      have m3: "map_of (allResults st4) W = map_of (allResults st3) W"
        if "answersAskedWords env" "W \<notin> set batch" for W
      proof -
        from that k have "W \<notin> fst ` set br" by blast
        with mergeResults_frame[of br st3 W] show ?thesis by (simp add: st4_def)
      qed
      have "batchStep env (set batch) st3 st4" unfolding batchStep_def using m1 m2 m3 by simp
      moreover have "batchStep env (set batch) st4 st6"
        by (rule saved_batchStep[where evs = "[SavePartial (allResults st4),
              SaveCacheStore (own (pluginCacheStore st4))]"])
          (simp_all add: st6_def st5_def saveCacheStore_def savePartialResultsToTable_def)
      ultimately have "batchStep env (set batch) st3 st6" by (rule batchStep_trans)
      with c have "batchStep env (set batch) st st6" by (rule batchStep_trans)
      moreover have "snd (runBatch env batch notLast sourceLang targetLang st) = st6"
        using False Inr by (simp add: run Let_def st4_def st5_def st6_def)
      ultimately show ?thesis by simp
    qed
  qed
qed

lemma execute_state:
  assumes "CircuitBreaker_execute clock operation (cb, st) = (r, cb', st1)"
  shows "st1 = st \<or> st1 = snd (operation st)"
proof (cases "CircuitBreaker_admit (clock st) cb")
  case (Inl e)
  with assms show ?thesis by (simp add: CircuitBreaker_execute_def)
next
  case (Inr cb1)
  obtain x w where o: "operation st = (x, w)" by (cases "operation st")
  with Inr assms have "st1 = w"
    by (cases x) (simp_all add: CircuitBreaker_execute_def)
  with o show ?thesis by simp
qed

lemma completeAndThrow_frame:
  "trace (snd (completeAndThrow e st)) = trace st"
  "allResults (snd (completeAndThrow e st)) = allResults st"
  by (simp_all add: completeAndThrow_def)

lemma retryBatch_frame:
  "trace (snd (snd (retryBatch c counts st))) = trace st"
  "allResults (snd (snd (retryBatch c counts st))) = allResults st"
  by (simp_all add: retryBatch_def Let_def)

lemma skipBatch_frame:
  "trace (snd (snd (skipBatch counts st))) = trace st"
  "allResults (snd (snd (skipBatch counts st))) = allResults st"
  by (simp_all add: skipBatch_def Let_def completeAndThrow_def split: option.splits prod.splits)

lemma handleFailure_frame:
  "allResults (snd (snd (handleFailure batch error counts st))) = allResults st"
  "trace (snd (snd (handleFailure batch error counts st))) =
     (if allResults st \<noteq> [] then trace st @ [SavePartial (allResults st)] else trace st)"
  by (simp_all add: handleFailure_def Let_def savePartialResultsToTable_def
      completeAndThrow_frame retryBatch_frame skipBatch_frame split_def)

lemma handleFailure_step:
  "batchStep env S st (snd (snd (handleFailure batch error counts st)))"
proof (cases "allResults st = []")
  case True
  then show ?thesis by (intro batchStep_refl) (simp_all add: handleFailure_frame)
next
  case False
  then show ?thesis
    by (intro saved_batchStep[where evs = "[SavePartial (allResults st)]"])
      (simp_all add: handleFailure_frame)
qed

lemma batchLoop_step:
  "batchStep env (\<Union> (set ` set batches)) st
     (snd (batchLoop env sourceLang targetLang batches counts st))"
proof (induction env sourceLang targetLang batches counts st rule: batchLoop.induct)
  case (1 env sourceLang targetLang counts st)
  show ?case by (simp add: batchStep_refl)
next
  case (2 env sourceLang targetLang batch rest counts st)
  let ?S = "\<Union> (set ` set (batch # rest))"
  obtain r cb st1 where ex: "CircuitBreaker_execute clockNow
             (runBatch env batch (rest \<noteq> []) sourceLang targetLang) (circuitBreaker st, st) = (r, cb, st1)"
    by (metis prod_cases3)
  have "batchStep env (set batch) st st1"
    using execute_state[OF ex] runBatch_step[of env batch st "rest \<noteq> []" sourceLang targetLang]
    by (auto simp: batchStep_refl)
  then have "batchStep env ?S st st1" by (rule batchStep_mono) auto
  moreover have "batchStep env ?S st1 (st1\<lparr>circuitBreaker := cb\<rparr>)"
    by (rule batchStep_refl) simp_all
  ultimately have a: "batchStep env ?S st (st1\<lparr>circuitBreaker := cb\<rparr>)" by (rule batchStep_trans)
  have sub: "\<Union> (set ` set rest) \<subseteq> ?S" by auto
  show ?case
  proof (cases r)
    case (Inr u)
    have "batchStep env ?S (st1\<lparr>circuitBreaker := cb\<rparr>)
        (snd (batchLoop env sourceLang targetLang rest counts (st1\<lparr>circuitBreaker := cb\<rparr>)))"
      using "2.IH"(3)[OF ex[symmetric] Inr refl] sub by (auto intro: batchStep_mono)
    with a have "batchStep env ?S st
        (snd (batchLoop env sourceLang targetLang rest counts (st1\<lparr>circuitBreaker := cb\<rparr>)))"
      by (rule batchStep_trans)
    then show ?thesis using ex Inr by simp
  next
    case (Inl error)
    obtain v counts1 st2 where h: "handleFailure batch error counts (st1\<lparr>circuitBreaker := cb\<rparr>) = (v, counts1, st2)"
      by (metis prod_cases3)
    have "batchStep env ?S (st1\<lparr>circuitBreaker := cb\<rparr>) st2"
      using handleFailure_step[of env ?S "st1\<lparr>circuitBreaker := cb\<rparr>" batch error counts] h
      by simp
    with a have b: "batchStep env ?S st st2" by (rule batchStep_trans)
    show ?thesis
    proof (cases v)
      case (Abort e')
      then show ?thesis using ex Inl h b by simp
    next
      case NextBatch
      have "batchStep env ?S st2 (snd (batchLoop env sourceLang targetLang rest counts1 st2))"
        using "2.IH"(1)[OF ex[symmetric] Inl refl h[symmetric] NextBatch refl] sub
        by (auto intro: batchStep_mono)
      with b have "batchStep env ?S st (snd (batchLoop env sourceLang targetLang rest counts1 st2))"
        by (rule batchStep_trans)
      then show ?thesis using ex Inl h NextBatch by simp
    next
      case RetryBatch
      have "batchStep env ?S st2
          (snd (batchLoop env sourceLang targetLang (batch # rest) counts1 st2))"
        using "2.IH"(2)[OF ex[symmetric] Inl refl h[symmetric] RetryBatch refl] by auto
      with b have "batchStep env ?S st
          (snd (batchLoop env sourceLang targetLang (batch # rest) counts1 st2))"
        by (rule batchStep_trans)
      then show ?thesis using ex Inl h RetryBatch by simp
    qed
  qed
qed

text \<open>
  The loop over the batches aborts out of the \<open>catch\<close> block only, which has saved the
  result map if there is anything in it.
\<close>

lemma batchLoop_abort:
  assumes "batchLoop env sourceLang targetLang batches counts st = (Inl e, st')"
    and "allResults st' \<noteq> []"
  shows "\<exists>evs. trace st' = evs @ [SavePartial (allResults st')]"
  using assms
proof (induction env sourceLang targetLang batches counts st rule: batchLoop.induct)
  case (1 env sourceLang targetLang counts st)
  then show ?case by simp
next
  case (2 env sourceLang targetLang batch rest counts st)
  obtain r cb st1 where ex: "CircuitBreaker_execute clockNow
             (runBatch env batch (rest \<noteq> []) sourceLang targetLang) (circuitBreaker st, st) = (r, cb, st1)"
    by (metis prod_cases3)
  show ?case
  proof (cases r)
    case (Inr u)
    then show ?thesis using 2 ex by simp
  next
    case (Inl error)
    obtain v counts1 st2 where h: "handleFailure batch error counts (st1\<lparr>circuitBreaker := cb\<rparr>) = (v, counts1, st2)"
      by (metis prod_cases3)
    show ?thesis
    proof (cases v)
      case (Abort e')
      define sb where "sb = st1\<lparr>circuitBreaker := cb\<rparr>"
      have "allResults st2 = allResults sb"
        "trace st2 =
           (if allResults sb \<noteq> [] then trace sb @ [SavePartial (allResults sb)] else trace sb)"
        using handleFailure_frame[of batch error counts sb] h by (simp_all add: sb_def)
      moreover have "st' = st2" using 2(4) ex Inl h Abort by simp
      ultimately show ?thesis using 2(5) by auto
    next
      case NextBatch
      then show ?thesis using 2 ex Inl h by simp
    next
      case RetryBatch
      then show ?thesis using 2 ex Inl h by simp
    qed
  qed
qed





lemma startRun_frame:
  "trace (startRun st) = trace st" "pluginCacheStore (startRun st) = pluginCacheStore st"
  "clockNow (startRun st) = clockNow st"
  "cacheTTLHours (settings (startRun st)) = cacheTTLHours (settings st)"
  "allResults (startRun st) = []"
  by (simp_all add: startRun_def Let_def)

text \<open>
  The three ways a run ends: the look-ups throw, the loop over the batches aborts, or
  the loop comes to its end and the results are saved and returned.
\<close>

lemma run_cases:
  assumes "processWordsInBatches env words sourceLang targetLang st0 = Some (outcome, st')"
  obtains (lookup) e results uncached st1 where
      "splitCached env words [] [] (startRun st0) = (Some e, results, uncached, st1)"
      "outcome = Inl e" "st' = st1\<lparr>allResults := results\<rparr>"
  | (abort) results uncached st1 batches e where
      "splitCached env words [] [] (startRun st0) = (None, results, uncached, st1)"
      "createOptimizedBatches (st1\<lparr>allResults := results\<rparr>) (prioritizeWords uncached) = Some batches"
      "batchLoop env sourceLang targetLang batches (\<lambda>c. 0) (st1\<lparr>allResults := results\<rparr>) = (Inl e, st')"
      "outcome = Inl e"
  | (finished) results uncached st1 batches u st3 where
      "splitCached env words [] [] (startRun st0) = (None, results, uncached, st1)"
      "createOptimizedBatches (st1\<lparr>allResults := results\<rparr>) (prioritizeWords uncached) = Some batches"
      "batchLoop env sourceLang targetLang batches (\<lambda>c. 0) (st1\<lparr>allResults := results\<rparr>) = (Inr u, st3)"
      "st' = saveCacheStore (if allResults st3 \<noteq> [] then savePartialResultsToTable st3 else st3)"
      "outcome = Inr (allResults st')"
proof -
  obtain err results uncached st1 where
    sp: "splitCached env words [] [] (startRun st0) = (err, results, uncached, st1)"
    by (metis prod_cases4)
  show ?thesis
  proof (cases err)
    case (Some e)
    with assms sp have "outcome = Inl e" "st' = st1\<lparr>allResults := results\<rparr>"
      by (simp_all add: processWordsInBatches_def)
    with sp Some show ?thesis by (intro lookup) simp_all
  next
    case None
    define st2 where "st2 = st1\<lparr>allResults := results\<rparr>"
    obtain batches where cb: "createOptimizedBatches st2 (prioritizeWords uncached) = Some batches"
      using assms sp None
      by (cases "createOptimizedBatches st2 (prioritizeWords uncached)")
        (simp_all add: processWordsInBatches_def Let_def st2_def)
    obtain r st3 where bl: "batchLoop env sourceLang targetLang batches (\<lambda>c. 0) st2 = (r, st3)"
      by (cases "batchLoop env sourceLang targetLang batches (\<lambda>c. 0) st2")
    show ?thesis
    proof (cases r)
      case (Inl e)
      with assms sp None cb bl have "outcome = Inl e" "st' = st3"
        by (simp_all add: processWordsInBatches_def Let_def st2_def)
      with sp None cb bl Inl show ?thesis by (intro abort) (simp_all add: st2_def)
    next
      case (Inr u)
      with assms sp None cb bl
      have "st' = saveCacheStore (if allResults st3 \<noteq> [] then savePartialResultsToTable st3 else st3)"
        "outcome = Inr (allResults st')"
        by (auto simp: processWordsInBatches_def Let_def st2_def)
      with sp None cb bl Inr show ?thesis by (intro finished) (simp_all add: st2_def)
    qed
  qed
qed

text \<open>
  C6. A run that aborts ends in one of three ways. Nothing has been sent or saved since
  its start: the look-ups of the cache, which come before the first batch, have thrown,
  and no batch has run. Or the result map is empty: there is nothing to flush. Or the
  last thing the run has done to the outside is the save of the whole result map, as it
  is when the error reaches the caller; and every map saved before, after each batch
  that succeeded, has its keys in it, so that the results of the earlier batches are
  all in the map that is flushed. The flush is the call of
  \<open>savePartialResultsToTable\<close> with the result map, the event \<open>SavePartial\<close>; a
  write that the vault refuses is caught and logged by the code.
\<close>

theorem C6_partial_results_flushed:
  assumes "processWordsInBatches env words sourceLang targetLang st0 = Some (Inl e, st')"
  shows "trace st' = trace st0 \<or> allResults st' = [] \<or>
     (\<exists>evs. trace st' = trace st0 @ evs @ [SavePartial (allResults st')] \<and>
        (\<forall>m. SavePartial m \<in> set evs \<longrightarrow> fst ` set m \<subseteq> fst ` set (allResults st')))"
  using assms
proof (cases rule: run_cases)
  case (lookup e' results uncached st1)
  from splitCached_frame[OF lookup(1)] lookup(3) show ?thesis by (simp add: startRun_frame)
next
  case (abort results uncached st1 batches e')
  define st2 where "st2 = st1\<lparr>allResults := results\<rparr>"
  have t2: "trace st2 = trace st0"
    using splitCached_frame[OF abort(1)] by (simp add: st2_def startRun_frame)
  show ?thesis
  proof (cases "allResults st' = []")
    case True
    then show ?thesis by simp
  next
    case False
    from batchLoop_abort[OF abort(3) False] obtain evs where
      e: "trace st' = evs @ [SavePartial (allResults st')]" by blast
    from batchLoop_step[of env batches st2 sourceLang targetLang "\<lambda>c. 0"] abort(3)
    obtain evs' where
      e': "trace st' = trace st2 @ evs'"
        "list_all (covers (\<Union> (set ` set batches)) (fst ` set (allResults st'))) evs'"
      unfolding batchStep_def st2_def by auto
    show ?thesis
    proof (cases evs' rule: rev_cases)
      case Nil
      with e'(1) t2 show ?thesis by simp
    next
      case (snoc evs'' x)
      with e e' have "x = SavePartial (allResults st')" by simp
      with snoc e' t2 have "trace st' = trace st0 @ evs'' @ [SavePartial (allResults st')]"
        by simp
      moreover
      have "\<forall>m. SavePartial m \<in> set evs'' \<longrightarrow> fst ` set m \<subseteq> fst ` set (allResults st')"
      proof (intro allI impI)
        fix m assume "SavePartial m \<in> set evs''"
        with snoc have "SavePartial m \<in> set evs'" by simp
        with e'(2)
        have "covers (\<Union> (set ` set batches)) (fst ` set (allResults st')) (SavePartial m)"
          unfolding list_all_iff by blast
        then show "fst ` set m \<subseteq> fst ` set (allResults st')" by simp
      qed
      ultimately show ?thesis by blast
    qed
  qed
qed simp


subsection \<open>Two runs\<close>

text \<open>
  The run of \<open>Hello\<close>, \<open>cat\<close> and \<open>dog\<close> over a cache that holds \<open>hello\<close>, step by
  step: the look-ups, the batches, the first batch, and the second batch when the model
  is gone and when it is translated.
\<close>

lemma lower1: "toLowerCase (lit ''Hello'') = lit ''hello''" "toLowerCase (lit ''cat'') = lit ''cat''"
  "toLowerCase (lit ''dog'') = lit ''dog''"
  by (simp_all add: toLowerCase_ascii lit_def lowerUnit_def)

lemma valid_bonjour: "isValidTranslation bonjour"
  by (simp add: isValidTranslation_def bonjour_def lit_def trim_def isWhiteSpace_def
      isDefinitionSymbol_def js_includes_def sublist_code)

lemma plain_keys:
  "lit ''cat'' \<notin> set objectPrototypeKeys" "lit ''cat'' \<noteq> lit ''__proto__''"
  "lit ''dog'' \<notin> set objectPrototypeKeys" "lit ''dog'' \<noteq> lit ''__proto__''"
  by (simp_all add: objectPrototypeKeys_def lit_def)

lemma look_miss:
  assumes "w = lit ''cat'' \<or> w = lit ''dog''"
    and "map_of (own S) w = None" and "proto S = None"
  shows "getCachedResult ttl now S w = Returns (None, S)"
  using assms getCachedResult_absent[of S w ttl now] plain_keys lower1 by auto

lemma look_hello:
  assumes "map_of (own S) (lit ''hello'') = Some \<lparr>ts = 1000, data = bonjour\<rparr>"
    and "now \<le> 86401000"
  shows "getCachedResult (Some 24) now S (lit ''Hello'') = Returns (Some bonjour, S)"
  using assms getCachedResult_stored[of S "lit ''Hello''" "\<lparr>ts = 1000, data = bonjour\<rparr>" 24 now]
    valid_not_empty[OF valid_bonjour]
  by (simp add: lower1)

lemma store_facts:
  "map_of (own store1) (lit ''hello'') = Some \<lparr>ts = 1000, data = bonjour\<rparr>"
  "map_of (own store1) (lit ''cat'') = None" "map_of (own store1) (lit ''dog'') = None"
  "proto store1 = None"
  "map_of (own store2) (lit ''dog'') = None" "proto store2 = None"
  "storeSet store1 (lit ''cat'') \<lparr>ts = 100010, data = bonjour\<rparr> = store2"
  "storeSet store2 (lit ''cat'') \<lparr>ts = 100010, data = bonjour\<rparr> = store2"
  by (simp_all add: store1_def store2_def storeSet_def lit_def)

lemma manager1_fields:
  "settings manager1 = settings0" "clockNow manager1 = 100000"
  "pluginCacheStore manager1 = store1" "failedWordsInCurrentOperation manager1 = []"
  "summaryInProgress manager1" "rateLimiter manager1 = []"
  "adaptiveBatchController manager1 = None" "consecutiveNonModelFailures manager1 = 0"
  "lastBackoffUntilTs manager1 = 0" "jsonErrorCount manager1 = 0"
  "rateLimitErrorCount manager1 = 0"
  "circuitBreaker manager1 = new_CircuitBreaker (lit ''TranslationService'')"
  "networkBackoff manager1 = 0" "allResults manager1 = []" "fetchCount manager1 = 0"
  "trace manager1 = []"
  by (simp_all add: manager1_def manager0_def)

lemma startRun1: "startRun manager1 = manager1"
  by (simp add: startRun_def Let_def manager1_def manager0_def settings0_def)

lemma split1:
  "splitCached env words1 [] [] manager1 =
     (None, [(lit ''Hello'', bonjour)], [lit ''cat'', lit ''dog''], manager1)"
  by (simp add: words1_def manager1_fields settings0_def look_hello look_miss store_facts
      valid_bonjour mapSet_def)

lemma batches1:
  assumes "adaptiveBatchController st = None" "settings st = settings0"
  shows "createOptimizedBatches st (prioritizeWords [lit ''cat'', lit ''dog'']) =
     Some [[lit ''cat''], [lit ''dog'']]"
proof -
  have "prioritizeWords [lit ''cat'', lit ''dog''] = [lit ''cat'', lit ''dog'']"
    by (simp add: prioritizeWords_def score_def lit_def)
  then show ?thesis
    using assms
    by (simp add: createOptimizedBatches_def settings0_def batchesFrom.simps slice_def
        sliceIndex_def)
qed

lemma post1:
  assumes "settings st = settings0"
  shows "postToWorkerWithFailover (world f) body st =
     failoverLoop (world f) body 0 [urlA, urlB] [] st"
  using assms by (simp add: postToWorkerWithFailover_def settings0_def example_urls)

lemma callOk:
  assumes "settings st = settings0" "f (fetchCount st) urlA (bodyOf w) = okResponse [w]"
  shows "callCloudflareWorkerDirect (world f) [w] (lit ''en'') (lit ''fr'') st =
     (Inr [(w, bonjour)],
      st\<lparr>fetchCount := fetchCount st + 1, clockNow := clockNow st + 10,
         trace := trace st @ [Request urlA (bodyOf w)]\<rparr>)"
proof -
  define d where "d = \<lparr>jd_error = None, jd_errorCategory = None, jd_stringified = [],
         jd_success = True, jd_translations = [(w, bonjour)]\<rparr>"
  have b: "\<lparr>rb_words = [w], rb_sourceLang = lit ''en'', rb_targetLang = lit ''fr'',
             rb_model = groqModel (settings st),
             rb_useJSONFormat = useJSONFormat (settings st)\<rparr> = bodyOf w"
    using assms(1) by (simp add: bodyOf_def body0_def settings0_def)
  have "tryEndpoint (world f) urlA 0 (bodyOf w) st =
      returnData (world f) urlA 0 d (snd (doRequest (world f) urlA (bodyOf w) st))"
    by (rule tryEndpoint_ok[where res = "\<lparr>res_status = 200, res_text = [], res_json = Parsed d\<rparr>"])
      (simp_all add: example_world okResponse_def d_def res_ok_def assms)
  then have "failoverLoop (world f) (bodyOf w) 0 [urlA, urlB] [] st =
      (Inr d, st\<lparr>fetchCount := fetchCount st + 1, clockNow := clockNow st + 10,
         trace := trace st @ [Request urlA (bodyOf w)]\<rparr>)"
    by (simp add: returnData_def doRequest_def example_world)
  then show ?thesis
    unfolding callCloudflareWorkerDirect_def Let_def b post1[OF assms(1)]
    by (simp add: d_def mapOfEntries_def mapSet_def)
qed

lemma categoryGone:
  "categorizeError \<lparr>message = lit ''The model does not exist'', status = Some 404\<rparr> = MODEL"
  "categorizeError modelGone = MODEL"
  by (simp_all add: modelGone_def categorizeError_def Error_def Let_def js_includes_def lit_def
      sublist_code toLowerCase_ascii lowerUnit_def)

lemma gone_message:
  "lit ''Model Not Available: '' @ lit ''The model does not exist'' =
   lit ''Model Not Available: The model does not exist''"
  by (simp add: lit_def)

lemma callGone:
  assumes "settings st = settings0" "fetchCount st = Suc n"
  shows "callCloudflareWorkerDirect (world netModel) [w] (lit ''en'') (lit ''fr'') st =
     (Inl modelGone,
      st\<lparr>fetchCount := Suc (Suc n), clockNow := clockNow st + 10,
         trace := trace st @ [Request urlA (bodyOf w)]\<rparr>)"
proof -
  define ed where "ed = \<lparr>jd_error = Some (lit ''The model does not exist''),
      jd_errorCategory = Some (lit ''model''),
      jd_stringified = lit ''The model does not exist'', jd_success = False,
      jd_translations = []\<rparr>"
  have b: "\<lparr>rb_words = [w], rb_sourceLang = lit ''en'', rb_targetLang = lit ''fr'',
             rb_model = groqModel (settings st),
             rb_useJSONFormat = useJSONFormat (settings st)\<rparr> = bodyOf w"
    using assms(1) by (simp add: bodyOf_def body0_def settings0_def)
  have "tryEndpoint (world netModel) urlA 0 (bodyOf w) st =
      (Inl modelGone, st\<lparr>fetchCount := Suc (Suc n), clockNow := clockNow st + 10,
         trace := trace st @ [Request urlA (bodyOf w)]\<rparr>)"
    using assms(2)
    by (simp add: tryEndpoint_def doRequest_def Let_def example_world netModel_def
        errorResponse_def res_ok_def orElse_lit categoryGone modelNotAvailable_def modelGone_def
        gone_message)
  then have "failoverLoop (world netModel) (bodyOf w) 0 [urlA, urlB] [] st =
      (Inl modelGone, st\<lparr>fetchCount := Suc (Suc n), clockNow := clockNow st + 10,
         trace := trace st @ [Request urlA (bodyOf w)]\<rparr>)"
    by (simp add: categoryGone)
  then show ?thesis
    unfolding callCloudflareWorkerDirect_def Let_def b post1[OF assms(1)]
    by simp
qed

lemma world_flags: "cancelRequestedAt (world f) t = False" "isMobileEnv (world f) = False"
  by (simp_all add: world_def)

lemma other_words: "lit ''Hello'' \<noteq> lit ''cat''" "lit ''cat'' \<noteq> lit ''Hello''"
  by (simp_all add: lit_def)

lemma runBatch1:
  assumes "f 0 urlA (bodyOf (lit ''cat'')) = okResponse [lit ''cat'']"
  shows "runBatch (world f) [lit ''cat''] True (lit ''en'') (lit ''fr'')
     (manager1\<lparr>allResults := [(lit ''Hello'', bonjour)]\<rparr>) = (Inr (), afterBatch1)"
  using assms
  by (simp add: runBatch_def Let_def manager1_def manager0_def awaitSlot_def getMaxRequests_def
      getMaxRequestsPerMinute_def settings0_def acquireSlot_record cleanupOldRequests_def
      windowMs_def processSingleBatchWithRetry_def look_miss store_facts callOk cacheValid_def
      valid_bonjour setCachedResult_def lower1 mergeResults_def mapOfEntries_def mapSet_def
      saveCacheStore_def savePartialResultsToTable_def delay_def world_flags afterBatch1_def
      results1_def other_words)

lemma netModel_first: "netModel 0 url body = okResponse (rb_words body)"
  by (simp add: netModel_def)

lemma bodyOf_words: "rb_words (bodyOf w) = [w]"
  by (simp add: bodyOf_def)

lemma runBatch2:
  "runBatch (world netModel) [lit ''dog''] False (lit ''en'') (lit ''fr'') afterBatch1 =
     (Inl modelGone, failed2)"
  by (simp add: runBatch_def Let_def manager1_def manager0_def awaitSlot_def getMaxRequests_def
      getMaxRequestsPerMinute_def settings0_def acquireSlot_record cleanupOldRequests_def
      windowMs_def processSingleBatchWithRetry_def look_miss store_facts callGone
      world_flags afterBatch1_def failed2_def)

lemma exec1:
  assumes "f 0 urlA (bodyOf (lit ''cat'')) = okResponse [lit ''cat'']"
  shows "CircuitBreaker_execute clockNow
     (runBatch (world f) [lit ''cat''] True (lit ''en'') (lit ''fr''))
     (new_CircuitBreaker (lit ''TranslationService''), manager1\<lparr>allResults := [(lit ''Hello'', bonjour)]\<rparr>) =
     (Inr (), new_CircuitBreaker (lit ''TranslationService''), afterBatch1)"
  by (simp add: CircuitBreaker_execute_def CircuitBreaker_admit_def runBatch1[where f = f, OF assms]
      manager1_fields new_CircuitBreaker_def CircuitBreaker_onSuccess_def)

lemma afterBatch1_breaker:
  "circuitBreaker afterBatch1 = new_CircuitBreaker (lit ''TranslationService'')"
  "afterBatch1\<lparr>circuitBreaker := new_CircuitBreaker (lit ''TranslationService'')\<rparr> =
     afterBatch1"
  by (simp_all add: afterBatch1_def manager1_def manager0_def)

lemma exec2:
  "CircuitBreaker_execute clockNow
     (runBatch (world netModel) [lit ''dog''] False (lit ''en'') (lit ''fr''))
     (new_CircuitBreaker (lit ''TranslationService''), afterBatch1) =
     (Inl modelGone,
      (new_CircuitBreaker (lit ''TranslationService''))\<lparr>failureCount := Suc 0, lastFailureTime := 102020\<rparr>, failed2)"
  by (simp add: CircuitBreaker_execute_def CircuitBreaker_admit_def runBatch2 manager1_fields
      new_CircuitBreaker_def CircuitBreaker_onFailure_def failureThreshold_def Let_def
      failed2_def)

lemma not_mixed: "\<not> isMixedScriptError (message modelGone)"
  by (simp add: isMixedScriptError_def modelGone_def Error_def js_includes_def lit_def
      sublist_code)

lemma handle2:
  "handleFailure [lit ''dog''] modelGone counts
     (failed2\<lparr>circuitBreaker :=
        (new_CircuitBreaker (lit ''TranslationService''))\<lparr>failureCount := Suc 0, lastFailureTime := 102020\<rparr>\<rparr>) =
     (Abort modelGone, counts, aborted1)"
  by (simp add: handleFailure_def Let_def categoryGone not_mixed completeAndThrow_def
      savePartialResultsToTable_def failed2_def afterBatch1_def aborted1_def manager1_fields
      results1_def)

lemma loop1:
  "batchLoop (world netModel) (lit ''en'') (lit ''fr'') [[lit ''cat''], [lit ''dog'']] counts
     (manager1\<lparr>allResults := [(lit ''Hello'', bonjour)]\<rparr>) = (Inl modelGone, aborted1)"
  by (simp add: manager1_fields exec1 netModel_first bodyOf_words afterBatch1_breaker exec2 handle2)

lemma run1:
  "processWordsInBatches (world netModel) words1 (lit ''en'') (lit ''fr'') manager1 =
     Some (Inl modelGone, aborted1)"
  by (simp add: processWordsInBatches_def startRun1 split1 Let_def batches1 manager1_fields loop1
      del: batchLoop.simps)









lemma aborted1_fields:
  "allResults aborted1 = results1"
  "trace aborted1 =
     [Request urlA (bodyOf (lit ''cat'')), SavePartial results1, SaveCacheStore (own store2),
      Request urlA (bodyOf (lit ''dog'')), SavePartial results1]"
  by (simp_all add: aborted1_def)


text \<open>
  The scenario of C6: the first batch is translated, the second finds the model gone.
  The run aborts with the model error; the last event is the save of the result map,
  which holds the cached result and the result of the first batch.
\<close>

theorem C6_partial_results_flushed_witness:
  "processWordsInBatches (world netModel) words1 (lit ''en'') (lit ''fr'') manager1 =
     Some (Inl modelGone, aborted1) \<and>
   allResults aborted1 = [(lit ''Hello'', bonjour), (lit ''cat'', bonjour)] \<and>
   trace manager1 = [] \<and>
   trace aborted1 =
     [Request urlA (bodyOf (lit ''cat'')), SavePartial (allResults aborted1),
      SaveCacheStore (own store2), Request urlA (bodyOf (lit ''dog'')),
      SavePartial (allResults aborted1)] \<and>
   (\<exists>evs. trace aborted1 = trace manager1 @ evs @ [SavePartial (allResults aborted1)] \<and>
      (\<forall>m. SavePartial m \<in> set evs \<longrightarrow> fst ` set m \<subseteq> fst ` set (allResults aborted1)))"
  using C6_partial_results_flushed[OF run1]
  by (simp add: run1 aborted1_fields manager1_fields results1_def)


end
